(* ===== verification/FF_Prelude.thy ===== *)
theory FF_Prelude
  imports Main "HOL-Library.Word"
begin

text \<open>
  Shared vocabulary of the development: the machine types of the C++ sources, the model of
  \<open>std::unordered_map\<close> as an association list in iteration order, the interface locales the
  components are proved against (keyed containers, event systems with an invariant, event
  systems with a monotone relation), and the word lemmas used by the codec.
\<close>

unbundle bit_operations_syntax

subsection \<open>Machine types\<close>

type_synonym byte = "8 word"
type_synonym u16 = "16 word"
type_synonym u32 = "32 word"
type_synonym u64 = "64 word"

subsection \<open>Collections of rewrite rules\<close>

text \<open>
  \<open>ff_defs\<close> collects the definitions a component proof unfolds; \<open>writer_rules\<close> and
  \<open>reader_rules\<close> are the introduction rules of the codec calculus.
\<close>

named_theorems ff_defs \<open>definitions unfolded by the component proofs\<close>
named_theorems writer_rules \<open>introduction rules for the bytes a writer appends\<close>
named_theorems reader_rules \<open>introduction rules for reading back what was written\<close>

subsection \<open>Keyed containers\<close>

text \<open>
  What the components rely on of \<open>std::unordered_map\<close>: lookup after insertion and
  assignment, and that the iteration lists every key once.
\<close>

locale keyed_container =
  fixes find :: "'m \<Rightarrow> 'k \<Rightarrow> 'v option"
    and emplace :: "'k \<Rightarrow> 'v \<Rightarrow> 'm \<Rightarrow> 'm"
    and assign :: "'k \<Rightarrow> 'v \<Rightarrow> 'm \<Rightarrow> 'm"
    and items :: "'m \<Rightarrow> ('k \<times> 'v) list"
    and invar :: "'m \<Rightarrow> bool"
  assumes find_emplace: "find (emplace k v m) =
      (if find m k = None then (find m)(k \<mapsto> v) else find m)"
    and find_assign: "find (assign k v m) = (find m)(k \<mapsto> v)"
    and invar_emplace: "invar m \<Longrightarrow> invar (emplace k v m)"
    and invar_assign: "invar m \<Longrightarrow> invar (assign k v m)"
    and items_find: "invar m \<Longrightarrow> (k, v) \<in> set (items m) \<longleftrightarrow> find m k = Some v"
    and items_distinct: "invar m \<Longrightarrow> distinct (map fst (items m))"
begin

lemma emplace_keeps: "find m k = Some v \<Longrightarrow> find (emplace k' v' m) k = Some v"
  by (auto simp: find_emplace)

lemma emplace_other: "k \<noteq> k' \<Longrightarrow> find (emplace k' v' m) k = find m k"
  by (simp add: find_emplace)

lemma assign_same: "find (assign k v m) k = Some v"
  by (simp add: find_assign)

lemma assign_other: "k \<noteq> k' \<Longrightarrow> find (assign k' v' m) k = find m k"
  by (simp add: find_assign)

lemma map_of_items: "invar m \<Longrightarrow> map_of (items m) = find m"
proof (rule ext)
  fix k assume m: "invar m"
  show "map_of (items m) k = find m k"
  proof (cases "find m k")
    case None
    then have "k \<notin> fst ` set (items m)" using m items_find by fastforce
    then show ?thesis using None by (simp add: map_of_eq_None_iff)
  next
    case (Some v)
    then show ?thesis using m items_find items_distinct by (simp add: map_of_eq_Some_iff)
  qed
qed

end

text \<open>
  The model of \<open>std::unordered_map\<close>: an association list with distinct keys, in iteration
  order. The standard leaves that order open; a theorem about every such list covers every
  order an implementation may choose.
\<close>

type_synonym ('k, 'v) umap = "('k \<times> 'v) list"

definition um_wf :: "('k, 'v) umap \<Rightarrow> bool" where
  "um_wf m \<longleftrightarrow> distinct (map fst m)"

definition um_count :: "'k \<Rightarrow> ('k, 'v) umap \<Rightarrow> bool" where
  "um_count k m \<longleftrightarrow> map_of m k \<noteq> None"

definition um_emplace :: "'k \<Rightarrow> 'v \<Rightarrow> ('k, 'v) umap \<Rightarrow> ('k, 'v) umap" where
  "um_emplace k v m = (if um_count k m then m else (k, v) # m)"

fun um_assign :: "'k \<Rightarrow> 'v \<Rightarrow> ('k, 'v) umap \<Rightarrow> ('k, 'v) umap" where
  "um_assign k v [] = [(k, v)]"
| "um_assign k v ((k', v') # m) = (if k = k' then (k, v) # m else (k', v') # um_assign k v m)"

definition um_erase :: "'k \<Rightarrow> ('k, 'v) umap \<Rightarrow> ('k, 'v) umap" where
  "um_erase k m = filter (\<lambda>p. fst p \<noteq> k) m"

lemma map_of_um_assign: "map_of (um_assign k v m) = (map_of m)(k \<mapsto> v)"
  by (induction k v m rule: um_assign.induct) auto

lemma set_um_assign: "fst ` set (um_assign k v m) = insert k (fst ` set m)"
  by (induction k v m rule: um_assign.induct) auto

lemma map_of_um_emplace:
  "map_of (um_emplace k v m) = (if map_of m k = None then (map_of m)(k \<mapsto> v) else map_of m)"
  by (simp add: um_emplace_def um_count_def)

lemma map_of_um_erase: "map_of (um_erase k m) = (map_of m)(k := None)"
  by (induction m) (auto simp: um_erase_def)

lemma um_wf_Nil [simp]: "um_wf []"
  by (simp add: um_wf_def)

lemma um_wf_assign: "um_wf m \<Longrightarrow> um_wf (um_assign k v m)"
  by (induction k v m rule: um_assign.induct) (auto simp: um_wf_def set_um_assign)

lemma um_wf_emplace: "um_wf m \<Longrightarrow> um_wf (um_emplace k v m)"
  by (auto simp: um_emplace_def um_wf_def um_count_def map_of_eq_None_iff)

lemma um_wf_erase: "um_wf m \<Longrightarrow> um_wf (um_erase k m)"
  unfolding um_wf_def um_erase_def by (rule distinct_map_filter)

interpretation um: keyed_container map_of um_emplace um_assign id um_wf
  by unfold_locales
    (simp_all add: map_of_um_emplace map_of_um_assign um_wf_emplace um_wf_assign,
      simp_all add: um_wf_def)

lemmas um_simps [simp] = map_of_um_emplace map_of_um_assign map_of_um_erase

lemma um_count_iff [simp]: "um_count k m \<longleftrightarrow> map_of m k \<noteq> None"
  by (simp add: um_count_def)

subsection \<open>Event systems\<close>

text \<open>
  A component with state is a step function on events. An invariant that every step keeps
  holds after every run; a reflexive and transitive relation that every step respects
  relates the two ends of every run.
\<close>

locale event_system =
  fixes step :: "'e \<Rightarrow> 's \<Rightarrow> 's"
    and inv :: "'s \<Rightarrow> bool"
  assumes step_inv: "inv s \<Longrightarrow> inv (step e s)"
begin

lemma run_inv: "inv s \<Longrightarrow> inv (fold step es s)"
  by (induction es arbitrary: s) (auto simp: step_inv)

lemma run_prefix_inv: "inv s \<Longrightarrow> inv (fold step (take n es) s)"
  by (rule run_inv)

end

locale monotone_system = event_system +
  fixes rel :: "'b \<Rightarrow> 'b \<Rightarrow> bool"
  assumes rel_refl: "rel s s"
    and rel_trans: "rel s t \<Longrightarrow> rel t u \<Longrightarrow> rel s u"
    and step_rel: "inv s \<Longrightarrow> rel s (step e s)"
begin

lemma run_rel: "inv s \<Longrightarrow> rel s (fold step es s)"
proof (induction es arbitrary: s)
  case Nil
  then show ?case by (simp add: rel_refl)
next
  case (Cons e es)
  then have "rel s (step e s)" and "rel (step e s) (fold step es (step e s))"
    by (simp_all add: step_rel step_inv)
  then show ?case by (auto intro: rel_trans)
qed

end

subsection \<open>Decimal output\<close>

text \<open>\<open>std::to_string\<close> and stream insertion of an unsigned integer.\<close>

fun show_nat :: "nat \<Rightarrow> string" where
  "show_nat n = (if n < 10 then [char_of (48 + n)] else show_nat (n div 10) @ [char_of (48 + n mod 10)])"

declare show_nat.simps [simp del]

definition show_word :: "'a::len word \<Rightarrow> string" where
  "show_word w = show_nat (unat w)"

subsection \<open>Decimal input\<close>

definition is_digit :: "char \<Rightarrow> bool" where
  "is_digit c \<longleftrightarrow> 48 \<le> (of_char c :: nat) \<and> (of_char c :: nat) \<le> 57"

definition decimal :: "string \<Rightarrow> nat" where
  "decimal s = foldl (\<lambda>a c. a * 10 + (of_char c - 48)) 0 s"

text \<open>\<open>std::atoi\<close>: white space, a sign, digits.\<close>

definition atoi :: "string \<Rightarrow> int" where
  "atoi s =
     (let s = dropWhile (\<lambda>c. c = CHR 0x20 \<or> (9 \<le> (of_char c :: nat) \<and> (of_char c :: nat) \<le> 13)) s
      in case s of [] \<Rightarrow> 0
         | c # cs \<Rightarrow>
            if c = CHR ''-'' then - int (decimal (takeWhile is_digit cs))
            else if c = CHR ''+'' then int (decimal (takeWhile is_digit cs))
            else int (decimal (takeWhile is_digit s)))"

end
