(* ===== verification/FF_Id.thy ===== *)
theory FF_Id
  imports FF_Prelude "HOL-Library.Char_ord"
begin

text \<open>
  Identities (\<open>include/failure_fabric/id.hpp\<close>): 128-bit identifiers with their hexadecimal
  form, strongly typed by a phantom tag, their random generation, and the 64-bit generation
  counters with wrap-around.
\<close>

subsection \<open>uuid128\<close>

text \<open>The sixteen bytes of \<open>std::array<uint8_t, 16>\<close>, in index order.\<close>

datatype uuid128 = UUID byte byte byte byte byte byte byte byte byte byte byte byte byte byte byte byte

fun bytes :: "uuid128 \<Rightarrow> byte list" where
  "bytes (UUID b0 b1 b2 b3 b4 b5 b6 b7 b8 b9 b10 b11 b12 b13 b14 b15) =
     [b0, b1, b2, b3, b4, b5, b6, b7, b8, b9, b10, b11, b12, b13, b14, b15]"

text \<open>Element \<open>i\<close> of a value-initialised array that was filled from \<open>xs\<close>.\<close>

definition byte_at :: "byte list \<Rightarrow> nat \<Rightarrow> byte" where
  "byte_at xs i = (if i < length xs then xs ! i else 0)"

definition uuid_of_bytes :: "byte list \<Rightarrow> uuid128" where
  "uuid_of_bytes xs = UUID (byte_at xs 0) (byte_at xs 1) (byte_at xs 2) (byte_at xs 3)
     (byte_at xs 4) (byte_at xs 5) (byte_at xs 6) (byte_at xs 7)
     (byte_at xs 8) (byte_at xs 9) (byte_at xs 10) (byte_at xs 11)
     (byte_at xs 12) (byte_at xs 13) (byte_at xs 14) (byte_at xs 15)"

definition uuid_zero :: uuid128 where
  "uuid_zero = UUID 0 0 0 0 0 0 0 0 0 0 0 0 0 0 0 0"

definition is_zero :: "uuid128 \<Rightarrow> bool" where
  "is_zero u \<longleftrightarrow> list_all (\<lambda>b. b = 0) (bytes u)"

fun bytes_less :: "byte list \<Rightarrow> byte list \<Rightarrow> bool" where
  "bytes_less (x # xs) (y # ys) = (if x \<noteq> y then x < y else bytes_less xs ys)"
| "bytes_less _ _ = False"

definition uuid_less :: "uuid128 \<Rightarrow> uuid128 \<Rightarrow> bool" where
  "uuid_less u v = bytes_less (bytes u) (bytes v)"

definition hash_uuid128 :: "uuid128 \<Rightarrow> u64" where
  "hash_uuid128 u =
     foldl (\<lambda>h b. (h XOR ucast b) * 1099511628211) 1469598103934665603 (bytes u)"

subsection \<open>Hexadecimal form\<close>

definition is_hex_char :: "char \<Rightarrow> bool" where
  "is_hex_char c \<longleftrightarrow>
     (CHR ''0'' \<le> c \<and> c \<le> CHR ''9'') \<or> (CHR ''a'' \<le> c \<and> c \<le> CHR ''f'') \<or>
     (CHR ''A'' \<le> c \<and> c \<le> CHR ''F'')"

definition is_valid_hex :: "string \<Rightarrow> bool" where
  "is_valid_hex s \<longleftrightarrow> \<not> (s = [] \<or> length s > 32) \<and> list_all is_hex_char s"

definition hex_digits :: string where
  "hex_digits = ''0123456789abcdef''"

definition hex_nibble :: "char \<Rightarrow> int" where
  "hex_nibble c =
     (if CHR ''0'' \<le> c \<and> c \<le> CHR ''9'' then of_char c - of_char CHR ''0''
      else if CHR ''a'' \<le> c \<and> c \<le> CHR ''f'' then of_char c - of_char CHR ''a'' + 10
      else if CHR ''A'' \<le> c \<and> c \<le> CHR ''F'' then of_char c - of_char CHR ''A'' + 10
      else -1)"

definition hex_pair :: "byte \<Rightarrow> string" where
  "hex_pair b = [hex_digits ! unat (drop_bit 4 b), hex_digits ! unat (b AND 0x0F)]"

definition uuid128_to_hex :: "uuid128 \<Rightarrow> string" where
  "uuid128_to_hex u = concat (map hex_pair (bytes u))"

definition uuid128_to_display :: "uuid128 \<Rightarrow> string" where
  "uuid128_to_display u =
     (let h = uuid128_to_hex u in
      take 8 h @ ''-'' @ take 4 (drop 8 h) @ ''-'' @ take 4 (drop 12 h) @ ''-'' @
      take 4 (drop 16 h) @ ''-'' @ take 12 (drop 20 h))"

definition nibbles_byte :: "int \<Rightarrow> int \<Rightarrow> byte" where
  "nibbles_byte hi lo = word_of_int (push_bit 4 hi OR lo)"

definition uuid128_from_hex :: "string \<Rightarrow> uuid128" where
  "uuid128_from_hex s =
     (if \<not> is_valid_hex s then uuid_zero
      else let full = replicate (32 - length s) CHR ''0'' @ s in
        uuid_of_bytes (map (\<lambda>i. nibbles_byte (hex_nibble (full ! (2 * i)))
                                             (hex_nibble (full ! (2 * i + 1)))) [0..<16]))"

subsection \<open>Random generation\<close>

text \<open>
  The engine is a parameter: \<open>draw\<close> is one call of \<open>std::mt19937_64\<close> on its state.
  Bytes 6 and 8 are overwritten with the version and variant bits.
\<close>

fun draw_bytes :: "('g \<Rightarrow> u64 \<times> 'g) \<Rightarrow> nat \<Rightarrow> 'g \<Rightarrow> byte list \<times> 'g" where
  "draw_bytes draw 0 g = ([], g)"
| "draw_bytes draw (Suc n) g =
     (let (w, g1) = draw g; (bs, g2) = draw_bytes draw n g1 in (ucast (w AND 0xFF) # bs, g2))"

definition uuid128_generate :: "('g \<Rightarrow> u64 \<times> 'g) \<Rightarrow> 'g \<Rightarrow> uuid128 \<times> 'g" where
  "uuid128_generate draw g =
     (let (bs, g') = draw_bytes draw 16 g;
          bs1 = bs[6 := (bs ! 6 AND 0x0F) OR 0x40];
          bs2 = bs1[8 := (bs1 ! 8 AND 0x3F) OR 0x80]
      in (uuid_of_bytes bs2, g'))"

subsection \<open>Strongly typed identities\<close>

datatype 'tag Id = ID (raw: uuid128)

definition null_id :: "'tag Id" where
  "null_id = ID uuid_zero"

definition is_null :: "'tag Id \<Rightarrow> bool" where
  "is_null i = is_zero (raw i)"

definition Id_to_hex :: "'tag Id \<Rightarrow> string" where
  "Id_to_hex i = uuid128_to_hex (raw i)"

definition Id_to_display :: "'tag Id \<Rightarrow> string" where
  "Id_to_display i = uuid128_to_display (raw i)"

definition Id_from_hex :: "string \<Rightarrow> 'tag Id" where
  "Id_from_hex s = ID (uuid128_from_hex s)"

definition Id_generate :: "('g \<Rightarrow> u64 \<times> 'g) \<Rightarrow> 'g \<Rightarrow> 'tag Id \<times> 'g" where
  "Id_generate draw g = (let (u, g') = uuid128_generate draw g in (ID u, g'))"

text \<open>One empty tag struct and one alias per identity.\<close>

datatype FailureIdTag = FailureIdTag
datatype RequestIdTag = RequestIdTag
datatype WorkloadIdTag = WorkloadIdTag
datatype AttemptIdTag = AttemptIdTag
datatype DispatchIdTag = DispatchIdTag
datatype WorkerIdTag = WorkerIdTag
datatype WorkerBootIdTag = WorkerBootIdTag
datatype NodeIdTag = NodeIdTag
datatype DeviceIdTag = DeviceIdTag
datatype ReplicaIdTag = ReplicaIdTag
datatype ReservationIdTag = ReservationIdTag
datatype AllocationIdTag = AllocationIdTag
datatype TransferIdTag = TransferIdTag
datatype RecoveryIdTag = RecoveryIdTag
datatype RecoveryPlanIdTag = RecoveryPlanIdTag
datatype CompensationIdTag = CompensationIdTag
datatype OperationIdTag = OperationIdTag
datatype DependencyIdTag = DependencyIdTag

type_synonym FailureId = "FailureIdTag Id"
type_synonym RequestId = "RequestIdTag Id"
type_synonym WorkloadId = "WorkloadIdTag Id"
type_synonym AttemptId = "AttemptIdTag Id"
type_synonym DispatchId = "DispatchIdTag Id"
type_synonym WorkerId = "WorkerIdTag Id"
type_synonym WorkerBootId = "WorkerBootIdTag Id"
type_synonym NodeId = "NodeIdTag Id"
type_synonym DeviceId = "DeviceIdTag Id"
type_synonym ReplicaId = "ReplicaIdTag Id"
type_synonym ReservationId = "ReservationIdTag Id"
type_synonym AllocationId = "AllocationIdTag Id"
type_synonym TransferId = "TransferIdTag Id"
type_synonym RecoveryId = "RecoveryIdTag Id"
type_synonym RecoveryPlanId = "RecoveryPlanIdTag Id"
type_synonym CompensationId = "CompensationIdTag Id"
type_synonym OperationId = "OperationIdTag Id"
type_synonym DependencyId = "DependencyIdTag Id"

subsection \<open>Generations\<close>

datatype Generation = Generation (gen_value: u64)

definition is_initial :: "Generation \<Rightarrow> bool" where
  "is_initial g \<longleftrightarrow> gen_value g = 0"

definition gen_is_unset :: "Generation \<Rightarrow> bool" where
  "gen_is_unset g \<longleftrightarrow> gen_value g = 0"

definition gen_next :: "Generation \<Rightarrow> Generation" where
  "gen_next g = Generation (gen_value g + 1)"

definition gen_zero :: Generation where
  "gen_zero = Generation 0"

definition gen_less :: "Generation \<Rightarrow> Generation \<Rightarrow> bool" where
  "gen_less a b \<longleftrightarrow> gen_value a < gen_value b"

definition gen_less_eq :: "Generation \<Rightarrow> Generation \<Rightarrow> bool" where
  "gen_less_eq a b \<longleftrightarrow> gen_value a \<le> gen_value b"

instantiation Generation :: linorder
begin
definition less_Generation :: "Generation \<Rightarrow> Generation \<Rightarrow> bool" where
  "less_Generation = gen_less"
definition less_eq_Generation :: "Generation \<Rightarrow> Generation \<Rightarrow> bool" where
  "less_eq_Generation = gen_less_eq"
instance
  by standard (auto simp: less_Generation_def less_eq_Generation_def gen_less_def gen_less_eq_def Generation.expand)
end

lemmas gen_order_defs = less_Generation_def less_eq_Generation_def gen_less_def gen_less_eq_def

type_synonym CoordinatorEpoch = Generation
type_synonym AttemptGeneration = Generation
type_synonym OperationGeneration = Generation
type_synonym FailureGeneration = Generation
type_synonym RecoveryGeneration = Generation

subsection \<open>Facts about uuid128\<close>

lemma length_bytes [simp]: "length (bytes u) = 16"
  by (cases u) simp

lemma uuid_of_bytes_bytes [simp]: "uuid_of_bytes (bytes u) = u"
  by (cases u) (simp add: uuid_of_bytes_def byte_at_def)

lemma list16_cases:
  assumes "length xs = 16"
  obtains b0 b1 b2 b3 b4 b5 b6 b7 b8 b9 b10 b11 b12 b13 b14 b15 where
    "xs = [b0, b1, b2, b3, b4, b5, b6, b7, b8, b9, b10, b11, b12, b13, b14, b15]"
  using assms by (auto simp: length_Suc_conv numeral_eq_Suc)

lemma bytes_uuid_of_bytes: "length xs = 16 \<Longrightarrow> bytes (uuid_of_bytes xs) = xs"
  by (erule list16_cases) (simp add: uuid_of_bytes_def byte_at_def)

lemma bytes_inject [simp]: "bytes u = bytes v \<longleftrightarrow> u = v"
  by (metis uuid_of_bytes_bytes)

lemma is_zero_iff: "is_zero u \<longleftrightarrow> u = uuid_zero"
  by (cases u) (simp add: is_zero_def uuid_zero_def)

lemma is_null_iff: "is_null i \<longleftrightarrow> i = null_id"
  by (cases i) (simp add: is_null_def null_id_def is_zero_iff)

lemma bytes_less_irrefl: "\<not> bytes_less xs xs"
  by (induction xs) auto

lemma bytes_less_trans: "bytes_less xs ys \<Longrightarrow> bytes_less ys zs \<Longrightarrow> bytes_less xs zs"
proof (induction xs ys arbitrary: zs rule: bytes_less.induct)
  case (1 x xs y ys)
  then show ?case by (cases zs) (auto split: if_splits)
qed auto

lemma bytes_less_total:
  "length xs = length ys \<Longrightarrow> xs \<noteq> ys \<Longrightarrow> bytes_less xs ys \<or> bytes_less ys xs"
  by (induction xs ys rule: bytes_less.induct) (auto split: if_splits)

instantiation uuid128 :: linorder
begin
definition less_uuid128 :: "uuid128 \<Rightarrow> uuid128 \<Rightarrow> bool" where
  "less_uuid128 u v \<longleftrightarrow> uuid_less u v"
definition less_eq_uuid128 :: "uuid128 \<Rightarrow> uuid128 \<Rightarrow> bool" where
  "less_eq_uuid128 u v \<longleftrightarrow> u = v \<or> uuid_less u v"
instance
proof
  fix u v w :: uuid128
  show "u < v \<longleftrightarrow> u \<le> v \<and> \<not> v \<le> u"
    unfolding less_uuid128_def less_eq_uuid128_def uuid_less_def
    by (metis bytes_less_irrefl bytes_less_trans)
  show "u \<le> u" by (simp add: less_eq_uuid128_def)
  show "u \<le> v \<Longrightarrow> v \<le> w \<Longrightarrow> u \<le> w"
    unfolding less_eq_uuid128_def uuid_less_def by (metis bytes_less_trans)
  show "u \<le> v \<Longrightarrow> v \<le> u \<Longrightarrow> u = v"
    unfolding less_eq_uuid128_def uuid_less_def by (metis bytes_less_irrefl bytes_less_trans)
  show "u \<le> v \<or> v \<le> u"
    unfolding less_eq_uuid128_def uuid_less_def
    using bytes_less_total [of "bytes u" "bytes v"] by auto
qed
end

subsection \<open>Facts about the hexadecimal form\<close>

definition lower_hex :: "char \<Rightarrow> char" where
  "lower_hex c = (if CHR ''A'' \<le> c \<and> c \<le> CHR ''F'' then char_of (of_char c + 32 :: nat) else c)"

lemma hex_nibble_range: "is_hex_char c \<Longrightarrow> 0 \<le> hex_nibble c \<and> hex_nibble c < 16"
proof -
  have "\<forall>c. is_hex_char c \<longrightarrow> 0 \<le> hex_nibble c \<and> hex_nibble c < 16" by code_simp
  then show "is_hex_char c \<Longrightarrow> 0 \<le> hex_nibble c \<and> hex_nibble c < 16" by blast
qed

lemma hex_digit_of_nibble: "is_hex_char c \<Longrightarrow> hex_digits ! nat (hex_nibble c) = lower_hex c"
proof -
  have "\<forall>c. is_hex_char c \<longrightarrow> hex_digits ! nat (hex_nibble c) = lower_hex c" by code_simp
  then show "is_hex_char c \<Longrightarrow> hex_digits ! nat (hex_nibble c) = lower_hex c" by blast
qed

lemma lower_hex_digit: "n < 16 \<Longrightarrow> lower_hex (hex_digits ! n) = hex_digits ! n"
  by (simp add: numeral_eq_Suc less_Suc_eq, elim disjE) (simp_all add: hex_digits_def lower_hex_def)

lemma hex_char_digit: "n < 16 \<Longrightarrow> is_hex_char (hex_digits ! n)"
  by (simp add: numeral_eq_Suc less_Suc_eq, elim disjE) (simp_all add: hex_digits_def is_hex_char_def)

lemma hex_nibble_digit: "n < 16 \<Longrightarrow> hex_nibble (hex_digits ! n) = int n"
  by (simp add: numeral_eq_Suc less_Suc_eq, elim disjE) (simp_all add: hex_digits_def hex_nibble_def)

lemma nibbles_byte_parts:
  assumes "0 \<le> hi" "hi < 16" "0 \<le> lo" "lo < 16"
  shows "unat (drop_bit 4 (nibbles_byte hi lo)) = nat hi"
    and "unat (nibbles_byte hi lo AND 15) = nat lo"
proof -
  have all: "\<forall>h \<in> set [0..<16]. \<forall>l \<in> set [0..<16].
      unat (drop_bit 4 (nibbles_byte (int h) (int l))) = h \<and>
      unat (nibbles_byte (int h) (int l) AND 15) = l"
    by code_simp
  have "nat hi \<in> set [0..<16]" "nat lo \<in> set [0..<16]" using assms by auto
  then have "unat (drop_bit 4 (nibbles_byte (int (nat hi)) (int (nat lo)))) = nat hi \<and>
      unat (nibbles_byte (int (nat hi)) (int (nat lo)) AND 15) = nat lo"
    using all by blast
  then show "unat (drop_bit 4 (nibbles_byte hi lo)) = nat hi"
    and "unat (nibbles_byte hi lo AND 15) = nat lo" using assms by simp_all
qed

lemma nibble_bounds: "unat (drop_bit 4 (b :: byte)) < 16" "unat (b AND 15 :: byte) < 16"
proof -
  have "unat (drop_bit 4 b) = unat b div 16" by (simp only: unat_drop_bit_eq) (simp add: drop_bit_eq_div)
  moreover have "unat b < 256" using unsigned_less [of b, where ?'a = nat] by simp
  ultimately show "unat (drop_bit 4 b) < 16" by simp
  have "unat (b AND 15) \<le> unat (15 :: byte)"
    by (rule word_and_le1 [THEN word_le_nat_alt [THEN iffD1]])
  then show "unat (b AND 15) < 16" by simp
qed

lemma nibbles_byte_join:
  "nibbles_byte (int (unat (drop_bit 4 b))) (int (unat (b AND 15))) = b"
proof -
  have "\<forall>n \<in> set [0..<256]. let b = word_of_nat n :: byte in
      nibbles_byte (int (unat (drop_bit 4 b))) (int (unat (b AND 15))) = b"
    by code_simp
  moreover have "unat b \<in> set [0..<256]" using unsigned_less [of b, where ?'a = nat] by simp
  ultimately have "let b' = word_of_nat (unat b) :: byte in
      nibbles_byte (int (unat (drop_bit 4 b'))) (int (unat (b' AND 15))) = b'" by blast
  then show ?thesis by simp
qed

lemma hex_pair_nibbles:
  "is_hex_char a \<Longrightarrow> is_hex_char c \<Longrightarrow>
    hex_pair (nibbles_byte (hex_nibble a) (hex_nibble c)) = [lower_hex a, lower_hex c]"
  by (simp add: hex_pair_def nibbles_byte_parts hex_nibble_range hex_digit_of_nibble)

lemma concat_pairs:
  "length xs = 2 * n \<Longrightarrow> concat (map (\<lambda>i. [f (xs ! (2 * i)), f (xs ! (2 * i + 1))]) [0..<n]) = map f xs"
proof (induction n arbitrary: xs)
  case (Suc n)
  define ys where "ys = take (2 * n) xs"
  have len: "length ys = 2 * n" using Suc.prems by (simp add: ys_def)
  have xs: "xs = ys @ [xs ! (2 * n), xs ! (2 * n + 1)]"
    using Suc.prems unfolding ys_def
    by (metis (no_types, lifting) Suc_eq_plus1 add_2_eq_Suc' append.assoc append_Cons append_Nil
        lessI less_Suc_eq mult_Suc_right order_refl take_Suc_conv_app_nth take_all add.commute)
  have "map (\<lambda>i. [f (xs ! (2 * i)), f (xs ! (2 * i + 1))]) [0..<n] =
        map (\<lambda>i. [f (ys ! (2 * i)), f (ys ! (2 * i + 1))]) [0..<n]"
    by (rule map_cong) (auto simp: ys_def)
  then have "concat (map (\<lambda>i. [f (xs ! (2 * i)), f (xs ! (2 * i + 1))]) [0..<Suc n]) =
      map f ys @ [f (xs ! (2 * n)), f (xs ! (2 * n + 1))]"
    using Suc.IH [OF len] by (simp only: upt_Suc_append map_append concat_append) simp
  also have "\<dots> = map f xs" using xs by (metis list.simps(8,9) map_append)
  finally show ?case .
qed simp

lemma length_hex [simp]: "length (uuid128_to_hex u) = 32"
  by (cases u) (simp add: uuid128_to_hex_def hex_pair_def)

lemma hex_pair_digits: "list_all is_hex_char (hex_pair b)" "map lower_hex (hex_pair b) = hex_pair b"
  by (simp_all add: hex_pair_def hex_char_digit lower_hex_digit nibble_bounds)

lemma hex_valid: "is_valid_hex (uuid128_to_hex u)" "map lower_hex (uuid128_to_hex u) = uuid128_to_hex u"
proof -
  have "list_all is_hex_char (concat (map hex_pair bs)) \<and>
      map lower_hex (concat (map hex_pair bs)) = concat (map hex_pair bs)" for bs
    by (induction bs) (simp_all add: hex_pair_digits)
  moreover have "uuid128_to_hex u \<noteq> []" by (metis length_hex list.size(3) zero_neq_numeral)
  ultimately show "is_valid_hex (uuid128_to_hex u)"
      "map lower_hex (uuid128_to_hex u) = uuid128_to_hex u"
    by (simp_all add: is_valid_hex_def uuid128_to_hex_def [symmetric])
      (simp_all add: uuid128_to_hex_def)
qed

lemma bytes_from_hex:
  assumes "is_valid_hex s"
  defines "full \<equiv> replicate (32 - length s) CHR ''0'' @ s"
  shows "bytes (uuid128_from_hex s) =
    map (\<lambda>i. nibbles_byte (hex_nibble (full ! (2 * i))) (hex_nibble (full ! (2 * i + 1)))) [0..<16]"
  using assms by (simp add: uuid128_from_hex_def Let_def bytes_uuid_of_bytes)

lemma to_hex_from_hex:
  assumes "is_valid_hex s"
  shows "uuid128_to_hex (uuid128_from_hex s) = replicate (32 - length s) CHR ''0'' @ map lower_hex s"
proof -
  define full where "full = replicate (32 - length s) CHR ''0'' @ s"
  have len: "length full = 2 * 16" using assms by (simp add: full_def is_valid_hex_def)
  have hex: "is_hex_char (full ! i)" if "i < 32" for i
  proof -
    have "list_all is_hex_char full"
      using assms by (auto simp: full_def is_valid_hex_def list_all_iff is_hex_char_def)
    then show ?thesis using that len by (simp add: list_all_length)
  qed
  have "uuid128_to_hex (uuid128_from_hex s) =
      concat (map (\<lambda>i. [lower_hex (full ! (2 * i)), lower_hex (full ! (2 * i + 1))]) [0..<16])"
    unfolding uuid128_to_hex_def bytes_from_hex [OF assms] full_def [symmetric] map_map comp_def
    by (intro arg_cong [where f = concat] map_cong refl) (simp add: hex_pair_nibbles hex)
  also have "\<dots> = map lower_hex full" by (rule concat_pairs [OF len])
  also have "\<dots> = replicate (32 - length s) CHR ''0'' @ map lower_hex s"
    by (simp add: full_def lower_hex_def)
  finally show ?thesis .
qed

lemma to_hex_inject: "uuid128_to_hex u = uuid128_to_hex v \<Longrightarrow> u = v"
proof -
  have pair: "hex_pair b = hex_pair c \<Longrightarrow> b = c" for b c :: byte
  proof -
    assume "hex_pair b = hex_pair c"
    then have "hex_nibble (hex_digits ! unat (drop_bit 4 b)) = hex_nibble (hex_digits ! unat (drop_bit 4 c))"
      "hex_nibble (hex_digits ! unat (b AND 15)) = hex_nibble (hex_digits ! unat (c AND 15))"
      by (simp_all add: hex_pair_def)
    then show "b = c"
      using nibbles_byte_join [of b] nibbles_byte_join [of c]
      by (simp add: hex_nibble_digit nibble_bounds)
  qed
  have "concat (map hex_pair xs) = concat (map hex_pair ys) \<Longrightarrow> length xs = length ys \<Longrightarrow> xs = ys" for xs ys
  proof (induction xs ys rule: list_induct2')
    case (4 x xs y ys)
    then have "hex_pair x = hex_pair y" and "concat (map hex_pair xs) = concat (map hex_pair ys)"
      by (simp_all add: hex_pair_def)
    with 4 pair show ?case by simp
  qed auto
  then show "uuid128_to_hex u = uuid128_to_hex v \<Longrightarrow> u = v"
    unfolding uuid128_to_hex_def by (metis bytes_inject length_bytes)
qed

lemma from_hex_to_hex: "uuid128_from_hex (uuid128_to_hex u) = u"
proof (rule to_hex_inject)
  show "uuid128_to_hex (uuid128_from_hex (uuid128_to_hex u)) = uuid128_to_hex u"
    using to_hex_from_hex [OF hex_valid(1)] by (simp add: hex_valid(2))
qed

subsection \<open>Facts about generation\<close>

lemma length_draw_bytes: "length (fst (draw_bytes draw n g)) = n"
proof (induction n arbitrary: g)
  case (Suc n)
  from Suc.IH [of "snd (draw g)"] show ?case by (simp add: case_prod_beta Let_def)
qed simp

lemma generate_not_zero: "\<not> is_zero (fst (uuid128_generate draw g))"
proof -
  obtain bs g' where d: "draw_bytes draw 16 g = (bs, g')" by force
  then have len: "length bs = 16" using length_draw_bytes [of draw 16 g] by simp
  define bs1 where "bs1 = bs[6 := (bs ! 6 AND 0x0F) OR 0x40]"
  define bs2 where "bs2 = bs1[8 := (bs1 ! 8 AND 0x3F) OR 0x80]"
  have u: "fst (uuid128_generate draw g) = uuid_of_bytes bs2"
    by (simp add: uuid128_generate_def d bs1_def bs2_def Let_def)
  have "bytes (uuid_of_bytes bs2) ! 6 = (bs ! 6 AND 0x0F) OR 0x40"
    using len by (simp add: bytes_uuid_of_bytes bs2_def bs1_def)
  moreover have "(bs ! 6 AND 0x0F) OR 0x40 \<noteq> 0" by (simp add: or_eq_0_iff)
  ultimately have "\<exists>i < 16. bytes (uuid_of_bytes bs2) ! i \<noteq> 0"
    by (intro exI [of _ 6]) simp
  then show ?thesis by (simp add: u is_zero_def list_all_length)
qed

lemma Id_generate_not_null: "\<not> is_null (fst (Id_generate draw g))"
  using generate_not_zero [of draw g]
  by (auto simp: Id_generate_def is_null_def split: prod.split)

subsection \<open>Facts about generations\<close>

lemma gen_is_unset_iff: "gen_is_unset g \<longleftrightarrow> g = gen_zero"
  by (cases g) (simp add: gen_is_unset_def gen_zero_def)

lemma gen_less_next: "gen_value g \<noteq> - 1 \<Longrightarrow> g < gen_next g"
  unfolding gen_order_defs gen_next_def by (auto intro: inc_less_eq_triv_imp simp: not_less [symmetric])

lemma gen_next_wraps: "gen_value g = - 1 \<Longrightarrow> gen_next g = gen_zero"
  by (simp add: gen_next_def gen_zero_def)

subsection \<open>Properties\<close>

text \<open>
  The hexadecimal form is a faithful name: every identity is read back from the 32 digits it
  prints as, and every valid digit string of at most 32 digits is read as the identity that prints
  as the same digits, in lower case and padded with zeros on the left.
\<close>

lemma hex_roundtrip:
  "uuid128_from_hex (uuid128_to_hex u) = u \<and> length (uuid128_to_hex u) = 32 \<and>
   (if is_valid_hex s
    then uuid128_to_hex (uuid128_from_hex s) = replicate (32 - length s) CHR ''0'' @ map lower_hex s
    else uuid128_from_hex s = uuid_zero)"
proof -
  have "\<not> is_valid_hex s \<Longrightarrow> uuid128_from_hex s = uuid_zero" by (simp add: uuid128_from_hex_def)
  then show ?thesis by (simp add: from_hex_to_hex to_hex_from_hex)
qed

end
