(* ===== verification/FF_Enum.thy ===== *)
theory FF_Enum
  imports FF_Prelude
begin

text \<open>
  The classification enumerations (\<open>include/failure_fabric/enum.hpp\<close>, \<open>src/enum.cpp\<close>): one
  datatype per \<open>enum class\<close>, its enumerators in declaration order (the \<open>uint32_t\<close> a cast
  yields is the position), the string conversions, and the flag set of operation semantics.
  Constructors are written qualified, as \<open>FailureClass.UNKNOWN\<close> for \<open>FailureClass::UNKNOWN\<close>.
\<close>

subsection \<open>Enumerations with an underlying integer\<close>

text \<open>\<open>static_cast<uint32_t>\<close> of an enumerator, and the enumerator at a position.\<close>

definition enum_index :: "'e list \<Rightarrow> 'e \<Rightarrow> nat" where
  "enum_index vals x = length (takeWhile (\<lambda>y. y \<noteq> x) vals)"

definition enum_u32 :: "'e list \<Rightarrow> 'e \<Rightarrow> u32" where
  "enum_u32 vals x = word_of_nat (enum_index vals x)"

definition enum_at :: "'e list \<Rightarrow> u32 \<Rightarrow> 'e" where
  "enum_at vals n = vals ! unat n"

locale enumeration =
  fixes vals :: "'e list"
  assumes distinct_vals: "distinct vals"
    and complete_vals: "x \<in> set vals"
    and small_vals: "length vals < 2 ^ 32"
begin

lemma index_less: "enum_index vals x < length vals"
proof -
  have "length (takeWhile (\<lambda>y. y \<noteq> x) vals) < length vals"
    using complete_vals [of x] by (metis (full_types) length_takeWhile_le linorder_neqE_nat
        not_less takeWhile_eq_all_conv takeWhile_eq_take take_all_iff)
  then show ?thesis by (simp add: enum_index_def)
qed

lemma nth_index: "vals ! enum_index vals x = x"
  using nth_length_takeWhile [of "\<lambda>y. y \<noteq> x" vals] index_less [of x]
  by (simp add: enum_index_def)

lemma unat_u32: "unat (enum_u32 vals x) = enum_index vals x"
  using index_less [of x] small_vals by (simp add: enum_u32_def unsigned_of_nat take_bit_nat_eq_self)

lemma at_u32 [simp]: "enum_at vals (enum_u32 vals x) = x"
  by (simp add: enum_at_def unat_u32 nth_index)

lemma u32_less: "unat (enum_u32 vals x) < length vals"
  by (simp add: unat_u32 index_less)

lemma u32_at: "unat n < length vals \<Longrightarrow> enum_u32 vals (enum_at vals n) = n"
proof -
  assume n: "unat n < length vals"
  have "enum_index vals (vals ! unat n) = unat n"
    by (metis distinct_vals index_less n nth_eq_iff_index_eq nth_index)
  then show ?thesis by (simp add: enum_u32_def enum_at_def)
qed

lemma u32_inject: "enum_u32 vals x = enum_u32 vals y \<longleftrightarrow> x = y"
  by (metis at_u32)

end

subsection \<open>The enumerations\<close>

datatype FailureClass =
    TRANSIENT | PERMANENT | RETRYABLE | NON_RETRYABLE | AMBIGUOUS | PARTIAL_SUCCESS |
    STALE_AUTHORITY | LOST_WORKER | LOST_DEVICE | TRANSPORT_FAILURE | TIMEOUT_OBSERVED |
    PROTOCOL_FAILURE | RESOURCE_EXHAUSTION | CORRUPTION | VALIDATION_FAILURE |
    INCOMPATIBILITY | CANCELLED | PREEMPTED | DEPENDENCY_FAILURE | STORAGE_FAILURE |
    EXECUTION_FAILURE | RECOVERY_FAILURE | UNKNOWN

definition FailureClass_vals :: "FailureClass list" where
  "FailureClass_vals =
    [FailureClass.TRANSIENT, FailureClass.PERMANENT, FailureClass.RETRYABLE,
     FailureClass.NON_RETRYABLE, FailureClass.AMBIGUOUS, FailureClass.PARTIAL_SUCCESS,
     FailureClass.STALE_AUTHORITY, FailureClass.LOST_WORKER, FailureClass.LOST_DEVICE,
     FailureClass.TRANSPORT_FAILURE, FailureClass.TIMEOUT_OBSERVED,
     FailureClass.PROTOCOL_FAILURE, FailureClass.RESOURCE_EXHAUSTION, FailureClass.CORRUPTION,
     FailureClass.VALIDATION_FAILURE, FailureClass.INCOMPATIBILITY, FailureClass.CANCELLED,
     FailureClass.PREEMPTED, FailureClass.DEPENDENCY_FAILURE, FailureClass.STORAGE_FAILURE,
     FailureClass.EXECUTION_FAILURE, FailureClass.RECOVERY_FAILURE, FailureClass.UNKNOWN]"

datatype FailureOrigin =
    COORDINATOR | WORKER | STORAGE | TRANSPORT | DEVICE | PROTOCOL | RESOURCE | VALIDATION |
    SCHEDULER | EXTERNAL | UNKNOWN

definition FailureOrigin_vals :: "FailureOrigin list" where
  "FailureOrigin_vals =
    [FailureOrigin.COORDINATOR, FailureOrigin.WORKER, FailureOrigin.STORAGE,
     FailureOrigin.TRANSPORT, FailureOrigin.DEVICE, FailureOrigin.PROTOCOL,
     FailureOrigin.RESOURCE, FailureOrigin.VALIDATION, FailureOrigin.SCHEDULER,
     FailureOrigin.EXTERNAL, FailureOrigin.UNKNOWN]"

datatype Severity =
    INFO | WARNING | ERROR | CRITICAL

definition Severity_vals :: "Severity list" where
  "Severity_vals =
    [Severity.INFO, Severity.WARNING, Severity.ERROR, Severity.CRITICAL]"

datatype Retryability =
    RETRYABLE | NON_RETRYABLE | CONDITIONALLY_RETRYABLE | UNKNOWN

definition Retryability_vals :: "Retryability list" where
  "Retryability_vals =
    [Retryability.RETRYABLE, Retryability.NON_RETRYABLE, Retryability.CONDITIONALLY_RETRYABLE,
     Retryability.UNKNOWN]"

datatype Ambiguity =
    KNOWN | PARTIAL | AMBIGUOUS | UNKNOWN_OUTCOME

definition Ambiguity_vals :: "Ambiguity list" where
  "Ambiguity_vals =
    [Ambiguity.KNOWN, Ambiguity.PARTIAL, Ambiguity.AMBIGUOUS, Ambiguity.UNKNOWN_OUTCOME]"

datatype SideEffectState =
    NONE_POSSIBLE | KNOWN_NOT_OCCURRED | MAY_OCCURRED | KNOWN_OCCURRED | UNKNOWN

definition SideEffectState_vals :: "SideEffectState list" where
  "SideEffectState_vals =
    [SideEffectState.NONE_POSSIBLE, SideEffectState.KNOWN_NOT_OCCURRED,
     SideEffectState.MAY_OCCURRED, SideEffectState.KNOWN_OCCURRED, SideEffectState.UNKNOWN]"

datatype AuthorityStatus =
    AUTHORITATIVE | STALE | FENCED | SUPERSEDED | UNKNOWN

definition AuthorityStatus_vals :: "AuthorityStatus list" where
  "AuthorityStatus_vals =
    [AuthorityStatus.AUTHORITATIVE, AuthorityStatus.STALE, AuthorityStatus.FENCED,
     AuthorityStatus.SUPERSEDED, AuthorityStatus.UNKNOWN]"

datatype RollbackRequirement =
    NONE | OPTIONAL | REQUIRED | UNAVAILABLE

definition RollbackRequirement_vals :: "RollbackRequirement list" where
  "RollbackRequirement_vals =
    [RollbackRequirement.NONE, RollbackRequirement.OPTIONAL, RollbackRequirement.REQUIRED,
     RollbackRequirement.UNAVAILABLE]"

datatype CompensationRequirement =
    NONE | OPTIONAL | REQUIRED

definition CompensationRequirement_vals :: "CompensationRequirement list" where
  "CompensationRequirement_vals =
    [CompensationRequirement.NONE, CompensationRequirement.OPTIONAL,
     CompensationRequirement.REQUIRED]"

datatype RecoveryOwner =
    COORDINATOR | ORIGINAL_WORKER | REPLACEMENT_WORKER | REPLICA_MANAGER | STORAGE_SUBSYSTEM |
    TRANSFER_SUBSYSTEM | OPERATOR | EXTERNAL_SYSTEM | NONE

definition RecoveryOwner_vals :: "RecoveryOwner list" where
  "RecoveryOwner_vals =
    [RecoveryOwner.COORDINATOR, RecoveryOwner.ORIGINAL_WORKER,
     RecoveryOwner.REPLACEMENT_WORKER, RecoveryOwner.REPLICA_MANAGER,
     RecoveryOwner.STORAGE_SUBSYSTEM, RecoveryOwner.TRANSFER_SUBSYSTEM, RecoveryOwner.OPERATOR,
     RecoveryOwner.EXTERNAL_SYSTEM, RecoveryOwner.NONE]"

datatype Terminality =
    TERMINAL | TRANSIENT | PENDING | UNKNOWN

definition Terminality_vals :: "Terminality list" where
  "Terminality_vals =
    [Terminality.TERMINAL, Terminality.TRANSIENT, Terminality.PENDING, Terminality.UNKNOWN]"

datatype Provenance =
    FAILURE_FABRIC | WORKER_REPORT | COORDINATOR_INFERENCE | OPERATOR | EXTERNAL_SYSTEM |
    SYSTEM_HEURISTIC | UNKNOWN

definition Provenance_vals :: "Provenance list" where
  "Provenance_vals =
    [Provenance.FAILURE_FABRIC, Provenance.WORKER_REPORT, Provenance.COORDINATOR_INFERENCE,
     Provenance.OPERATOR, Provenance.EXTERNAL_SYSTEM, Provenance.SYSTEM_HEURISTIC,
     Provenance.UNKNOWN]"

datatype FailurePhase =
    SUBMIT | DISPATCH | EXECUTE | TRANSFER | STORE | COMMIT | ACK | RECOVERY | POST_RECOVERY |
    UNKNOWN

definition FailurePhase_vals :: "FailurePhase list" where
  "FailurePhase_vals =
    [FailurePhase.SUBMIT, FailurePhase.DISPATCH, FailurePhase.EXECUTE, FailurePhase.TRANSFER,
     FailurePhase.STORE, FailurePhase.COMMIT, FailurePhase.ACK, FailurePhase.RECOVERY,
     FailurePhase.POST_RECOVERY, FailurePhase.UNKNOWN]"

text \<open>
  A OperationState read back from a snapshot is cast without a range check, and the underlying
  type of the enumeration is fixed, so the object may hold a value with no enumerator:
  \<open>UNNAMED\<close> stands for those, 20 and above.
\<close>

datatype OperationState =
    CREATED | DISPATCHED | RUNNING | COMPLETION_REPORTED | COMPLETION_CONFIRMED |
    FAILED_KNOWN | FAILED_AMBIGUOUS | PARTIALLY_SUCCEEDED | RETRY_PENDING | RETRYING |
    ROLLBACK_PENDING | ROLLING_BACK | COMPENSATION_PENDING | COMPENSATING | RECOVERY_PENDING |
    RECOVERING | RECOVERED | TERMINAL_FAILED | CANCELLED | ABANDONED | UNNAMED u32

definition OperationState_vals :: "OperationState list" where
  "OperationState_vals =
    [OperationState.CREATED, OperationState.DISPATCHED, OperationState.RUNNING,
     OperationState.COMPLETION_REPORTED, OperationState.COMPLETION_CONFIRMED,
     OperationState.FAILED_KNOWN, OperationState.FAILED_AMBIGUOUS,
     OperationState.PARTIALLY_SUCCEEDED, OperationState.RETRY_PENDING, OperationState.RETRYING,
     OperationState.ROLLBACK_PENDING, OperationState.ROLLING_BACK,
     OperationState.COMPENSATION_PENDING, OperationState.COMPENSATING,
     OperationState.RECOVERY_PENDING, OperationState.RECOVERING, OperationState.RECOVERED,
     OperationState.TERMINAL_FAILED, OperationState.CANCELLED, OperationState.ABANDONED]"

datatype RecoveryAction =
    RETRY | RETRY_ELSEWHERE | RESTART_WORKER | RESTART_DEVICE_CONTEXT | RELOAD_STATE |
    REHYDRATE_STATE | FAILOVER_REPLICA | ROLLBACK | COMPENSATE | INVALIDATE | RECOMPUTE |
    ABANDON | ESCALATE | MANUAL_RESOLUTION

definition RecoveryAction_vals :: "RecoveryAction list" where
  "RecoveryAction_vals =
    [RecoveryAction.RETRY, RecoveryAction.RETRY_ELSEWHERE, RecoveryAction.RESTART_WORKER,
     RecoveryAction.RESTART_DEVICE_CONTEXT, RecoveryAction.RELOAD_STATE,
     RecoveryAction.REHYDRATE_STATE, RecoveryAction.FAILOVER_REPLICA, RecoveryAction.ROLLBACK,
     RecoveryAction.COMPENSATE, RecoveryAction.INVALIDATE, RecoveryAction.RECOMPUTE,
     RecoveryAction.ABANDON, RecoveryAction.ESCALATE, RecoveryAction.MANUAL_RESOLUTION]"

datatype RollbackAction =
    RELEASE_RESERVATION | FREE_ALLOCATION | INVALIDATE_GENERATION | REVERT_METADATA |
    REMOVE_PARTIAL_STATE | RESTORE_SNAPSHOT | CANCEL_DEPENDENT | RELEASE_SERVING_AUTHORITY |
    MARK_ARTIFACT_INVALID | UNWIND_TRANSACTION

definition RollbackAction_vals :: "RollbackAction list" where
  "RollbackAction_vals =
    [RollbackAction.RELEASE_RESERVATION, RollbackAction.FREE_ALLOCATION,
     RollbackAction.INVALIDATE_GENERATION, RollbackAction.REVERT_METADATA,
     RollbackAction.REMOVE_PARTIAL_STATE, RollbackAction.RESTORE_SNAPSHOT,
     RollbackAction.CANCEL_DEPENDENT, RollbackAction.RELEASE_SERVING_AUTHORITY,
     RollbackAction.MARK_ARTIFACT_INVALID, RollbackAction.UNWIND_TRANSACTION]"

datatype ProtocolMessage =
    REGISTER | REGISTER_ACK | DISPATCH | RUNNING | COMPLETE | FAILURE | ACK | RETRY |
    ROLLBACK | COMPENSATE | RECOVERY_ASSIGN | RECOVERY_COMPLETE | CANCEL | FENCE | HEARTBEAT |
    SHUTDOWN

definition ProtocolMessage_vals :: "ProtocolMessage list" where
  "ProtocolMessage_vals =
    [ProtocolMessage.REGISTER, ProtocolMessage.REGISTER_ACK, ProtocolMessage.DISPATCH,
     ProtocolMessage.RUNNING, ProtocolMessage.COMPLETE, ProtocolMessage.FAILURE,
     ProtocolMessage.ACK, ProtocolMessage.RETRY, ProtocolMessage.ROLLBACK,
     ProtocolMessage.COMPENSATE, ProtocolMessage.RECOVERY_ASSIGN,
     ProtocolMessage.RECOVERY_COMPLETE, ProtocolMessage.CANCEL, ProtocolMessage.FENCE,
     ProtocolMessage.HEARTBEAT, ProtocolMessage.SHUTDOWN]"

subsection \<open>String conversion\<close>

fun FailureClass_to_string :: "FailureClass \<Rightarrow> string" where
  "FailureClass_to_string FailureClass.TRANSIENT = ''TRANSIENT''"
| "FailureClass_to_string FailureClass.PERMANENT = ''PERMANENT''"
| "FailureClass_to_string FailureClass.RETRYABLE = ''RETRYABLE''"
| "FailureClass_to_string FailureClass.NON_RETRYABLE = ''NON_RETRYABLE''"
| "FailureClass_to_string FailureClass.AMBIGUOUS = ''AMBIGUOUS''"
| "FailureClass_to_string FailureClass.PARTIAL_SUCCESS = ''PARTIAL_SUCCESS''"
| "FailureClass_to_string FailureClass.STALE_AUTHORITY = ''STALE_AUTHORITY''"
| "FailureClass_to_string FailureClass.LOST_WORKER = ''LOST_WORKER''"
| "FailureClass_to_string FailureClass.LOST_DEVICE = ''LOST_DEVICE''"
| "FailureClass_to_string FailureClass.TRANSPORT_FAILURE = ''TRANSPORT_FAILURE''"
| "FailureClass_to_string FailureClass.TIMEOUT_OBSERVED = ''TIMEOUT_OBSERVED''"
| "FailureClass_to_string FailureClass.PROTOCOL_FAILURE = ''PROTOCOL_FAILURE''"
| "FailureClass_to_string FailureClass.RESOURCE_EXHAUSTION = ''RESOURCE_EXHAUSTION''"
| "FailureClass_to_string FailureClass.CORRUPTION = ''CORRUPTION''"
| "FailureClass_to_string FailureClass.VALIDATION_FAILURE = ''VALIDATION_FAILURE''"
| "FailureClass_to_string FailureClass.INCOMPATIBILITY = ''INCOMPATIBILITY''"
| "FailureClass_to_string FailureClass.CANCELLED = ''CANCELLED''"
| "FailureClass_to_string FailureClass.PREEMPTED = ''PREEMPTED''"
| "FailureClass_to_string FailureClass.DEPENDENCY_FAILURE = ''DEPENDENCY_FAILURE''"
| "FailureClass_to_string FailureClass.STORAGE_FAILURE = ''STORAGE_FAILURE''"
| "FailureClass_to_string FailureClass.EXECUTION_FAILURE = ''EXECUTION_FAILURE''"
| "FailureClass_to_string FailureClass.RECOVERY_FAILURE = ''RECOVERY_FAILURE''"
| "FailureClass_to_string FailureClass.UNKNOWN = ''UNKNOWN''"

fun FailureOrigin_to_string :: "FailureOrigin \<Rightarrow> string" where
  "FailureOrigin_to_string FailureOrigin.COORDINATOR = ''COORDINATOR''"
| "FailureOrigin_to_string FailureOrigin.WORKER = ''WORKER''"
| "FailureOrigin_to_string FailureOrigin.STORAGE = ''STORAGE''"
| "FailureOrigin_to_string FailureOrigin.TRANSPORT = ''TRANSPORT''"
| "FailureOrigin_to_string FailureOrigin.DEVICE = ''DEVICE''"
| "FailureOrigin_to_string FailureOrigin.PROTOCOL = ''PROTOCOL''"
| "FailureOrigin_to_string FailureOrigin.RESOURCE = ''RESOURCE''"
| "FailureOrigin_to_string FailureOrigin.VALIDATION = ''VALIDATION''"
| "FailureOrigin_to_string FailureOrigin.SCHEDULER = ''SCHEDULER''"
| "FailureOrigin_to_string FailureOrigin.EXTERNAL = ''EXTERNAL''"
| "FailureOrigin_to_string FailureOrigin.UNKNOWN = ''UNKNOWN''"

fun Severity_to_string :: "Severity \<Rightarrow> string" where
  "Severity_to_string Severity.INFO = ''INFO''"
| "Severity_to_string Severity.WARNING = ''WARNING''"
| "Severity_to_string Severity.ERROR = ''ERROR''"
| "Severity_to_string Severity.CRITICAL = ''CRITICAL''"

fun Retryability_to_string :: "Retryability \<Rightarrow> string" where
  "Retryability_to_string Retryability.RETRYABLE = ''RETRYABLE''"
| "Retryability_to_string Retryability.NON_RETRYABLE = ''NON_RETRYABLE''"
| "Retryability_to_string Retryability.CONDITIONALLY_RETRYABLE = ''CONDITIONALLY_RETRYABLE''"
| "Retryability_to_string Retryability.UNKNOWN = ''UNKNOWN''"

fun Ambiguity_to_string :: "Ambiguity \<Rightarrow> string" where
  "Ambiguity_to_string Ambiguity.KNOWN = ''KNOWN''"
| "Ambiguity_to_string Ambiguity.PARTIAL = ''PARTIAL''"
| "Ambiguity_to_string Ambiguity.AMBIGUOUS = ''AMBIGUOUS''"
| "Ambiguity_to_string Ambiguity.UNKNOWN_OUTCOME = ''UNKNOWN_OUTCOME''"

fun SideEffectState_to_string :: "SideEffectState \<Rightarrow> string" where
  "SideEffectState_to_string SideEffectState.NONE_POSSIBLE = ''NONE_POSSIBLE''"
| "SideEffectState_to_string SideEffectState.KNOWN_NOT_OCCURRED = ''KNOWN_NOT_OCCURRED''"
| "SideEffectState_to_string SideEffectState.MAY_OCCURRED = ''MAY_OCCURRED''"
| "SideEffectState_to_string SideEffectState.KNOWN_OCCURRED = ''KNOWN_OCCURRED''"
| "SideEffectState_to_string SideEffectState.UNKNOWN = ''UNKNOWN''"

fun AuthorityStatus_to_string :: "AuthorityStatus \<Rightarrow> string" where
  "AuthorityStatus_to_string AuthorityStatus.AUTHORITATIVE = ''AUTHORITATIVE''"
| "AuthorityStatus_to_string AuthorityStatus.STALE = ''STALE''"
| "AuthorityStatus_to_string AuthorityStatus.FENCED = ''FENCED''"
| "AuthorityStatus_to_string AuthorityStatus.SUPERSEDED = ''SUPERSEDED''"
| "AuthorityStatus_to_string AuthorityStatus.UNKNOWN = ''UNKNOWN''"

fun RollbackRequirement_to_string :: "RollbackRequirement \<Rightarrow> string" where
  "RollbackRequirement_to_string RollbackRequirement.NONE = ''NONE''"
| "RollbackRequirement_to_string RollbackRequirement.OPTIONAL = ''OPTIONAL''"
| "RollbackRequirement_to_string RollbackRequirement.REQUIRED = ''REQUIRED''"
| "RollbackRequirement_to_string RollbackRequirement.UNAVAILABLE = ''UNAVAILABLE''"

fun CompensationRequirement_to_string :: "CompensationRequirement \<Rightarrow> string" where
  "CompensationRequirement_to_string CompensationRequirement.NONE = ''NONE''"
| "CompensationRequirement_to_string CompensationRequirement.OPTIONAL = ''OPTIONAL''"
| "CompensationRequirement_to_string CompensationRequirement.REQUIRED = ''REQUIRED''"

fun RecoveryOwner_to_string :: "RecoveryOwner \<Rightarrow> string" where
  "RecoveryOwner_to_string RecoveryOwner.COORDINATOR = ''COORDINATOR''"
| "RecoveryOwner_to_string RecoveryOwner.ORIGINAL_WORKER = ''ORIGINAL_WORKER''"
| "RecoveryOwner_to_string RecoveryOwner.REPLACEMENT_WORKER = ''REPLACEMENT_WORKER''"
| "RecoveryOwner_to_string RecoveryOwner.REPLICA_MANAGER = ''REPLICA_MANAGER''"
| "RecoveryOwner_to_string RecoveryOwner.STORAGE_SUBSYSTEM = ''STORAGE_SUBSYSTEM''"
| "RecoveryOwner_to_string RecoveryOwner.TRANSFER_SUBSYSTEM = ''TRANSFER_SUBSYSTEM''"
| "RecoveryOwner_to_string RecoveryOwner.OPERATOR = ''OPERATOR''"
| "RecoveryOwner_to_string RecoveryOwner.EXTERNAL_SYSTEM = ''EXTERNAL_SYSTEM''"
| "RecoveryOwner_to_string RecoveryOwner.NONE = ''NONE''"

fun Terminality_to_string :: "Terminality \<Rightarrow> string" where
  "Terminality_to_string Terminality.TERMINAL = ''TERMINAL''"
| "Terminality_to_string Terminality.TRANSIENT = ''TRANSIENT''"
| "Terminality_to_string Terminality.PENDING = ''PENDING''"
| "Terminality_to_string Terminality.UNKNOWN = ''UNKNOWN''"

fun Provenance_to_string :: "Provenance \<Rightarrow> string" where
  "Provenance_to_string Provenance.FAILURE_FABRIC = ''FAILURE_FABRIC''"
| "Provenance_to_string Provenance.WORKER_REPORT = ''WORKER_REPORT''"
| "Provenance_to_string Provenance.COORDINATOR_INFERENCE = ''COORDINATOR_INFERENCE''"
| "Provenance_to_string Provenance.OPERATOR = ''OPERATOR''"
| "Provenance_to_string Provenance.EXTERNAL_SYSTEM = ''EXTERNAL_SYSTEM''"
| "Provenance_to_string Provenance.SYSTEM_HEURISTIC = ''SYSTEM_HEURISTIC''"
| "Provenance_to_string Provenance.UNKNOWN = ''UNKNOWN''"

fun FailurePhase_to_string :: "FailurePhase \<Rightarrow> string" where
  "FailurePhase_to_string FailurePhase.SUBMIT = ''SUBMIT''"
| "FailurePhase_to_string FailurePhase.DISPATCH = ''DISPATCH''"
| "FailurePhase_to_string FailurePhase.EXECUTE = ''EXECUTE''"
| "FailurePhase_to_string FailurePhase.TRANSFER = ''TRANSFER''"
| "FailurePhase_to_string FailurePhase.STORE = ''STORE''"
| "FailurePhase_to_string FailurePhase.COMMIT = ''COMMIT''"
| "FailurePhase_to_string FailurePhase.ACK = ''ACK''"
| "FailurePhase_to_string FailurePhase.RECOVERY = ''RECOVERY''"
| "FailurePhase_to_string FailurePhase.POST_RECOVERY = ''POST_RECOVERY''"
| "FailurePhase_to_string FailurePhase.UNKNOWN = ''UNKNOWN''"

fun OperationState_to_string :: "OperationState \<Rightarrow> string" where
  "OperationState_to_string OperationState.CREATED = ''CREATED''"
| "OperationState_to_string OperationState.DISPATCHED = ''DISPATCHED''"
| "OperationState_to_string OperationState.RUNNING = ''RUNNING''"
| "OperationState_to_string OperationState.COMPLETION_REPORTED = ''COMPLETION_REPORTED''"
| "OperationState_to_string OperationState.COMPLETION_CONFIRMED = ''COMPLETION_CONFIRMED''"
| "OperationState_to_string OperationState.FAILED_KNOWN = ''FAILED_KNOWN''"
| "OperationState_to_string OperationState.FAILED_AMBIGUOUS = ''FAILED_AMBIGUOUS''"
| "OperationState_to_string OperationState.PARTIALLY_SUCCEEDED = ''PARTIALLY_SUCCEEDED''"
| "OperationState_to_string OperationState.RETRY_PENDING = ''RETRY_PENDING''"
| "OperationState_to_string OperationState.RETRYING = ''RETRYING''"
| "OperationState_to_string OperationState.ROLLBACK_PENDING = ''ROLLBACK_PENDING''"
| "OperationState_to_string OperationState.ROLLING_BACK = ''ROLLING_BACK''"
| "OperationState_to_string OperationState.COMPENSATION_PENDING = ''COMPENSATION_PENDING''"
| "OperationState_to_string OperationState.COMPENSATING = ''COMPENSATING''"
| "OperationState_to_string OperationState.RECOVERY_PENDING = ''RECOVERY_PENDING''"
| "OperationState_to_string OperationState.RECOVERING = ''RECOVERING''"
| "OperationState_to_string OperationState.RECOVERED = ''RECOVERED''"
| "OperationState_to_string OperationState.TERMINAL_FAILED = ''TERMINAL_FAILED''"
| "OperationState_to_string OperationState.CANCELLED = ''CANCELLED''"
| "OperationState_to_string OperationState.ABANDONED = ''ABANDONED''"
| "OperationState_to_string (OperationState.UNNAMED n) = ''UNKNOWN''"

fun RecoveryAction_to_string :: "RecoveryAction \<Rightarrow> string" where
  "RecoveryAction_to_string RecoveryAction.RETRY = ''RETRY''"
| "RecoveryAction_to_string RecoveryAction.RETRY_ELSEWHERE = ''RETRY_ELSEWHERE''"
| "RecoveryAction_to_string RecoveryAction.RESTART_WORKER = ''RESTART_WORKER''"
| "RecoveryAction_to_string RecoveryAction.RESTART_DEVICE_CONTEXT = ''RESTART_DEVICE_CONTEXT''"
| "RecoveryAction_to_string RecoveryAction.RELOAD_STATE = ''RELOAD_STATE''"
| "RecoveryAction_to_string RecoveryAction.REHYDRATE_STATE = ''REHYDRATE_STATE''"
| "RecoveryAction_to_string RecoveryAction.FAILOVER_REPLICA = ''FAILOVER_REPLICA''"
| "RecoveryAction_to_string RecoveryAction.ROLLBACK = ''ROLLBACK''"
| "RecoveryAction_to_string RecoveryAction.COMPENSATE = ''COMPENSATE''"
| "RecoveryAction_to_string RecoveryAction.INVALIDATE = ''INVALIDATE''"
| "RecoveryAction_to_string RecoveryAction.RECOMPUTE = ''RECOMPUTE''"
| "RecoveryAction_to_string RecoveryAction.ABANDON = ''ABANDON''"
| "RecoveryAction_to_string RecoveryAction.ESCALATE = ''ESCALATE''"
| "RecoveryAction_to_string RecoveryAction.MANUAL_RESOLUTION = ''MANUAL_RESOLUTION''"

fun RollbackAction_to_string :: "RollbackAction \<Rightarrow> string" where
  "RollbackAction_to_string RollbackAction.RELEASE_RESERVATION = ''RELEASE_RESERVATION''"
| "RollbackAction_to_string RollbackAction.FREE_ALLOCATION = ''FREE_ALLOCATION''"
| "RollbackAction_to_string RollbackAction.INVALIDATE_GENERATION = ''INVALIDATE_GENERATION''"
| "RollbackAction_to_string RollbackAction.REVERT_METADATA = ''REVERT_METADATA''"
| "RollbackAction_to_string RollbackAction.REMOVE_PARTIAL_STATE = ''REMOVE_PARTIAL_STATE''"
| "RollbackAction_to_string RollbackAction.RESTORE_SNAPSHOT = ''RESTORE_SNAPSHOT''"
| "RollbackAction_to_string RollbackAction.CANCEL_DEPENDENT = ''CANCEL_DEPENDENT''"
| "RollbackAction_to_string RollbackAction.RELEASE_SERVING_AUTHORITY = ''RELEASE_SERVING_AUTHORITY''"
| "RollbackAction_to_string RollbackAction.MARK_ARTIFACT_INVALID = ''MARK_ARTIFACT_INVALID''"
| "RollbackAction_to_string RollbackAction.UNWIND_TRANSACTION = ''UNWIND_TRANSACTION''"

fun ProtocolMessage_to_string :: "ProtocolMessage \<Rightarrow> string" where
  "ProtocolMessage_to_string ProtocolMessage.REGISTER = ''REGISTER''"
| "ProtocolMessage_to_string ProtocolMessage.REGISTER_ACK = ''REGISTER_ACK''"
| "ProtocolMessage_to_string ProtocolMessage.DISPATCH = ''DISPATCH''"
| "ProtocolMessage_to_string ProtocolMessage.RUNNING = ''RUNNING''"
| "ProtocolMessage_to_string ProtocolMessage.COMPLETE = ''COMPLETE''"
| "ProtocolMessage_to_string ProtocolMessage.FAILURE = ''FAILURE''"
| "ProtocolMessage_to_string ProtocolMessage.ACK = ''ACK''"
| "ProtocolMessage_to_string ProtocolMessage.RETRY = ''RETRY''"
| "ProtocolMessage_to_string ProtocolMessage.ROLLBACK = ''ROLLBACK''"
| "ProtocolMessage_to_string ProtocolMessage.COMPENSATE = ''COMPENSATE''"
| "ProtocolMessage_to_string ProtocolMessage.RECOVERY_ASSIGN = ''RECOVERY_ASSIGN''"
| "ProtocolMessage_to_string ProtocolMessage.RECOVERY_COMPLETE = ''RECOVERY_COMPLETE''"
| "ProtocolMessage_to_string ProtocolMessage.CANCEL = ''CANCEL''"
| "ProtocolMessage_to_string ProtocolMessage.FENCE = ''FENCE''"
| "ProtocolMessage_to_string ProtocolMessage.HEARTBEAT = ''HEARTBEAT''"
| "ProtocolMessage_to_string ProtocolMessage.SHUTDOWN = ''SHUTDOWN''"

text \<open>Reverse lookup; \<open>None\<close> is the result \<open>false\<close> with the output left alone.\<close>

definition FailureClass_from_string :: "string \<Rightarrow> FailureClass option" where
  "FailureClass_from_string s =
    (if s = ''TRANSIENT'' then Some FailureClass.TRANSIENT
     else if s = ''PERMANENT'' then Some FailureClass.PERMANENT
     else if s = ''RETRYABLE'' then Some FailureClass.RETRYABLE
     else if s = ''NON_RETRYABLE'' then Some FailureClass.NON_RETRYABLE
     else if s = ''AMBIGUOUS'' then Some FailureClass.AMBIGUOUS
     else if s = ''PARTIAL_SUCCESS'' then Some FailureClass.PARTIAL_SUCCESS
     else if s = ''STALE_AUTHORITY'' then Some FailureClass.STALE_AUTHORITY
     else if s = ''LOST_WORKER'' then Some FailureClass.LOST_WORKER
     else if s = ''LOST_DEVICE'' then Some FailureClass.LOST_DEVICE
     else if s = ''TRANSPORT_FAILURE'' then Some FailureClass.TRANSPORT_FAILURE
     else if s = ''TIMEOUT_OBSERVED'' then Some FailureClass.TIMEOUT_OBSERVED
     else if s = ''PROTOCOL_FAILURE'' then Some FailureClass.PROTOCOL_FAILURE
     else if s = ''RESOURCE_EXHAUSTION'' then Some FailureClass.RESOURCE_EXHAUSTION
     else if s = ''CORRUPTION'' then Some FailureClass.CORRUPTION
     else if s = ''VALIDATION_FAILURE'' then Some FailureClass.VALIDATION_FAILURE
     else if s = ''INCOMPATIBILITY'' then Some FailureClass.INCOMPATIBILITY
     else if s = ''CANCELLED'' then Some FailureClass.CANCELLED
     else if s = ''PREEMPTED'' then Some FailureClass.PREEMPTED
     else if s = ''DEPENDENCY_FAILURE'' then Some FailureClass.DEPENDENCY_FAILURE
     else if s = ''STORAGE_FAILURE'' then Some FailureClass.STORAGE_FAILURE
     else if s = ''EXECUTION_FAILURE'' then Some FailureClass.EXECUTION_FAILURE
     else if s = ''RECOVERY_FAILURE'' then Some FailureClass.RECOVERY_FAILURE
     else if s = ''UNKNOWN'' then Some FailureClass.UNKNOWN
     else None)"

definition OperationState_from_string :: "string \<Rightarrow> OperationState option" where
  "OperationState_from_string s =
    (if s = ''CREATED'' then Some OperationState.CREATED
     else if s = ''DISPATCHED'' then Some OperationState.DISPATCHED
     else if s = ''RUNNING'' then Some OperationState.RUNNING
     else if s = ''COMPLETION_REPORTED'' then Some OperationState.COMPLETION_REPORTED
     else if s = ''COMPLETION_CONFIRMED'' then Some OperationState.COMPLETION_CONFIRMED
     else if s = ''FAILED_KNOWN'' then Some OperationState.FAILED_KNOWN
     else if s = ''FAILED_AMBIGUOUS'' then Some OperationState.FAILED_AMBIGUOUS
     else if s = ''PARTIALLY_SUCCEEDED'' then Some OperationState.PARTIALLY_SUCCEEDED
     else if s = ''RETRY_PENDING'' then Some OperationState.RETRY_PENDING
     else if s = ''RETRYING'' then Some OperationState.RETRYING
     else if s = ''ROLLBACK_PENDING'' then Some OperationState.ROLLBACK_PENDING
     else if s = ''ROLLING_BACK'' then Some OperationState.ROLLING_BACK
     else if s = ''RECOVERY_PENDING'' then Some OperationState.RECOVERY_PENDING
     else if s = ''RECOVERING'' then Some OperationState.RECOVERING
     else if s = ''RECOVERED'' then Some OperationState.RECOVERED
     else if s = ''TERMINAL_FAILED'' then Some OperationState.TERMINAL_FAILED
     else if s = ''CANCELLED'' then Some OperationState.CANCELLED
     else if s = ''ABANDONED'' then Some OperationState.ABANDONED
     else None)"

definition RecoveryAction_from_string :: "string \<Rightarrow> RecoveryAction option" where
  "RecoveryAction_from_string s =
    (if s = ''RETRY'' then Some RecoveryAction.RETRY
     else if s = ''RETRY_ELSEWHERE'' then Some RecoveryAction.RETRY_ELSEWHERE
     else if s = ''RESTART_WORKER'' then Some RecoveryAction.RESTART_WORKER
     else if s = ''RESTART_DEVICE_CONTEXT'' then Some RecoveryAction.RESTART_DEVICE_CONTEXT
     else if s = ''RELOAD_STATE'' then Some RecoveryAction.RELOAD_STATE
     else if s = ''REHYDRATE_STATE'' then Some RecoveryAction.REHYDRATE_STATE
     else if s = ''FAILOVER_REPLICA'' then Some RecoveryAction.FAILOVER_REPLICA
     else if s = ''ROLLBACK'' then Some RecoveryAction.ROLLBACK
     else if s = ''COMPENSATE'' then Some RecoveryAction.COMPENSATE
     else if s = ''INVALIDATE'' then Some RecoveryAction.INVALIDATE
     else if s = ''RECOMPUTE'' then Some RecoveryAction.RECOMPUTE
     else if s = ''ABANDON'' then Some RecoveryAction.ABANDON
     else if s = ''ESCALATE'' then Some RecoveryAction.ESCALATE
     else if s = ''MANUAL_RESOLUTION'' then Some RecoveryAction.MANUAL_RESOLUTION
     else None)"

definition RecoveryOwner_from_string :: "string \<Rightarrow> RecoveryOwner option" where
  "RecoveryOwner_from_string s =
    (if s = ''COORDINATOR'' then Some RecoveryOwner.COORDINATOR
     else if s = ''ORIGINAL_WORKER'' then Some RecoveryOwner.ORIGINAL_WORKER
     else if s = ''REPLACEMENT_WORKER'' then Some RecoveryOwner.REPLACEMENT_WORKER
     else if s = ''REPLICA_MANAGER'' then Some RecoveryOwner.REPLICA_MANAGER
     else if s = ''STORAGE_SUBSYSTEM'' then Some RecoveryOwner.STORAGE_SUBSYSTEM
     else if s = ''TRANSFER_SUBSYSTEM'' then Some RecoveryOwner.TRANSFER_SUBSYSTEM
     else if s = ''OPERATOR'' then Some RecoveryOwner.OPERATOR
     else if s = ''EXTERNAL_SYSTEM'' then Some RecoveryOwner.EXTERNAL_SYSTEM
     else if s = ''NONE'' then Some RecoveryOwner.NONE
     else None)"

definition Retryability_from_string :: "string \<Rightarrow> Retryability option" where
  "Retryability_from_string s =
    (if s = ''RETRYABLE'' then Some Retryability.RETRYABLE
     else if s = ''NON_RETRYABLE'' then Some Retryability.NON_RETRYABLE
     else if s = ''CONDITIONALLY_RETRYABLE'' then Some Retryability.CONDITIONALLY_RETRYABLE
     else if s = ''UNKNOWN'' then Some Retryability.UNKNOWN
     else None)"

definition Ambiguity_from_string :: "string \<Rightarrow> Ambiguity option" where
  "Ambiguity_from_string s =
    (if s = ''KNOWN'' then Some Ambiguity.KNOWN
     else if s = ''PARTIAL'' then Some Ambiguity.PARTIAL
     else if s = ''AMBIGUOUS'' then Some Ambiguity.AMBIGUOUS
     else if s = ''UNKNOWN_OUTCOME'' then Some Ambiguity.UNKNOWN_OUTCOME
     else None)"

subsection \<open>Operation semantics flags\<close>

text \<open>
  \<open>OperationSemantics\<close> is a set of independent bits combined with \<open>|\<close> and \<open>&\<close>, so its
  values are words rather than a datatype.
\<close>

type_synonym OperationSemantics = u32

definition SEM_NONE :: OperationSemantics where "SEM_NONE = 0"
definition SEM_IDEMPOTENT :: OperationSemantics where "SEM_IDEMPOTENT = push_bit 0 1"
definition SEM_DEDUPLICATED :: OperationSemantics where "SEM_DEDUPLICATED = push_bit 1 1"
definition SEM_TRANSACTIONAL :: OperationSemantics where "SEM_TRANSACTIONAL = push_bit 2 1"
definition SEM_COMPENSATABLE :: OperationSemantics where "SEM_COMPENSATABLE = push_bit 3 1"
definition SEM_NON_REPEATABLE :: OperationSemantics where "SEM_NON_REPEATABLE = push_bit 4 1"
definition SEM_EXTERNALLY_COMMITTED :: OperationSemantics where "SEM_EXTERNALLY_COMMITTED = push_bit 5 1"
definition SEM_UNKNOWN_SIDE_EFFECTS :: OperationSemantics where "SEM_UNKNOWN_SIDE_EFFECTS = push_bit 6 1"

definition semantics_or :: "OperationSemantics \<Rightarrow> OperationSemantics \<Rightarrow> OperationSemantics" where
  "semantics_or a b = a OR b"

definition semantics_and :: "OperationSemantics \<Rightarrow> OperationSemantics \<Rightarrow> OperationSemantics" where
  "semantics_and a b = a AND b"

definition has_semantics :: "OperationSemantics \<Rightarrow> OperationSemantics \<Rightarrow> bool" where
  "has_semantics v flag \<longleftrightarrow> v AND flag \<noteq> 0"

subsection \<open>Casts of OperationState\<close>

definition OperationState_u32 :: "OperationState \<Rightarrow> u32" where
  "OperationState_u32 s =
     (case s of OperationState.UNNAMED n \<Rightarrow> n | _ \<Rightarrow> enum_u32 OperationState_vals s)"

definition OperationState_cast :: "u32 \<Rightarrow> OperationState" where
  "OperationState_cast n =
     (if n < 20 then enum_at OperationState_vals n else OperationState.UNNAMED n)"

text \<open>The values that are enumerators, and the values a cast can produce.\<close>

definition named :: "OperationState \<Rightarrow> bool" where
  "named s \<longleftrightarrow> (case s of OperationState.UNNAMED n \<Rightarrow> False | _ \<Rightarrow> True)"

definition castable :: "OperationState \<Rightarrow> bool" where
  "castable s \<longleftrightarrow> (case s of OperationState.UNNAMED n \<Rightarrow> \<not> n < 20 | _ \<Rightarrow> True)"

subsection \<open>The enumerations are enumerations\<close>

interpretation FailureClass: enumeration FailureClass_vals
proof
  show "x \<in> set FailureClass_vals" for x by (cases x) (simp_all add: FailureClass_vals_def)
qed (simp_all add: FailureClass_vals_def)

interpretation FailureOrigin: enumeration FailureOrigin_vals
proof
  show "x \<in> set FailureOrigin_vals" for x by (cases x) (simp_all add: FailureOrigin_vals_def)
qed (simp_all add: FailureOrigin_vals_def)

interpretation Severity: enumeration Severity_vals
proof
  show "x \<in> set Severity_vals" for x by (cases x) (simp_all add: Severity_vals_def)
qed (simp_all add: Severity_vals_def)

interpretation Retryability: enumeration Retryability_vals
proof
  show "x \<in> set Retryability_vals" for x by (cases x) (simp_all add: Retryability_vals_def)
qed (simp_all add: Retryability_vals_def)

interpretation Ambiguity: enumeration Ambiguity_vals
proof
  show "x \<in> set Ambiguity_vals" for x by (cases x) (simp_all add: Ambiguity_vals_def)
qed (simp_all add: Ambiguity_vals_def)

interpretation SideEffectState: enumeration SideEffectState_vals
proof
  show "x \<in> set SideEffectState_vals" for x by (cases x) (simp_all add: SideEffectState_vals_def)
qed (simp_all add: SideEffectState_vals_def)

interpretation AuthorityStatus: enumeration AuthorityStatus_vals
proof
  show "x \<in> set AuthorityStatus_vals" for x by (cases x) (simp_all add: AuthorityStatus_vals_def)
qed (simp_all add: AuthorityStatus_vals_def)

interpretation RollbackRequirement: enumeration RollbackRequirement_vals
proof
  show "x \<in> set RollbackRequirement_vals" for x by (cases x) (simp_all add: RollbackRequirement_vals_def)
qed (simp_all add: RollbackRequirement_vals_def)

interpretation CompensationRequirement: enumeration CompensationRequirement_vals
proof
  show "x \<in> set CompensationRequirement_vals" for x by (cases x) (simp_all add: CompensationRequirement_vals_def)
qed (simp_all add: CompensationRequirement_vals_def)

interpretation RecoveryOwner: enumeration RecoveryOwner_vals
proof
  show "x \<in> set RecoveryOwner_vals" for x by (cases x) (simp_all add: RecoveryOwner_vals_def)
qed (simp_all add: RecoveryOwner_vals_def)

interpretation Terminality: enumeration Terminality_vals
proof
  show "x \<in> set Terminality_vals" for x by (cases x) (simp_all add: Terminality_vals_def)
qed (simp_all add: Terminality_vals_def)

interpretation Provenance: enumeration Provenance_vals
proof
  show "x \<in> set Provenance_vals" for x by (cases x) (simp_all add: Provenance_vals_def)
qed (simp_all add: Provenance_vals_def)

interpretation FailurePhase: enumeration FailurePhase_vals
proof
  show "x \<in> set FailurePhase_vals" for x by (cases x) (simp_all add: FailurePhase_vals_def)
qed (simp_all add: FailurePhase_vals_def)

interpretation RecoveryAction: enumeration RecoveryAction_vals
proof
  show "x \<in> set RecoveryAction_vals" for x by (cases x) (simp_all add: RecoveryAction_vals_def)
qed (simp_all add: RecoveryAction_vals_def)

interpretation RollbackAction: enumeration RollbackAction_vals
proof
  show "x \<in> set RollbackAction_vals" for x by (cases x) (simp_all add: RollbackAction_vals_def)
qed (simp_all add: RollbackAction_vals_def)

interpretation ProtocolMessage: enumeration ProtocolMessage_vals
proof
  show "x \<in> set ProtocolMessage_vals" for x by (cases x) (simp_all add: ProtocolMessage_vals_def)
qed (simp_all add: ProtocolMessage_vals_def)

lemma length_FailureClass_vals [simp]: "length FailureClass_vals = 23"
  by (simp add: FailureClass_vals_def)

lemma length_FailureOrigin_vals [simp]: "length FailureOrigin_vals = 11"
  by (simp add: FailureOrigin_vals_def)

lemma length_Severity_vals [simp]: "length Severity_vals = 4"
  by (simp add: Severity_vals_def)

lemma length_Retryability_vals [simp]: "length Retryability_vals = 4"
  by (simp add: Retryability_vals_def)

lemma length_Ambiguity_vals [simp]: "length Ambiguity_vals = 4"
  by (simp add: Ambiguity_vals_def)

lemma length_SideEffectState_vals [simp]: "length SideEffectState_vals = 5"
  by (simp add: SideEffectState_vals_def)

lemma length_AuthorityStatus_vals [simp]: "length AuthorityStatus_vals = 5"
  by (simp add: AuthorityStatus_vals_def)

lemma length_RollbackRequirement_vals [simp]: "length RollbackRequirement_vals = 4"
  by (simp add: RollbackRequirement_vals_def)

lemma length_CompensationRequirement_vals [simp]: "length CompensationRequirement_vals = 3"
  by (simp add: CompensationRequirement_vals_def)

lemma length_RecoveryOwner_vals [simp]: "length RecoveryOwner_vals = 9"
  by (simp add: RecoveryOwner_vals_def)

lemma length_Terminality_vals [simp]: "length Terminality_vals = 4"
  by (simp add: Terminality_vals_def)

lemma length_Provenance_vals [simp]: "length Provenance_vals = 7"
  by (simp add: Provenance_vals_def)

lemma length_FailurePhase_vals [simp]: "length FailurePhase_vals = 10"
  by (simp add: FailurePhase_vals_def)

lemma length_OperationState_vals [simp]: "length OperationState_vals = 20"
  by (simp add: OperationState_vals_def)

lemma length_RecoveryAction_vals [simp]: "length RecoveryAction_vals = 14"
  by (simp add: RecoveryAction_vals_def)

lemma length_RollbackAction_vals [simp]: "length RollbackAction_vals = 10"
  by (simp add: RollbackAction_vals_def)

lemma length_ProtocolMessage_vals [simp]: "length ProtocolMessage_vals = 16"
  by (simp add: ProtocolMessage_vals_def)

lemma OperationState_cast_u32: "castable s \<Longrightarrow> OperationState_cast (OperationState_u32 s) = s"
  by (cases s) (simp_all add: OperationState_cast_def OperationState_u32_def castable_def
      enum_u32_def enum_at_def enum_index_def OperationState_vals_def)

lemma named_vals: "named s \<longleftrightarrow> s \<in> set OperationState_vals"
  by (cases s) (simp_all add: named_def OperationState_vals_def)

lemma named_castable: "named s \<Longrightarrow> castable s"
  by (cases s) (simp_all add: named_def castable_def)

end
