(* ===== verification/FF_Authority.thy ===== *)
theory FF_Authority
  imports FF_Id FF_Enum
begin

text \<open>
  Authority envelopes and fencing (\<open>include/failure_fabric/authority.hpp\<close>,
  \<open>src/authority.cpp\<close>). The three fences are decision procedures that return the first
  violated dimension; the lemmas characterise exactly which envelopes each of them accepts.
\<close>

subsection \<open>Envelopes\<close>

record AuthorityEnvelope =
  ae_coordinator_epoch :: CoordinatorEpoch
  ae_worker_boot :: WorkerBootId
  ae_attempt :: AttemptId
  ae_attempt_generation :: AttemptGeneration
  ae_dispatch :: DispatchId
  ae_operation_generation :: OperationGeneration
  ae_failure_generation :: FailureGeneration
  ae_recovery_generation :: RecoveryGeneration

definition empty_envelope :: AuthorityEnvelope where
  "empty_envelope =
     \<lparr>ae_coordinator_epoch = gen_zero, ae_worker_boot = null_id, ae_attempt = null_id,
      ae_attempt_generation = gen_zero, ae_dispatch = null_id,
      ae_operation_generation = gen_zero, ae_failure_generation = gen_zero,
      ae_recovery_generation = gen_zero\<rparr>"

definition envelope_is_unset :: "AuthorityEnvelope \<Rightarrow> bool" where
  "envelope_is_unset e \<longleftrightarrow>
     gen_is_unset (ae_coordinator_epoch e) \<and> is_null (ae_worker_boot e) \<and>
     is_null (ae_attempt e) \<and> gen_is_unset (ae_attempt_generation e) \<and>
     is_null (ae_dispatch e) \<and> gen_is_unset (ae_operation_generation e) \<and>
     gen_is_unset (ae_failure_generation e) \<and> gen_is_unset (ae_recovery_generation e)"

definition next_boot :: "AuthorityEnvelope \<Rightarrow> WorkerBootId \<Rightarrow> AuthorityEnvelope" where
  "next_boot e fresh_boot =
     e\<lparr>ae_worker_boot := fresh_boot,
       ae_attempt_generation := gen_next (ae_attempt_generation e),
       ae_operation_generation := gen_next (ae_operation_generation e),
       ae_failure_generation := gen_next (ae_failure_generation e),
       ae_recovery_generation := gen_next (ae_recovery_generation e)\<rparr>"

subsection \<open>Fence results\<close>

datatype FenceReason =
    ACCEPTED | EPOCH_STALE | BOOT_STALE | ATTEMPT_STALE | ATTEMPT_MISMATCH
  | DISPATCH_MISMATCH | ATTEMPT_GENERATION_STALE | OPERATION_GENERATION_STALE
  | FAILURE_GENERATION_STALE | RECOVERY_GENERATION_STALE | RECOVERY_OWNER_STALE
  | TERMINAL | UNKNOWN

record FenceResult =
  fence_accepted :: bool
  fence_status :: AuthorityStatus
  fence_reason :: FenceReason
  fence_detail :: string

definition accepted :: "string \<Rightarrow> FenceResult" where
  "accepted detail =
     \<lparr>fence_accepted = True, fence_status = AuthorityStatus.AUTHORITATIVE,
      fence_reason = FenceReason.ACCEPTED, fence_detail = detail\<rparr>"

definition rejected :: "FenceReason \<Rightarrow> string \<Rightarrow> FenceResult" where
  "rejected r detail =
     \<lparr>fence_accepted = False, fence_status = AuthorityStatus.STALE,
      fence_reason = r, fence_detail = detail\<rparr>"

subsection \<open>The fences\<close>

definition fence_completion ::
  "AuthorityEnvelope \<Rightarrow> AuthorityEnvelope \<Rightarrow> AuthorityEnvelope \<Rightarrow> FenceResult" where
  "fence_completion c cur terminal =
    (if envelope_is_unset c
     then rejected FenceReason.UNKNOWN ''completion carries no authority envelope''
     else if \<not> gen_is_unset (ae_coordinator_epoch cur) \<and>
             ae_coordinator_epoch c < ae_coordinator_epoch cur
     then rejected FenceReason.EPOCH_STALE ''completion epoch older than authoritative epoch''
     else if \<not> is_null (ae_attempt cur) \<and> ae_attempt c \<noteq> ae_attempt cur
     then rejected FenceReason.ATTEMPT_MISMATCH ''completion references a different attempt id''
     else if \<not> is_null (ae_dispatch cur) \<and> ae_dispatch c \<noteq> ae_dispatch cur
     then rejected FenceReason.DISPATCH_MISMATCH ''completion references a different dispatch id''
     else if \<not> is_null (ae_worker_boot cur) \<and> ae_worker_boot c \<noteq> ae_worker_boot cur
     then rejected FenceReason.BOOT_STALE ''completion from a dead/stale worker boot''
     else if \<not> gen_is_unset (ae_attempt_generation cur) \<and>
             ae_attempt_generation c < ae_attempt_generation cur
     then rejected FenceReason.ATTEMPT_GENERATION_STALE ''completion attempt generation regressed''
     else if \<not> gen_is_unset (ae_operation_generation cur) \<and>
             ae_operation_generation c < ae_operation_generation cur
     then rejected FenceReason.OPERATION_GENERATION_STALE
            ''completion operation generation regressed''
     else if \<not> envelope_is_unset terminal \<and>
             ae_attempt_generation c \<le> ae_attempt_generation terminal \<and>
             ae_operation_generation c \<le> ae_operation_generation terminal
     then rejected FenceReason.ATTEMPT_GENERATION_STALE
            ''terminal outcome already recorded at this/newer generation''
     else accepted ''completion authority is current'')"

definition fence_failure :: "AuthorityEnvelope \<Rightarrow> AuthorityEnvelope \<Rightarrow> FenceResult" where
  "fence_failure c cur =
    (if envelope_is_unset c
     then rejected FenceReason.UNKNOWN ''failure carries no authority envelope''
     else if \<not> gen_is_unset (ae_coordinator_epoch cur) \<and>
             ae_coordinator_epoch c < ae_coordinator_epoch cur
     then rejected FenceReason.EPOCH_STALE ''failure epoch older than authoritative epoch''
     else if \<not> is_null (ae_attempt cur) \<and> ae_attempt c \<noteq> ae_attempt cur
     then rejected FenceReason.ATTEMPT_MISMATCH ''failure references a different attempt id''
     else if \<not> gen_is_unset (ae_attempt_generation cur) \<and>
             ae_attempt_generation c < ae_attempt_generation cur
     then rejected FenceReason.ATTEMPT_GENERATION_STALE ''failure attempt generation regressed''
     else if \<not> is_null (ae_worker_boot cur) \<and> \<not> is_null (ae_worker_boot c) \<and>
             ae_worker_boot c \<noteq> ae_worker_boot cur \<and>
             ae_attempt_generation c \<le> ae_attempt_generation cur
     then rejected FenceReason.BOOT_STALE ''failure from a stale worker boot''
     else accepted ''failure authority is current'')"

definition fence_recovery ::
  "AuthorityEnvelope \<Rightarrow> AuthorityEnvelope \<Rightarrow> RecoveryGeneration \<Rightarrow> FenceResult" where
  "fence_recovery c cur current_recovery_generation =
    (if envelope_is_unset c
     then rejected FenceReason.UNKNOWN ''recovery command carries no authority envelope''
     else if \<not> gen_is_unset (ae_coordinator_epoch cur) \<and>
             ae_coordinator_epoch c < ae_coordinator_epoch cur
     then rejected FenceReason.EPOCH_STALE ''recovery epoch older than authoritative epoch''
     else if ae_recovery_generation c \<le> current_recovery_generation
     then rejected FenceReason.RECOVERY_GENERATION_STALE ''recovery generation did not increase''
     else if \<not> is_null (ae_attempt cur) \<and> ae_attempt c \<noteq> ae_attempt cur
     then rejected FenceReason.ATTEMPT_MISMATCH ''recovery references a different attempt id''
     else accepted ''recovery authority is current'')"

subsection \<open>What the fences accept\<close>

lemma envelope_is_unset_iff: "envelope_is_unset e \<longleftrightarrow> e = empty_envelope"
  by (cases e) (auto simp: envelope_is_unset_def empty_envelope_def gen_is_unset_iff is_null_iff)

lemma empty_envelope_unset [simp]: "envelope_is_unset empty_envelope"
  by (simp add: envelope_is_unset_iff)

lemma accepted_simps [simp]:
  "fence_accepted (accepted d)" "fence_reason (accepted d) = FenceReason.ACCEPTED"
  "fence_status (accepted d) = AuthorityStatus.AUTHORITATIVE"
  by (simp_all add: accepted_def)

lemma rejected_simps [simp]:
  "\<not> fence_accepted (rejected r d)" "fence_reason (rejected r d) = r"
  "fence_status (rejected r d) = AuthorityStatus.STALE"
  by (simp_all add: rejected_def)

text \<open>
  The per-dimension conditions, in words: an envelope is not older than the current one in
  an ordered dimension, and agrees with it in an identity dimension, unless the current
  envelope leaves that dimension unset.
\<close>

definition not_older :: "Generation \<Rightarrow> Generation \<Rightarrow> bool" where
  "not_older g cur \<longleftrightarrow> cur \<le> g"

definition agrees :: "'tag Id \<Rightarrow> 'tag Id \<Rightarrow> bool" where
  "agrees i cur \<longleftrightarrow> is_null cur \<or> i = cur"

lemma gen_zero_le [simp]: "gen_zero \<le> g"
  by (simp add: gen_zero_def gen_order_defs)

lemma not_less_gen_zero [simp]: "\<not> g < gen_zero"
  by (simp add: not_less)

lemma stale_gen_iff: "(\<not> gen_is_unset cur \<and> g < cur) \<longleftrightarrow> \<not> not_older g cur"
  by (auto simp: not_older_def gen_is_unset_iff not_le)

lemma mismatch_iff: "(\<not> is_null cur \<and> i \<noteq> cur) \<longleftrightarrow> \<not> agrees i cur"
  by (auto simp: agrees_def)

lemma fence_completion_accepts:
  "fence_accepted (fence_completion c cur terminal) \<longleftrightarrow>
     c \<noteq> empty_envelope \<and>
     not_older (ae_coordinator_epoch c) (ae_coordinator_epoch cur) \<and>
     agrees (ae_attempt c) (ae_attempt cur) \<and> agrees (ae_dispatch c) (ae_dispatch cur) \<and>
     agrees (ae_worker_boot c) (ae_worker_boot cur) \<and>
     not_older (ae_attempt_generation c) (ae_attempt_generation cur) \<and>
     not_older (ae_operation_generation c) (ae_operation_generation cur) \<and>
     (terminal = empty_envelope \<or>
      ae_attempt_generation terminal < ae_attempt_generation c \<or>
      ae_operation_generation terminal < ae_operation_generation c)"
  unfolding fence_completion_def stale_gen_iff mismatch_iff envelope_is_unset_iff
  by (auto simp: not_le)

lemma fence_failure_accepts:
  "fence_accepted (fence_failure c cur) \<longleftrightarrow>
     c \<noteq> empty_envelope \<and>
     not_older (ae_coordinator_epoch c) (ae_coordinator_epoch cur) \<and>
     agrees (ae_attempt c) (ae_attempt cur) \<and>
     not_older (ae_attempt_generation c) (ae_attempt_generation cur) \<and>
     (is_null (ae_worker_boot c) \<or> agrees (ae_worker_boot c) (ae_worker_boot cur) \<or>
      ae_attempt_generation cur < ae_attempt_generation c)"
  unfolding fence_failure_def stale_gen_iff mismatch_iff envelope_is_unset_iff
  by (auto simp: not_le agrees_def)

lemma fence_recovery_accepts:
  "fence_accepted (fence_recovery c cur g) \<longleftrightarrow>
     c \<noteq> empty_envelope \<and>
     not_older (ae_coordinator_epoch c) (ae_coordinator_epoch cur) \<and>
     g < ae_recovery_generation c \<and> agrees (ae_attempt c) (ae_attempt cur)"
  unfolding fence_recovery_def stale_gen_iff mismatch_iff envelope_is_unset_iff
  by (auto simp: not_le)

lemma fence_consistent:
  "fence_accepted (fence_completion c cur t) \<longleftrightarrow>
     fence_reason (fence_completion c cur t) = FenceReason.ACCEPTED"
  "fence_accepted (fence_failure c cur) \<longleftrightarrow>
     fence_reason (fence_failure c cur) = FenceReason.ACCEPTED"
  "fence_accepted (fence_recovery c cur g) \<longleftrightarrow>
     fence_reason (fence_recovery c cur g) = FenceReason.ACCEPTED"
  by (simp_all add: fence_completion_def fence_failure_def fence_recovery_def)

subsection \<open>The contract of a fence\<close>

text \<open>
  What the registry relies on of a fence: it never accepts the empty envelope, an accepted
  envelope names the current attempt with a generation that did not regress, and the current
  envelope itself is accepted.
\<close>

locale attempt_fence =
  fixes fence :: "AuthorityEnvelope \<Rightarrow> AuthorityEnvelope \<Rightarrow> FenceResult"
  assumes needs_authority: "fence_accepted (fence c cur) \<Longrightarrow> c \<noteq> empty_envelope"
    and same_attempt: "fence_accepted (fence c cur) \<Longrightarrow> agrees (ae_attempt c) (ae_attempt cur)"
    and epoch_kept: "fence_accepted (fence c cur) \<Longrightarrow>
      ae_coordinator_epoch cur \<le> ae_coordinator_epoch c"
    and generation_kept: "fence_accepted (fence c cur) \<Longrightarrow>
      ae_attempt_generation cur \<le> ae_attempt_generation c"
    and accepts_current: "cur \<noteq> empty_envelope \<Longrightarrow> fence_accepted (fence cur cur)"
begin

lemma fences_other_attempt:
  "\<not> is_null (ae_attempt cur) \<Longrightarrow> ae_attempt c \<noteq> ae_attempt cur \<Longrightarrow>
    \<not> fence_accepted (fence c cur)"
  using same_attempt by (auto simp: agrees_def)

lemma fences_older_generation:
  "ae_attempt_generation c < ae_attempt_generation cur \<Longrightarrow> \<not> fence_accepted (fence c cur)"
  using generation_kept by (meson not_le)

lemma fences_older_epoch:
  "ae_coordinator_epoch c < ae_coordinator_epoch cur \<Longrightarrow> \<not> fence_accepted (fence c cur)"
  using epoch_kept by (meson not_le)

end

interpretation failure_fence: attempt_fence fence_failure
  by unfold_locales (auto simp: fence_failure_accepts not_older_def agrees_def)

interpretation completion_fence: attempt_fence "\<lambda>c cur. fence_completion c cur empty_envelope"
  by unfold_locales (auto simp: fence_completion_accepts not_older_def agrees_def)

lemma fence_completion_implies_failure:
  "fence_accepted (fence_completion c cur t) \<Longrightarrow> fence_accepted (fence_failure c cur)"
  by (auto simp: fence_completion_accepts fence_failure_accepts)

subsection \<open>Sample values\<close>

text \<open>Small concrete identities and envelopes at which the witnesses are evaluated.\<close>

definition sample_uuid :: "byte \<Rightarrow> uuid128" where
  "sample_uuid b = UUID b 0 0 0 0 0 0 0 0 0 0 0 0 0 0 0"

definition sample_id :: "byte \<Rightarrow> 'tag Id" where
  "sample_id b = ID (sample_uuid b)"

definition sample_env :: "byte \<Rightarrow> AuthorityEnvelope" where
  "sample_env b = empty_envelope\<lparr>ae_coordinator_epoch := Generation 1,
     ae_worker_boot := sample_id b, ae_attempt := sample_id b,
     ae_attempt_generation := Generation (ucast b),
     ae_operation_generation := Generation (ucast b)\<rparr>"

lemma sample_id_inject [simp]: "sample_id a = sample_id b \<longleftrightarrow> a = b"
  by (simp add: sample_id_def sample_uuid_def)

lemma sample_id_null [simp]: "is_null (sample_id b) \<longleftrightarrow> b = 0"
  by (simp add: sample_id_def sample_uuid_def is_null_def is_zero_def)

lemma sample_env_sel [simp]:
  "ae_coordinator_epoch (sample_env b) = Generation 1" "ae_worker_boot (sample_env b) = sample_id b"
  "ae_attempt (sample_env b) = sample_id b"
  "ae_attempt_generation (sample_env b) = Generation (ucast b)"
  "ae_operation_generation (sample_env b) = Generation (ucast b)"
  "ae_dispatch (sample_env b) = null_id"
  "ae_failure_generation (sample_env b) = gen_zero" "ae_recovery_generation (sample_env b) = gen_zero"
  by (simp_all add: sample_env_def empty_envelope_def)

lemma sample_env_not_empty [simp]: "sample_env b \<noteq> empty_envelope" "empty_envelope \<noteq> sample_env b"
  by (auto simp: sample_env_def empty_envelope_def gen_zero_def)

subsection \<open>Properties\<close>

text \<open>
  A restart fences the past: once the authority of an operation has moved to the next boot,
  neither a completion nor a failure report under the previous authority is accepted, whatever the
  terminal record says. (The attempt generation must not be at the 64-bit maximum, where it wraps.)
\<close>

lemma next_boot_fences_previous:
  assumes "gen_value (ae_attempt_generation e) \<noteq> - 1"
  shows "\<not> fence_accepted (fence_completion e (next_boot e fresh) t) \<and>
    \<not> fence_accepted (fence_failure e (next_boot e fresh))"
proof -
  have "ae_attempt_generation e < ae_attempt_generation (next_boot e fresh)"
    using gen_less_next [OF assms] by (simp add: next_boot_def)
  then show ?thesis
    using failure_fence.fences_older_generation fence_completion_implies_failure by blast
qed

text \<open>
  The completion fence accepts exactly the envelopes that carry an authority, are not older than
  the current one in epoch, attempt generation and operation generation, name the current attempt,
  dispatch and worker boot wherever these are set, and are newer than the recorded terminal outcome
  if there is one.
\<close>

lemma completion_fence_exact:
  "fence_accepted (fence_completion c cur terminal) \<longleftrightarrow>
     c \<noteq> empty_envelope \<and>
     ae_coordinator_epoch cur \<le> ae_coordinator_epoch c \<and>
     (is_null (ae_attempt cur) \<or> ae_attempt c = ae_attempt cur) \<and>
     (is_null (ae_dispatch cur) \<or> ae_dispatch c = ae_dispatch cur) \<and>
     (is_null (ae_worker_boot cur) \<or> ae_worker_boot c = ae_worker_boot cur) \<and>
     ae_attempt_generation cur \<le> ae_attempt_generation c \<and>
     ae_operation_generation cur \<le> ae_operation_generation c \<and>
     (terminal = empty_envelope \<or>
      ae_attempt_generation terminal < ae_attempt_generation c \<or>
      ae_operation_generation terminal < ae_operation_generation c)"
  by (simp add: fence_completion_accepts not_older_def agrees_def)

end
