(* ===== verification/FF_Failure_Record.thy ===== *)
theory FF_Failure_Record
  imports FF_Authority
begin

text \<open>
  Failure records and their builder (\<open>include/failure_fabric/failure_record.hpp\<close>,
  \<open>src/failure_record.cpp\<close>): the record, the class-to-dimension table, the two ways
  defaults are derived, and the builder's setters and \<open>build\<close>.
\<close>

subsection \<open>The record\<close>

record FailureRecord =
  fr_failure_id :: FailureId
  fr_operation :: OperationId
  fr_request :: RequestId
  fr_workload :: WorkloadId
  fr_attempt :: AttemptId
  fr_dispatch :: DispatchId
  fr_worker :: WorkerId
  fr_node :: NodeId
  fr_device :: DeviceId
  fr_failure_class :: FailureClass
  fr_origin :: FailureOrigin
  fr_failure_code :: u32
  fr_summary :: string
  fr_reason :: string
  fr_phase :: FailurePhase
  fr_timestamp_ms :: u64
  fr_completion :: Ambiguity
  fr_side_effect_state :: SideEffectState
  fr_unknown_side_effects :: u32
  fr_authority :: AuthorityEnvelope
  fr_retryability :: Retryability
  fr_rollback :: RollbackRequirement
  fr_compensation :: CompensationRequirement
  fr_terminality :: Terminality
  fr_recovery_owner :: RecoveryOwner
  fr_provenance :: Provenance
  fr_causal_parent :: FailureId
  fr_dependencies :: "FailureId list"

definition default_record :: FailureRecord where
  "default_record =
    \<lparr>fr_failure_id = null_id, fr_operation = null_id,
     fr_request = null_id, fr_workload = null_id,
     fr_attempt = null_id, fr_dispatch = null_id,
     fr_worker = null_id, fr_node = null_id,
     fr_device = null_id, fr_failure_class = FailureClass.UNKNOWN,
     fr_origin = FailureOrigin.UNKNOWN, fr_failure_code = 0,
     fr_summary = [], fr_reason = [],
     fr_phase = FailurePhase.UNKNOWN, fr_timestamp_ms = 0,
     fr_completion = Ambiguity.UNKNOWN_OUTCOME, fr_side_effect_state = SideEffectState.UNKNOWN,
     fr_unknown_side_effects = 0, fr_authority = empty_envelope,
     fr_retryability = Retryability.UNKNOWN, fr_rollback = RollbackRequirement.NONE,
     fr_compensation = CompensationRequirement.NONE, fr_terminality = Terminality.UNKNOWN,
     fr_recovery_owner = RecoveryOwner.NONE, fr_provenance = Provenance.UNKNOWN,
     fr_causal_parent = null_id, fr_dependencies = []\<rparr>"

subsection \<open>Dimensions derived from the class\<close>

record Dims =
  dim_retry :: Retryability
  dim_rollback :: RollbackRequirement
  dim_comp :: CompensationRequirement
  dim_term :: Terminality

definition dims ::
  "Retryability \<Rightarrow> RollbackRequirement \<Rightarrow> CompensationRequirement \<Rightarrow> Terminality \<Rightarrow> Dims" where
  "dims r b c t = \<lparr>dim_retry = r, dim_rollback = b, dim_comp = c, dim_term = t\<rparr>"

fun dims_for :: "FailureClass \<Rightarrow> Dims" where
  "dims_for FailureClass.TRANSIENT = dims Retryability.RETRYABLE RollbackRequirement.NONE
     CompensationRequirement.NONE Terminality.TRANSIENT"
| "dims_for FailureClass.PERMANENT = dims Retryability.NON_RETRYABLE RollbackRequirement.OPTIONAL
     CompensationRequirement.OPTIONAL Terminality.TERMINAL"
| "dims_for FailureClass.RETRYABLE = dims Retryability.RETRYABLE RollbackRequirement.NONE
     CompensationRequirement.NONE Terminality.TRANSIENT"
| "dims_for FailureClass.NON_RETRYABLE = dims Retryability.NON_RETRYABLE RollbackRequirement.OPTIONAL
     CompensationRequirement.OPTIONAL Terminality.TERMINAL"
| "dims_for FailureClass.AMBIGUOUS = dims Retryability.CONDITIONALLY_RETRYABLE RollbackRequirement.OPTIONAL
     CompensationRequirement.OPTIONAL Terminality.PENDING"
| "dims_for FailureClass.PARTIAL_SUCCESS = dims Retryability.CONDITIONALLY_RETRYABLE RollbackRequirement.REQUIRED
     CompensationRequirement.REQUIRED Terminality.PENDING"
| "dims_for FailureClass.STALE_AUTHORITY = dims Retryability.NON_RETRYABLE RollbackRequirement.NONE
     CompensationRequirement.NONE Terminality.TERMINAL"
| "dims_for FailureClass.LOST_WORKER = dims Retryability.CONDITIONALLY_RETRYABLE RollbackRequirement.OPTIONAL
     CompensationRequirement.OPTIONAL Terminality.PENDING"
| "dims_for FailureClass.LOST_DEVICE = dims Retryability.CONDITIONALLY_RETRYABLE RollbackRequirement.OPTIONAL
     CompensationRequirement.OPTIONAL Terminality.PENDING"
| "dims_for FailureClass.TRANSPORT_FAILURE = dims Retryability.CONDITIONALLY_RETRYABLE RollbackRequirement.NONE
     CompensationRequirement.NONE Terminality.TRANSIENT"
| "dims_for FailureClass.TIMEOUT_OBSERVED = dims Retryability.CONDITIONALLY_RETRYABLE RollbackRequirement.NONE
     CompensationRequirement.NONE Terminality.TRANSIENT"
| "dims_for FailureClass.PROTOCOL_FAILURE = dims Retryability.NON_RETRYABLE RollbackRequirement.NONE
     CompensationRequirement.NONE Terminality.TRANSIENT"
| "dims_for FailureClass.RESOURCE_EXHAUSTION = dims Retryability.RETRYABLE RollbackRequirement.NONE
     CompensationRequirement.NONE Terminality.TRANSIENT"
| "dims_for FailureClass.CORRUPTION = dims Retryability.NON_RETRYABLE RollbackRequirement.REQUIRED
     CompensationRequirement.REQUIRED Terminality.TERMINAL"
| "dims_for FailureClass.VALIDATION_FAILURE = dims Retryability.NON_RETRYABLE RollbackRequirement.NONE
     CompensationRequirement.NONE Terminality.TERMINAL"
| "dims_for FailureClass.INCOMPATIBILITY = dims Retryability.NON_RETRYABLE RollbackRequirement.OPTIONAL
     CompensationRequirement.OPTIONAL Terminality.TERMINAL"
| "dims_for FailureClass.CANCELLED = dims Retryability.NON_RETRYABLE RollbackRequirement.OPTIONAL
     CompensationRequirement.OPTIONAL Terminality.TERMINAL"
| "dims_for FailureClass.PREEMPTED = dims Retryability.RETRYABLE RollbackRequirement.NONE
     CompensationRequirement.NONE Terminality.TRANSIENT"
| "dims_for FailureClass.DEPENDENCY_FAILURE = dims Retryability.CONDITIONALLY_RETRYABLE RollbackRequirement.NONE
     CompensationRequirement.NONE Terminality.TRANSIENT"
| "dims_for FailureClass.STORAGE_FAILURE = dims Retryability.CONDITIONALLY_RETRYABLE RollbackRequirement.NONE
     CompensationRequirement.NONE Terminality.TRANSIENT"
| "dims_for FailureClass.EXECUTION_FAILURE = dims Retryability.RETRYABLE RollbackRequirement.NONE
     CompensationRequirement.NONE Terminality.TRANSIENT"
| "dims_for FailureClass.RECOVERY_FAILURE = dims Retryability.NON_RETRYABLE RollbackRequirement.OPTIONAL
     CompensationRequirement.OPTIONAL Terminality.PENDING"
| "dims_for FailureClass.UNKNOWN = dims Retryability.UNKNOWN RollbackRequirement.NONE
     CompensationRequirement.NONE Terminality.UNKNOWN"

definition derive_dimensions :: "FailureRecord \<Rightarrow> FailureRecord" where
  "derive_dimensions rec =
     (let d = dims_for (fr_failure_class rec);
          rec = (if fr_retryability rec = Retryability.UNKNOWN
                 then rec\<lparr>fr_retryability := dim_retry d\<rparr> else rec);
          rec = (if fr_rollback rec = RollbackRequirement.NONE
                 then rec\<lparr>fr_rollback := dim_rollback d\<rparr> else rec);
          rec = (if fr_compensation rec = CompensationRequirement.NONE
                 then rec\<lparr>fr_compensation := dim_comp d\<rparr> else rec)
      in if fr_terminality rec = Terminality.UNKNOWN
         then rec\<lparr>fr_terminality := dim_term d\<rparr> else rec)"

subsection \<open>The builder\<close>

record FailureRecordBuilder =
  fb_r :: FailureRecord
  fb_retry_set :: bool
  fb_rollback_set :: bool
  fb_comp_set :: bool
  fb_term_set :: bool

definition new_builder :: FailureRecordBuilder where
  "new_builder = \<lparr>fb_r = default_record, fb_retry_set = False, fb_rollback_set = False,
     fb_comp_set = False, fb_term_set = False\<rparr>"

text \<open>The setters; each returns the builder, so a chain of calls is a composition.\<close>

definition b_operation :: "OperationId \<Rightarrow> FailureRecordBuilder \<Rightarrow> FailureRecordBuilder" where
  [ff_defs]: "b_operation v b = b\<lparr>fb_r := (fb_r b)\<lparr>fr_operation := v\<rparr>\<rparr>"

definition b_request :: "RequestId \<Rightarrow> FailureRecordBuilder \<Rightarrow> FailureRecordBuilder" where
  [ff_defs]: "b_request v b = b\<lparr>fb_r := (fb_r b)\<lparr>fr_request := v\<rparr>\<rparr>"

definition b_workload :: "WorkloadId \<Rightarrow> FailureRecordBuilder \<Rightarrow> FailureRecordBuilder" where
  [ff_defs]: "b_workload v b = b\<lparr>fb_r := (fb_r b)\<lparr>fr_workload := v\<rparr>\<rparr>"

definition b_attempt :: "AttemptId \<Rightarrow> FailureRecordBuilder \<Rightarrow> FailureRecordBuilder" where
  [ff_defs]: "b_attempt v b = b\<lparr>fb_r := (fb_r b)\<lparr>fr_attempt := v\<rparr>\<rparr>"

definition b_dispatch :: "DispatchId \<Rightarrow> FailureRecordBuilder \<Rightarrow> FailureRecordBuilder" where
  [ff_defs]: "b_dispatch v b = b\<lparr>fb_r := (fb_r b)\<lparr>fr_dispatch := v\<rparr>\<rparr>"

definition b_worker :: "WorkerId \<Rightarrow> FailureRecordBuilder \<Rightarrow> FailureRecordBuilder" where
  [ff_defs]: "b_worker v b = b\<lparr>fb_r := (fb_r b)\<lparr>fr_worker := v\<rparr>\<rparr>"

definition b_node :: "NodeId \<Rightarrow> FailureRecordBuilder \<Rightarrow> FailureRecordBuilder" where
  [ff_defs]: "b_node v b = b\<lparr>fb_r := (fb_r b)\<lparr>fr_node := v\<rparr>\<rparr>"

definition b_device :: "DeviceId \<Rightarrow> FailureRecordBuilder \<Rightarrow> FailureRecordBuilder" where
  [ff_defs]: "b_device v b = b\<lparr>fb_r := (fb_r b)\<lparr>fr_device := v\<rparr>\<rparr>"

definition b_id :: "FailureId \<Rightarrow> FailureRecordBuilder \<Rightarrow> FailureRecordBuilder" where
  [ff_defs]: "b_id v b = b\<lparr>fb_r := (fb_r b)\<lparr>fr_failure_id := v\<rparr>\<rparr>"

definition b_failure_class :: "FailureClass \<Rightarrow> FailureRecordBuilder \<Rightarrow> FailureRecordBuilder" where
  [ff_defs]: "b_failure_class v b = b\<lparr>fb_r := (fb_r b)\<lparr>fr_failure_class := v\<rparr>\<rparr>"

definition b_origin :: "FailureOrigin \<Rightarrow> FailureRecordBuilder \<Rightarrow> FailureRecordBuilder" where
  [ff_defs]: "b_origin v b = b\<lparr>fb_r := (fb_r b)\<lparr>fr_origin := v\<rparr>\<rparr>"

definition b_code :: "u32 \<Rightarrow> FailureRecordBuilder \<Rightarrow> FailureRecordBuilder" where
  [ff_defs]: "b_code v b = b\<lparr>fb_r := (fb_r b)\<lparr>fr_failure_code := v\<rparr>\<rparr>"

definition b_summary :: "string \<Rightarrow> FailureRecordBuilder \<Rightarrow> FailureRecordBuilder" where
  [ff_defs]: "b_summary v b = b\<lparr>fb_r := (fb_r b)\<lparr>fr_summary := v\<rparr>\<rparr>"

definition b_reason :: "string \<Rightarrow> FailureRecordBuilder \<Rightarrow> FailureRecordBuilder" where
  [ff_defs]: "b_reason v b = b\<lparr>fb_r := (fb_r b)\<lparr>fr_reason := v\<rparr>\<rparr>"

definition b_phase :: "FailurePhase \<Rightarrow> FailureRecordBuilder \<Rightarrow> FailureRecordBuilder" where
  [ff_defs]: "b_phase v b = b\<lparr>fb_r := (fb_r b)\<lparr>fr_phase := v\<rparr>\<rparr>"

definition b_timestamp :: "u64 \<Rightarrow> FailureRecordBuilder \<Rightarrow> FailureRecordBuilder" where
  [ff_defs]: "b_timestamp v b = b\<lparr>fb_r := (fb_r b)\<lparr>fr_timestamp_ms := v\<rparr>\<rparr>"

definition b_completion :: "Ambiguity \<Rightarrow> FailureRecordBuilder \<Rightarrow> FailureRecordBuilder" where
  [ff_defs]: "b_completion v b = b\<lparr>fb_r := (fb_r b)\<lparr>fr_completion := v\<rparr>\<rparr>"

definition b_side_effect_state :: "SideEffectState \<Rightarrow> FailureRecordBuilder \<Rightarrow> FailureRecordBuilder" where
  [ff_defs]: "b_side_effect_state v b = b\<lparr>fb_r := (fb_r b)\<lparr>fr_side_effect_state := v\<rparr>\<rparr>"

definition b_unknown_side_effects :: "u32 \<Rightarrow> FailureRecordBuilder \<Rightarrow> FailureRecordBuilder" where
  [ff_defs]: "b_unknown_side_effects v b = b\<lparr>fb_r := (fb_r b)\<lparr>fr_unknown_side_effects := v\<rparr>\<rparr>"

definition b_authority :: "AuthorityEnvelope \<Rightarrow> FailureRecordBuilder \<Rightarrow> FailureRecordBuilder" where
  [ff_defs]: "b_authority v b = b\<lparr>fb_r := (fb_r b)\<lparr>fr_authority := v\<rparr>\<rparr>"

definition b_retryability :: "Retryability \<Rightarrow> FailureRecordBuilder \<Rightarrow> FailureRecordBuilder" where
  [ff_defs]: "b_retryability v b = b\<lparr>fb_r := (fb_r b)\<lparr>fr_retryability := v\<rparr>, fb_retry_set := True\<rparr>"

definition b_rollback :: "RollbackRequirement \<Rightarrow> FailureRecordBuilder \<Rightarrow> FailureRecordBuilder" where
  [ff_defs]: "b_rollback v b = b\<lparr>fb_r := (fb_r b)\<lparr>fr_rollback := v\<rparr>, fb_rollback_set := True\<rparr>"

definition b_compensation :: "CompensationRequirement \<Rightarrow> FailureRecordBuilder \<Rightarrow> FailureRecordBuilder" where
  [ff_defs]: "b_compensation v b = b\<lparr>fb_r := (fb_r b)\<lparr>fr_compensation := v\<rparr>, fb_comp_set := True\<rparr>"

definition b_terminality :: "Terminality \<Rightarrow> FailureRecordBuilder \<Rightarrow> FailureRecordBuilder" where
  [ff_defs]: "b_terminality v b = b\<lparr>fb_r := (fb_r b)\<lparr>fr_terminality := v\<rparr>, fb_term_set := True\<rparr>"

definition b_recovery_owner :: "RecoveryOwner \<Rightarrow> FailureRecordBuilder \<Rightarrow> FailureRecordBuilder" where
  [ff_defs]: "b_recovery_owner v b = b\<lparr>fb_r := (fb_r b)\<lparr>fr_recovery_owner := v\<rparr>\<rparr>"

definition b_provenance :: "Provenance \<Rightarrow> FailureRecordBuilder \<Rightarrow> FailureRecordBuilder" where
  [ff_defs]: "b_provenance v b = b\<lparr>fb_r := (fb_r b)\<lparr>fr_provenance := v\<rparr>\<rparr>"

definition b_causal_parent :: "FailureId \<Rightarrow> FailureRecordBuilder \<Rightarrow> FailureRecordBuilder" where
  [ff_defs]: "b_causal_parent v b = b\<lparr>fb_r := (fb_r b)\<lparr>fr_causal_parent := v\<rparr>\<rparr>"

definition b_dependency :: "FailureId \<Rightarrow> FailureRecordBuilder \<Rightarrow> FailureRecordBuilder" where
  [ff_defs]: "b_dependency v b =
     b\<lparr>fb_r := (fb_r b)\<lparr>fr_dependencies := fr_dependencies (fb_r b) @ [v]\<rparr>\<rparr>"

definition derive_defaults :: "FailureRecordBuilder \<Rightarrow> FailureRecordBuilder" where
  "derive_defaults b = b\<lparr>fb_r := derive_dimensions (fb_r b)\<rparr>"

text \<open>
  \<open>build\<close> draws a fresh identity from the engine only when none was set; it returns the
  record and the engine state.
\<close>

definition build :: "('g \<Rightarrow> u64 \<times> 'g) \<Rightarrow> FailureRecordBuilder \<Rightarrow> 'g \<Rightarrow> FailureRecord \<times> 'g" where
  "build draw b g =
     (let out = fb_r b;
          d = dims_for (fr_failure_class out);
          out = (if \<not> fb_retry_set b \<and> fr_retryability out = Retryability.UNKNOWN
                 then out\<lparr>fr_retryability := dim_retry d\<rparr> else out);
          out = (if \<not> fb_rollback_set b \<and> fr_rollback out = RollbackRequirement.NONE
                 then out\<lparr>fr_rollback := dim_rollback d\<rparr> else out);
          out = (if \<not> fb_comp_set b \<and> fr_compensation out = CompensationRequirement.NONE
                 then out\<lparr>fr_compensation := dim_comp d\<rparr> else out);
          out = (if \<not> fb_term_set b \<and> fr_terminality out = Terminality.UNKNOWN
                 then out\<lparr>fr_terminality := dim_term d\<rparr> else out)
      in if is_null (fr_failure_id out)
         then let (fid, g') = Id_generate draw g in (out\<lparr>fr_failure_id := fid\<rparr>, g')
         else (out, g))"

subsection \<open>Lemmas\<close>

lemma dims_sel [simp]:
  "dim_retry (dims r b c t) = r" "dim_rollback (dims r b c t) = b"
  "dim_comp (dims r b c t) = c" "dim_term (dims r b c t) = t"
  by (simp_all add: dims_def)

text \<open>The record \<open>build\<close> returns, field by field.\<close>

lemma build_eq:
  "fst (build draw b g) = (let r = fb_r b; d = dims_for (fr_failure_class r) in
     r\<lparr>fr_failure_id :=
          (if is_null (fr_failure_id r) then fst (Id_generate draw g) else fr_failure_id r),
       fr_retryability :=
          (if \<not> fb_retry_set b \<and> fr_retryability r = Retryability.UNKNOWN
           then dim_retry d else fr_retryability r),
       fr_rollback :=
          (if \<not> fb_rollback_set b \<and> fr_rollback r = RollbackRequirement.NONE
           then dim_rollback d else fr_rollback r),
       fr_compensation :=
          (if \<not> fb_comp_set b \<and> fr_compensation r = CompensationRequirement.NONE
           then dim_comp d else fr_compensation r),
       fr_terminality :=
          (if \<not> fb_term_set b \<and> fr_terminality r = Terminality.UNKNOWN
           then dim_term d else fr_terminality r)\<rparr>)"
  unfolding build_def Let_def by (cases "fb_r b") (simp add: case_prod_beta)

lemma derive_dimensions_eq:
  "derive_dimensions r = (let d = dims_for (fr_failure_class r) in
     r\<lparr>fr_retryability :=
          (if fr_retryability r = Retryability.UNKNOWN then dim_retry d else fr_retryability r),
       fr_rollback :=
          (if fr_rollback r = RollbackRequirement.NONE then dim_rollback d else fr_rollback r),
       fr_compensation :=
          (if fr_compensation r = CompensationRequirement.NONE then dim_comp d
           else fr_compensation r),
       fr_terminality :=
          (if fr_terminality r = Terminality.UNKNOWN then dim_term d else fr_terminality r)\<rparr>)"
  unfolding derive_dimensions_def Let_def by (cases r) simp

lemma build_id_not_null: "\<not> is_null (fr_failure_id (fst (build draw b g)))"
  by (simp add: build_eq Let_def Id_generate_not_null)

lemma build_other [simp]:
  "fr_failure_class (fst (build draw b g)) = fr_failure_class (fb_r b)"
  "fr_operation (fst (build draw b g)) = fr_operation (fb_r b)"
  "fr_attempt (fst (build draw b g)) = fr_attempt (fb_r b)"
  "fr_authority (fst (build draw b g)) = fr_authority (fb_r b)"
  "fr_summary (fst (build draw b g)) = fr_summary (fb_r b)"
  "fr_reason (fst (build draw b g)) = fr_reason (fb_r b)"
  "fr_dependencies (fst (build draw b g)) = fr_dependencies (fb_r b)"
  by (simp_all add: build_eq Let_def)

subsection \<open>Properties\<close>

text \<open>
  A built record always has an identity, keeps every dimension that was set explicitly, and takes
  the dimensions that were left open from the table for its failure class.
\<close>

lemma build_derives_dimensions:
  "\<not> is_null (fr_failure_id (fst (build draw b g))) \<and>
   fr_retryability (fst (build draw b g)) =
     (if fb_retry_set b \<or> fr_retryability (fb_r b) \<noteq> Retryability.UNKNOWN
      then fr_retryability (fb_r b) else dim_retry (dims_for (fr_failure_class (fb_r b)))) \<and>
   fr_rollback (fst (build draw b g)) =
     (if fb_rollback_set b \<or> fr_rollback (fb_r b) \<noteq> RollbackRequirement.NONE
      then fr_rollback (fb_r b) else dim_rollback (dims_for (fr_failure_class (fb_r b)))) \<and>
   fr_compensation (fst (build draw b g)) =
     (if fb_comp_set b \<or> fr_compensation (fb_r b) \<noteq> CompensationRequirement.NONE
      then fr_compensation (fb_r b) else dim_comp (dims_for (fr_failure_class (fb_r b)))) \<and>
   fr_terminality (fst (build draw b g)) =
     (if fb_term_set b \<or> fr_terminality (fb_r b) \<noteq> Terminality.UNKNOWN
      then fr_terminality (fb_r b) else dim_term (dims_for (fr_failure_class (fb_r b))))"
  by (simp add: build_id_not_null) (simp add: build_eq Let_def)

end
