(* ===== verification/FF_Persistence.thy ===== *)
theory FF_Persistence
  imports FF_Failure_Record "HOL-Library.State_Monad"
begin

text \<open>
  The binary codec (\<open>include/failure_fabric/persistence.hpp\<close>, \<open>src/persistence.cpp\<close>): the
  checksum, the big-endian writer and reader, frames, and failure records. The writer is a state
  monad over its buffer, the reader one over its position and its sticky \<open>ok_\<close> flag; a decoder
  that returns false is one that returns \<open>None\<close>. Sizes and offsets (\<open>size_t\<close>) are naturals.
\<close>

subsection \<open>Checksum and byte order\<close>

definition kFFMagic :: u32 where "kFFMagic = 0x46464600"

definition kFFVersion :: u16 where "kFFVersion = 1"

definition fnv_step :: "u64 \<Rightarrow> byte \<Rightarrow> u64" where
  "fnv_step h b = (h XOR ucast b) * 1099511628211"

definition fnv1a64 :: "byte list \<Rightarrow> u64" where
  "fnv1a64 data = foldl fnv_step 1469598103934665603 data"

text \<open>The bytes a big-endian put appends, for an integer of \<open>k\<close> bytes.\<close>

definition be_bytes :: "nat \<Rightarrow> 'a::len word \<Rightarrow> byte list" where
  "be_bytes k x = map (\<lambda>i. ucast (drop_bit (i * 8) x AND 0xFF)) (rev [0..<k])"

definition put_be64 :: "byte list \<Rightarrow> u64 \<Rightarrow> byte list" where
  "put_be64 v x = v @ be_bytes 8 x"

definition put_be32 :: "byte list \<Rightarrow> u32 \<Rightarrow> byte list" where
  "put_be32 v x = v @ be_bytes 4 x"

definition put_be16 :: "byte list \<Rightarrow> u16 \<Rightarrow> byte list" where
  "put_be16 v x = v @ be_bytes 2 x"

definition get_be64 :: "byte list \<Rightarrow> u64" where
  "get_be64 p = foldl (\<lambda>x b. push_bit 8 x OR ucast b) 0 (take 8 p)"

definition get_be32 :: "byte list \<Rightarrow> u32" where
  "get_be32 p = foldl (\<lambda>x b. push_bit 8 x OR ucast b) 0 (take 4 p)"

definition get_be16 :: "byte list \<Rightarrow> u16" where
  "get_be16 p = foldl (\<lambda>x b. push_bit 8 x OR ucast b) 0 (take 2 p)"

text \<open>\<open>std::string\<close> data viewed as bytes and back.\<close>

definition char_byte :: "char \<Rightarrow> byte" where
  "char_byte c = word_of_nat (of_char c)"

definition byte_char :: "byte \<Rightarrow> char" where
  "byte_char b = char_of (unat b)"

subsection \<open>Writer\<close>

type_synonym 'a writer = "(byte list, 'a) state"

definition w_put :: "byte list \<Rightarrow> unit writer" where
  "w_put bs = State (\<lambda>buf. ((), buf @ bs))"

definition w_u8 :: "byte \<Rightarrow> unit writer" where
  "w_u8 v = State (\<lambda>buf. ((), buf @ [v]))"

definition w_u16 :: "u16 \<Rightarrow> unit writer" where
  "w_u16 v = State (\<lambda>buf. ((), put_be16 buf v))"

definition w_u32 :: "u32 \<Rightarrow> unit writer" where
  "w_u32 v = State (\<lambda>buf. ((), put_be32 buf v))"

definition w_u64 :: "u64 \<Rightarrow> unit writer" where
  "w_u64 v = State (\<lambda>buf. ((), put_be64 buf v))"

definition w_str16 :: "string \<Rightarrow> unit writer" where
  "w_str16 s =
     (if length s > 0xFFFF then w_u16 0
      else do { w_u16 (word_of_nat (length s)); w_put (map char_byte s) })"

definition w_uuid :: "uuid128 \<Rightarrow> unit writer" where
  "w_uuid u = w_put (bytes u)"

definition w_generation :: "Generation \<Rightarrow> unit writer" where
  "w_generation g = w_u64 (gen_value g)"

definition w_enumv :: "u32 \<Rightarrow> unit writer" where
  "w_enumv v = w_u32 v"

text \<open>The buffer of a fresh writer after a sequence of writes.\<close>

definition buffer :: "unit writer \<Rightarrow> byte list" where
  "buffer w = snd (run_state w [])"

subsection \<open>Reader\<close>

record BinaryReader =
  br_data :: "byte list"
  br_pos :: nat
  br_ok :: bool

type_synonym 'a reader = "(BinaryReader, 'a) state"

definition new_reader :: "byte list \<Rightarrow> BinaryReader" where
  "new_reader data = \<lparr>br_data = data, br_pos = 0, br_ok = True\<rparr>"

definition br_remaining :: "BinaryReader \<Rightarrow> nat" where
  "br_remaining r = length (br_data r) - br_pos r"

definition r_ok :: "bool reader" where
  "r_ok = State (\<lambda>r. (br_ok r, r))"

definition r_need :: "nat \<Rightarrow> bool reader" where
  "r_need n = State (\<lambda>r.
     if br_pos r + n > length (br_data r) then (False, r\<lparr>br_ok := False\<rparr>) else (True, r))"

text \<open>The bytes at the position, and the position moved past them.\<close>

definition r_take :: "nat \<Rightarrow> byte list reader" where
  "r_take n = State (\<lambda>r. (take n (drop (br_pos r) (br_data r)), r\<lparr>br_pos := br_pos r + n\<rparr>))"

definition r_u8 :: "byte reader" where
  "r_u8 = do {
     enough \<leftarrow> r_need 1;
     if \<not> enough then State_Monad.return 0
     else do { bs \<leftarrow> r_take 1; State_Monad.return (bs ! 0) } }"

definition r_u16 :: "u16 reader" where
  "r_u16 = do {
     enough \<leftarrow> r_need 2;
     if \<not> enough then State_Monad.return 0
     else do { bs \<leftarrow> r_take 2; State_Monad.return (get_be16 bs) } }"

definition r_u32 :: "u32 reader" where
  "r_u32 = do {
     enough \<leftarrow> r_need 4;
     if \<not> enough then State_Monad.return 0
     else do { bs \<leftarrow> r_take 4; State_Monad.return (get_be32 bs) } }"

definition r_u64 :: "u64 reader" where
  "r_u64 = do {
     enough \<leftarrow> r_need 8;
     if \<not> enough then State_Monad.return 0
     else do { bs \<leftarrow> r_take 8; State_Monad.return (get_be64 bs) } }"

definition r_str16 :: "string reader" where
  "r_str16 = do {
     len \<leftarrow> r_u16;
     r \<leftarrow> State_Monad.get;
     if \<not> br_ok r \<or> br_pos r + unat len > length (br_data r)
     then do { State_Monad.set (r\<lparr>br_ok := False\<rparr>); State_Monad.return [] }
     else do { bs \<leftarrow> r_take (unat len); State_Monad.return (map byte_char bs) } }"

definition r_uuid :: "uuid128 reader" where
  "r_uuid = do {
     enough \<leftarrow> r_need 16;
     if \<not> enough then State_Monad.return uuid_zero
     else do { bs \<leftarrow> r_take 16; State_Monad.return (uuid_of_bytes bs) } }"

definition r_generation :: "Generation reader" where
  "r_generation = do { v \<leftarrow> r_u64; State_Monad.return (Generation v) }"

definition r_enumv :: "u32 reader" where
  "r_enumv = r_u32"

definition r_id :: "'tag Id reader" where
  "r_id = do { u \<leftarrow> r_uuid; State_Monad.return (ID u) }"

subsection \<open>Frames\<close>

record FrameHeader =
  fh_kind :: byte
  fh_payload :: "byte list"
  fh_checksum :: u64

definition encode_frame :: "byte \<Rightarrow> byte list \<Rightarrow> byte list" where
  "encode_frame kind payload =
    (let body = buffer (do {
           w_u32 kFFMagic; w_u16 kFFVersion; w_u8 kind;
           w_u32 (word_of_nat (length payload)); w_put payload });
         ck = fnv1a64 body
     in buffer (do { w_put body; w_u64 ck }))"

text \<open>
  \<open>decode_frame\<close> returns the header and the offset of the next frame. The frame header is 11 bytes
  long: magic, version, kind and payload length.
\<close>

definition decode_frame :: "byte list \<Rightarrow> nat \<Rightarrow> (FrameHeader \<times> nat) option" where
  "decode_frame data offset =
    (if offset + 11 > length data then None
     else
       let (magic, r) = run_state r_u32 (new_reader (drop offset data)) in
       if \<not> br_ok r \<or> magic \<noteq> kFFMagic then None
       else
         let (ver, r) = run_state r_u16 r in
         if \<not> br_ok r \<or> ver \<noteq> kFFVersion then None
         else
           let (kind, r) = run_state r_u8 r;
               (len, r) = run_state r_u32 r in
           if \<not> br_ok r then None
           else if unat len > br_remaining r then None
           else
             let payloadStart = offset + 11 in
             if payloadStart + unat len + 8 > length data then None
             else
               let payload = take (unat len) (drop payloadStart data);
                   storedCk = get_be64 (drop (payloadStart + unat len) data);
                   ck = fnv1a64 (take (11 + unat len) (drop offset data))
               in if ck \<noteq> storedCk then None
                  else Some (\<lparr>fh_kind = kind, fh_payload = payload, fh_checksum = storedCk\<rparr>,
                             payloadStart + unat len + 8))"

subsection \<open>Failure records\<close>

definition validate_authority :: "AuthorityEnvelope \<Rightarrow> bool" where
  "validate_authority e =
     (if \<not> is_null (ae_attempt e) \<and> gen_is_unset (ae_attempt_generation e) then False
      else if \<not> is_null (ae_worker_boot e) \<and> gen_is_unset (ae_coordinator_epoch e) then False
      else True)"

fun w_deps :: "FailureId list \<Rightarrow> unit writer" where
  "w_deps [] = State_Monad.return ()"
| "w_deps (d # ds) = do { w_uuid (raw d); w_deps ds }"

fun r_deps :: "nat \<Rightarrow> FailureId list reader" where
  "r_deps 0 = State_Monad.return []"
| "r_deps (Suc n) = do { d \<leftarrow> r_id; ds \<leftarrow> r_deps n; State_Monad.return (d # ds) }"

text \<open>An enumerator is read as its 32-bit value and rejected when it is out of range.\<close>

definition r_enum_below :: "u32 \<Rightarrow> (u32 \<Rightarrow> 'a option reader) \<Rightarrow> 'a option reader" where
  "r_enum_below n k = do {
     v \<leftarrow> r_enumv;
     ok \<leftarrow> r_ok;
     if \<not> ok \<or> v \<ge> n then State_Monad.return None else k v }"

definition encode_failure_record :: "FailureRecord \<Rightarrow> unit writer" where
  "encode_failure_record r = do {
     w_uuid (raw (fr_failure_id r)); w_uuid (raw (fr_operation r)); w_uuid (raw (fr_request r));
     w_uuid (raw (fr_workload r)); w_uuid (raw (fr_attempt r)); w_uuid (raw (fr_dispatch r));
     w_uuid (raw (fr_worker r)); w_uuid (raw (fr_node r)); w_uuid (raw (fr_device r));
     w_enumv (enum_u32 FailureClass_vals (fr_failure_class r));
     w_enumv (enum_u32 FailureOrigin_vals (fr_origin r));
     w_u32 (fr_failure_code r); w_str16 (fr_summary r); w_str16 (fr_reason r);
     w_enumv (enum_u32 FailurePhase_vals (fr_phase r));
     w_u64 (fr_timestamp_ms r);
     w_enumv (enum_u32 Ambiguity_vals (fr_completion r));
     w_enumv (enum_u32 SideEffectState_vals (fr_side_effect_state r));
     w_u32 (fr_unknown_side_effects r);
     w_generation (ae_coordinator_epoch (fr_authority r));
     w_uuid (raw (ae_worker_boot (fr_authority r)));
     w_uuid (raw (ae_attempt (fr_authority r)));
     w_uuid (raw (ae_dispatch (fr_authority r)));
     w_generation (ae_attempt_generation (fr_authority r));
     w_generation (ae_operation_generation (fr_authority r));
     w_generation (ae_failure_generation (fr_authority r));
     w_generation (ae_recovery_generation (fr_authority r));
     w_enumv (enum_u32 Retryability_vals (fr_retryability r));
     w_enumv (enum_u32 RollbackRequirement_vals (fr_rollback r));
     w_enumv (enum_u32 CompensationRequirement_vals (fr_compensation r));
     w_enumv (enum_u32 Terminality_vals (fr_terminality r));
     w_enumv (enum_u32 RecoveryOwner_vals (fr_recovery_owner r));
     w_enumv (enum_u32 Provenance_vals (fr_provenance r));
     w_uuid (raw (fr_causal_parent r));
     w_u32 (word_of_nat (length (fr_dependencies r)));
     w_deps (fr_dependencies r) }"

definition decode_failure_record :: "FailureRecord option reader" where
  "decode_failure_record = do {
     ok \<leftarrow> r_ok;
     if \<not> ok then State_Monad.return None else do {
     failure_id \<leftarrow> r_id; operation \<leftarrow> r_id; request \<leftarrow> r_id; workload \<leftarrow> r_id;
     attempt \<leftarrow> r_id; dispatch \<leftarrow> r_id; worker \<leftarrow> r_id; node \<leftarrow> r_id; device \<leftarrow> r_id;
     fc \<leftarrow> r_enumv; fo \<leftarrow> r_enumv;
     ok \<leftarrow> r_ok;
     if \<not> ok then State_Monad.return None
     else if fc \<ge> 23 \<or> fo \<ge> 11 then State_Monad.return None else do {
     failure_code \<leftarrow> r_u32; summary \<leftarrow> r_str16; reason \<leftarrow> r_str16;
     r_enum_below 10 (\<lambda>ph. do {
     timestamp_ms \<leftarrow> r_u64;
     r_enum_below 4 (\<lambda>cmp. r_enum_below 5 (\<lambda>ses. do {
     unknown_side_effects \<leftarrow> r_u32;
     coordinator_epoch \<leftarrow> r_generation; worker_boot \<leftarrow> r_id; auth_attempt \<leftarrow> r_id;
     auth_dispatch \<leftarrow> r_id; attempt_generation \<leftarrow> r_generation;
     operation_generation \<leftarrow> r_generation; failure_generation \<leftarrow> r_generation;
     recovery_generation \<leftarrow> r_generation;
     r_enum_below 4 (\<lambda>ret. r_enum_below 4 (\<lambda>rb. r_enum_below 3 (\<lambda>cp. r_enum_below 4 (\<lambda>tm.
     r_enum_below 9 (\<lambda>ro. r_enum_below 7 (\<lambda>pr. do {
     causal_parent \<leftarrow> r_id; ndeps \<leftarrow> r_u32;
     ok \<leftarrow> r_ok;
     if \<not> ok then State_Monad.return None
     else if ndeps > 4096 then State_Monad.return None else do {
     deps \<leftarrow> r_deps (unat ndeps);
     ok \<leftarrow> r_ok;
     State_Monad.return (
       let authority = \<lparr>ae_coordinator_epoch = coordinator_epoch, ae_worker_boot = worker_boot,
             ae_attempt = auth_attempt, ae_attempt_generation = attempt_generation,
             ae_dispatch = auth_dispatch, ae_operation_generation = operation_generation,
             ae_failure_generation = failure_generation,
             ae_recovery_generation = recovery_generation\<rparr>
       in if \<not> ok then None
          else if \<not> validate_authority authority then None
          else Some \<lparr>fr_failure_id = failure_id, fr_operation = operation, fr_request = request,
            fr_workload = workload, fr_attempt = attempt, fr_dispatch = dispatch,
            fr_worker = worker, fr_node = node, fr_device = device,
            fr_failure_class = enum_at FailureClass_vals fc,
            fr_origin = enum_at FailureOrigin_vals fo, fr_failure_code = failure_code,
            fr_summary = summary, fr_reason = reason, fr_phase = enum_at FailurePhase_vals ph,
            fr_timestamp_ms = timestamp_ms, fr_completion = enum_at Ambiguity_vals cmp,
            fr_side_effect_state = enum_at SideEffectState_vals ses,
            fr_unknown_side_effects = unknown_side_effects, fr_authority = authority,
            fr_retryability = enum_at Retryability_vals ret,
            fr_rollback = enum_at RollbackRequirement_vals rb,
            fr_compensation = enum_at CompensationRequirement_vals cp,
            fr_terminality = enum_at Terminality_vals tm,
            fr_recovery_owner = enum_at RecoveryOwner_vals ro,
            fr_provenance = enum_at Provenance_vals pr, fr_causal_parent = causal_parent,
            fr_dependencies = deps\<rparr>) }}))))))}))})}}}"

subsection \<open>Byte order round trips\<close>

lemma length_be_bytes [simp]: "length (be_bytes k x) = k"
  by (simp add: be_bytes_def)

lemma be_bytes_0 [simp]: "be_bytes 0 x = []"
  by (simp add: be_bytes_def)

lemma be_bytes_Suc: "be_bytes (Suc k) x = ucast (drop_bit (k * 8) x AND 0xFF) # be_bytes k x"
  by (simp add: be_bytes_def)

lemma byte_mask: "ucast (ucast (y AND 0xFF :: 'a::len word) :: byte) = (take_bit 8 y :: 'a word)"
proof -
  have m: "(0xFF :: 'a word) = mask 8" by (simp add: mask_eq_exp_minus_1)
  show ?thesis unfolding m by (rule bit_word_eqI) (auto simp: bit_simps)
qed

lemma foldl_be_bytes:
  "foldl (\<lambda>x b. push_bit 8 x OR ucast b) acc (be_bytes k x) =
    (push_bit (k * 8) acc OR take_bit (k * 8) x :: 'a::len word)"
proof (induction k arbitrary: acc)
  case (Suc k)
  have "push_bit (k * 8) (push_bit 8 acc OR take_bit 8 (drop_bit (k * 8) x)) OR take_bit (k * 8) x =
      push_bit (Suc k * 8) acc OR take_bit (Suc k * 8) x"
    by (rule bit_word_eqI) (auto simp: bit_simps add.commute)
  then show ?case using Suc by (simp add: be_bytes_Suc byte_mask)
qed simp

lemma get_put_be64 [simp]: "get_be64 (be_bytes 8 x @ rest) = x"
  by (simp add: get_be64_def foldl_be_bytes take_bit_word_eq_self)

lemma get_put_be32 [simp]: "get_be32 (be_bytes 4 x @ rest) = x"
  by (simp add: get_be32_def foldl_be_bytes take_bit_word_eq_self)

lemma get_put_be16 [simp]: "get_be16 (be_bytes 2 x @ rest) = x"
  by (simp add: get_be16_def foldl_be_bytes take_bit_word_eq_self)

lemma byte_char_byte [simp]: "byte_char (char_byte c) = c"
proof -
  have "of_char c < (2 :: nat) ^ 8" by (simp add: of_char_def)
  then show ?thesis
    by (simp add: byte_char_def char_byte_def unsigned_of_nat take_bit_nat_eq_self)
qed

lemma map_byte_char [simp]: "map byte_char (map char_byte s) = s"
  by (simp add: map_idI)

subsection \<open>What a writer appends\<close>

text \<open>\<open>writes w bs\<close>: the writer appends exactly the bytes \<open>bs\<close>, whatever is in the buffer.\<close>

definition writes :: "unit writer \<Rightarrow> byte list \<Rightarrow> bool" where
  "writes w bs \<longleftrightarrow> (\<forall>buf. run_state w buf = ((), buf @ bs))"

lemma writes_bind [writer_rules]:
  "writes v bs \<Longrightarrow> writes w cs \<Longrightarrow> writes (v \<bind> (\<lambda>_. w)) (bs @ cs)"
  by (simp add: writes_def)

lemma writes_return [writer_rules]: "writes (State_Monad.return ()) []"
  by (simp add: writes_def)

lemma buffer_writes: "writes w bs \<Longrightarrow> buffer w = bs"
  by (simp add: writes_def buffer_def)

definition str16_bytes :: "string \<Rightarrow> byte list" where
  "str16_bytes s = (if length s > 0xFFFF then be_bytes 2 (0 :: u16)
     else be_bytes 2 (word_of_nat (length s) :: u16) @ map char_byte s)"

lemma writes_basic [writer_rules]:
  "writes (w_put bs) bs" "writes (w_u8 b) [b]" "writes (w_u16 h) (be_bytes 2 h)"
  "writes (w_u32 v) (be_bytes 4 v)" "writes (w_u64 x) (be_bytes 8 x)"
  "writes (w_str16 s) (str16_bytes s)" "writes (w_uuid u) (bytes u)"
  "writes (w_generation g) (be_bytes 8 (gen_value g))" "writes (w_enumv v) (be_bytes 4 v)"
  by (simp_all add: writes_def w_put_def w_u8_def w_u16_def w_u32_def w_u64_def w_str16_def
      w_uuid_def w_generation_def w_enumv_def put_be16_def put_be32_def put_be64_def
      str16_bytes_def)

lemma writes_deps [writer_rules]: "writes (w_deps ds) (concat (map (bytes \<circ> raw) ds))"
  by (induction ds) (auto intro: writer_rules)

text \<open>An upper bound on what a writer appends.\<close>

definition writes_within :: "unit writer \<Rightarrow> nat \<Rightarrow> bool" where
  "writes_within w n \<longleftrightarrow> (\<exists>bs. writes w bs \<and> length bs \<le> n)"

lemma within_bind: "writes_within v m \<Longrightarrow> writes_within w n \<Longrightarrow> writes_within (v \<bind> (\<lambda>_. w)) (m + n)"
  unfolding writes_within_def by (metis add_mono length_append writes_bind)

lemma within_basic:
  "writes_within (w_u8 b) 1" "writes_within (w_u16 h) 2" "writes_within (w_u32 v) 4"
  "writes_within (w_u64 x) 8" "writes_within (w_str16 s) 65537" "writes_within (w_uuid u) 16"
  "writes_within (w_generation g) 8" "writes_within (w_enumv v) 4"
proof -
  have "length (str16_bytes s) \<le> 65537" by (simp add: str16_bytes_def)
  then show "writes_within (w_str16 s) 65537" unfolding writes_within_def using writes_basic by blast
qed (auto simp: writes_within_def intro!: exI writes_basic)

lemma within_deps: "length ds \<le> n \<Longrightarrow> writes_within (w_deps ds) (16 * n)"
proof -
  have "length (concat (map (bytes \<circ> raw) ds)) = 16 * length ds" by (induction ds) simp_all
  then show "length ds \<le> n \<Longrightarrow> writes_within (w_deps ds) (16 * n)"
    unfolding writes_within_def using writes_deps [of ds] by (intro exI conjI) auto
qed

lemma within_buffer: "writes_within w n \<Longrightarrow> n < 2 ^ 32 \<Longrightarrow> length (buffer w) < 2 ^ 32"
  by (auto simp: writes_within_def buffer_writes)

subsection \<open>What a reader reads\<close>

text \<open>
  \<open>at_input pre rest\<close> is a reader in good state between \<open>pre\<close> and \<open>rest\<close>; \<open>reads m bs x\<close>
  says that from there the reader consumes exactly \<open>bs\<close>, yields \<open>x\<close> and stays in good state.
\<close>

definition at_input :: "byte list \<Rightarrow> byte list \<Rightarrow> BinaryReader" where
  "at_input pre rest = \<lparr>br_data = pre @ rest, br_pos = length pre, br_ok = True\<rparr>"

definition reads :: "'a reader \<Rightarrow> byte list \<Rightarrow> 'a \<Rightarrow> bool" where
  "reads m bs x \<longleftrightarrow>
     (\<forall>pre rest. run_state m (at_input pre (bs @ rest)) = (x, at_input (pre @ bs) rest))"

lemma new_reader_at: "new_reader data = at_input [] data"
  by (simp add: new_reader_def at_input_def)

lemma at_input_sel [simp]:
  "br_ok (at_input pre rest)" "br_remaining (at_input pre rest) = length rest"
  "br_pos (at_input pre rest) = length pre" "br_data (at_input pre rest) = pre @ rest"
  by (simp_all add: at_input_def br_remaining_def)

lemma readsD: "reads m bs x \<Longrightarrow> run_state m (at_input pre (bs @ rest)) = (x, at_input (pre @ bs) rest)"
  by (simp add: reads_def)

lemma reads_all: "reads m bs x \<Longrightarrow> run_state m (new_reader bs) = (x, at_input bs [])"
  using readsD [of m bs x "[]" "[]"] by (simp add: new_reader_at)

lemma reads_bind:
  "reads m bs x \<Longrightarrow> reads (f x) cs y \<Longrightarrow> reads (m \<bind> f) (bs @ cs) y"
  by (simp add: reads_def)

lemma reads_return: "x = y \<Longrightarrow> reads (State_Monad.return x) [] y"
  by (simp add: reads_def)

lemma reads_take: "length bs = n \<Longrightarrow> reads (r_take n) bs bs"
  by (auto simp: reads_def r_take_def at_input_def)

lemma reads_need: "length bs = n \<Longrightarrow> reads (m True) bs x \<Longrightarrow> reads (r_need n \<bind> m) bs x"
  by (simp add: reads_def r_need_def at_input_def)

lemma reads_fixed:
  "length bs = n \<Longrightarrow> f bs = x \<Longrightarrow>
    reads (do { enough \<leftarrow> r_need n;
      if \<not> enough then State_Monad.return z
      else do { bs \<leftarrow> r_take n; State_Monad.return (f bs) } }) bs x"
  using reads_bind [OF reads_take [of bs n] reads_return, of f x] by (auto intro: reads_need)

text \<open>
  The contract of a codec: an encoding and a reader that takes back every valid value. Clients get
  that no encoding is a proper prefix of another, and the reading of lists.
\<close>

locale codec =
  fixes enc :: "'a \<Rightarrow> byte list"
    and rd :: "'a reader"
    and valid :: "'a \<Rightarrow> bool"
  assumes rd_enc: "valid x \<Longrightarrow> reads rd (enc x) x"
begin

lemma enc_prefix_free:
  assumes "valid x" "valid y" "enc x @ rest = enc y @ rest'"
  shows "x = y \<and> rest = rest'"
proof -
  have "run_state rd (at_input [] (enc x @ rest)) = (x, at_input (enc x) rest)"
    and "run_state rd (at_input [] (enc y @ rest')) = (y, at_input (enc y) rest')"
    using readsD [OF rd_enc [OF assms(1)], of "[]" rest]
      readsD [OF rd_enc [OF assms(2)], of "[]" rest'] by simp_all
  then have "x = y" "at_input (enc x) rest = at_input (enc y) rest'" using assms(3) by simp_all
  then show ?thesis by (simp add: at_input_def)
qed

lemma enc_inject: "valid x \<Longrightarrow> valid y \<Longrightarrow> enc x = enc y \<Longrightarrow> x = y"
  using enc_prefix_free [of x y "[]" "[]"] by simp

end

lemma reads_u8: "reads r_u8 [b] b"
  unfolding r_u8_def by (rule reads_fixed) simp_all

interpretation codec_u16: codec "be_bytes 2" r_u16 "\<lambda>_. True"
  by unfold_locales (simp add: r_u16_def reads_fixed get_put_be16 [where rest = "[]", simplified])

interpretation codec_u32: codec "be_bytes 4" r_u32 "\<lambda>_. True"
  by unfold_locales (simp add: r_u32_def reads_fixed get_put_be32 [where rest = "[]", simplified])

interpretation codec_u64: codec "be_bytes 8" r_u64 "\<lambda>_. True"
  by unfold_locales (simp add: r_u64_def reads_fixed get_put_be64 [where rest = "[]", simplified])

interpretation codec_uuid: codec bytes r_uuid "\<lambda>_. True"
  by unfold_locales (simp add: r_uuid_def reads_fixed)

lemmas reads_words = codec_u16.rd_enc [OF TrueI] codec_u32.rd_enc [OF TrueI]
  codec_u64.rd_enc [OF TrueI] codec_uuid.rd_enc [OF TrueI]

lemma reads_enumv: "reads r_enumv (be_bytes 4 v) v"
  unfolding r_enumv_def by (rule reads_words)

lemma reads_map: "reads m bs x \<Longrightarrow> reads (do { v \<leftarrow> m; State_Monad.return (f v) }) bs (f x)"
  by (simp add: reads_def)

lemma reads_generation: "reads r_generation (be_bytes 8 (gen_value g)) g"
  using reads_map [OF reads_words(3), of Generation "gen_value g"] by (simp add: r_generation_def)

lemma reads_id: "reads r_id (bytes (raw i)) (i :: 'tag Id)"
  using reads_map [OF reads_words(4), of "ID :: _ \<Rightarrow> 'tag Id" "raw i"] by (simp add: r_id_def)

lemma reads_ok: "reads (f True) bs x \<Longrightarrow> reads (r_ok \<bind> f) bs x"
  by (simp add: reads_def r_ok_def)

interpretation codec_str16: codec str16_bytes r_str16 "\<lambda>s. length s \<le> 0xFFFF"
proof unfold_locales
  fix s :: string
  assume s: "length s \<le> 0xFFFF"
  let ?n = "word_of_nat (length s) :: u16"
  have n: "unat ?n = length s" using s by (simp add: unsigned_of_nat take_bit_nat_eq_self)
  have "run_state r_str16 (at_input pre ((be_bytes 2 ?n @ map char_byte s) @ rest)) =
      (s, at_input (pre @ be_bytes 2 ?n @ map char_byte s) rest)" for pre rest
    using readsD [OF reads_words(1), of pre ?n "map char_byte s @ rest"]
      readsD [OF reads_take [of "map char_byte s" "length s"], of "pre @ be_bytes 2 ?n" rest]
    by (simp add: r_str16_def n del: map_map)
  then show "reads r_str16 (str16_bytes s) s"
    using s by (simp add: reads_def str16_bytes_def)
qed

lemmas reads_str16 = codec_str16.rd_enc

lemma reads_deps: "n = length ds \<Longrightarrow> reads (r_deps n) (concat (map (bytes \<circ> raw) ds)) ds"
proof (induction ds arbitrary: n)
  case (Cons d ds)
  have "reads (r_deps (Suc (length ds))) (bytes (raw d) @ concat (map (bytes \<circ> raw) ds) @ []) (d # ds)"
    unfolding r_deps.simps
    by (rule reads_bind [OF reads_id] reads_bind [OF Cons.IH [OF refl]] reads_return refl)+
  then show ?case using Cons.prems by (simp add: comp_def)
qed (simp add: reads_return)

lemma reads_enum_below:
  "reads (k v) bs y \<Longrightarrow> v < n \<Longrightarrow> reads (r_enum_below n k) (be_bytes 4 v @ bs) y"
  unfolding r_enum_below_def
  by (rule reads_bind [OF reads_enumv] reads_ok)+ (simp add: not_le [symmetric])

lemma reads_unless: "reads m bs x \<Longrightarrow> \<not> c \<Longrightarrow> reads (if c then m' else m) bs x"
  by simp

lemma reads_last:
  "reads m bs x \<Longrightarrow> f x True = y \<Longrightarrow>
    reads (do { v \<leftarrow> m; ok \<leftarrow> r_ok; State_Monad.return (f v ok) }) bs y"
  by (auto simp: reads_def r_ok_def)

lemmas reads_binds =
  reads_bind [OF reads_id] reads_bind [OF reads_enumv] reads_bind [OF reads_generation]
  reads_bind [OF reads_words(2)] reads_bind [OF reads_words(3)] reads_bind [OF reads_words(4)]
  reads_bind [OF reads_u8]

lemmas reads_steps [reader_rules] = reads_ok reads_unless reads_enum_below reads_binds

subsection \<open>Failure records survive the codec\<close>

definition failure_record_bytes :: "FailureRecord \<Rightarrow> byte list" where
  "failure_record_bytes r = buffer (encode_failure_record r)"

text \<open>
  What the format can carry: strings of at most 65535 characters, at most 4096 dependencies, and an
  authority that passes validation.
\<close>

definition persistable :: "FailureRecord \<Rightarrow> bool" where
  "persistable r \<longleftrightarrow>
     length (fr_summary r) \<le> 0xFFFF \<and> length (fr_reason r) \<le> 0xFFFF \<and>
     length (fr_dependencies r) \<le> 4096 \<and> validate_authority (fr_authority r)"

lemmas enum_bounds =
  FailureClass.u32_less FailureOrigin.u32_less FailurePhase.u32_less Ambiguity.u32_less
  SideEffectState.u32_less Retryability.u32_less RollbackRequirement.u32_less
  CompensationRequirement.u32_less Terminality.u32_less RecoveryOwner.u32_less Provenance.u32_less

lemma enum_u32_limits:
  "enum_u32 FailureClass_vals fc < 23" "enum_u32 FailureOrigin_vals fo < 11"
  "enum_u32 FailurePhase_vals ph < 10" "enum_u32 Ambiguity_vals cmp < 4"
  "enum_u32 SideEffectState_vals ses < 5" "enum_u32 Retryability_vals ret < 4"
  "enum_u32 RollbackRequirement_vals rb < 4" "enum_u32 CompensationRequirement_vals cp < 3"
  "enum_u32 Terminality_vals tm < 4" "enum_u32 RecoveryOwner_vals ro < 9"
  "enum_u32 Provenance_vals pr < 7"
  using enum_bounds by (simp_all add: word_less_nat_alt)

lemma envelope_eta:
  "\<lparr>ae_coordinator_epoch = ae_coordinator_epoch e, ae_worker_boot = ae_worker_boot e,
    ae_attempt = ae_attempt e, ae_attempt_generation = ae_attempt_generation e,
    ae_dispatch = ae_dispatch e, ae_operation_generation = ae_operation_generation e,
    ae_failure_generation = ae_failure_generation e,
    ae_recovery_generation = ae_recovery_generation e\<rparr> = (e :: AuthorityEnvelope)"
  by simp

lemma writes_failure_record:
  "writes (encode_failure_record r) (failure_record_bytes r)"
proof -
  have "\<exists>bs. writes (encode_failure_record r) bs"
    unfolding encode_failure_record_def by (rule exI) (rule writer_rules)+
  then show ?thesis unfolding failure_record_bytes_def by (auto simp: buffer_writes)
qed

lemma reads_failure_record:
  assumes "persistable r"
  shows "reads decode_failure_record (failure_record_bytes r) (Some r)"
proof -
  have p: "length (fr_summary r) \<le> 0xFFFF" "length (fr_reason r) \<le> 0xFFFF"
    "length (fr_dependencies r) \<le> 4096" "validate_authority (fr_authority r)"
    using assms by (simp_all add: persistable_def)
  have n: "unat (word_of_nat (length (fr_dependencies r)) :: u32) = length (fr_dependencies r)"
    using p(3) by (simp add: unsigned_of_nat take_bit_nat_eq_self)
  have lim: "\<not> 4096 < (word_of_nat (length (fr_dependencies r)) :: u32)"
    using p(3) n by (simp add: word_less_nat_alt)
  have "\<exists>bs. writes (encode_failure_record r) bs \<and> reads decode_failure_record bs (Some r)"
    apply (intro exI conjI)
     apply (unfold encode_failure_record_def)
     apply (rule writer_rules)+
    apply (unfold decode_failure_record_def)
    apply (rule reader_rules reads_bind [OF reads_str16 [OF p(1)]] reads_bind [OF reads_str16 [OF p(2)]]
        reads_last [OF reads_deps [OF n]])+
         apply (simp_all add: enum_u32_limits p lim not_le Let_def envelope_eta)
    done
  then show ?thesis by (auto simp: failure_record_bytes_def buffer_writes)
qed

subsection \<open>The checksum detects a changed byte\<close>

lemma fnv_prime_invertible: "(1099511628211 :: u64) * 14886173955864302971 = 1"
  by simp

lemma fnv_step_inject: "fnv_step h b = fnv_step h' b \<Longrightarrow> h = h'"
proof -
  assume "fnv_step h b = fnv_step h' b"
  then have "(h XOR ucast b) * (1099511628211 * 14886173955864302971) =
      (h' XOR ucast b) * (1099511628211 * 14886173955864302971)"
    unfolding fnv_step_def mult.assoc [symmetric] by (rule arg_cong)
  then have "h XOR ucast b = h' XOR ucast b" unfolding fnv_prime_invertible by simp
  then have "(h XOR ucast b) XOR ucast b = (h' XOR ucast b) XOR ucast b" by (rule arg_cong)
  then show "h = h'" by (simp add: xor.assoc)
qed

lemma fnv_step_byte: "fnv_step h b = fnv_step h b' \<Longrightarrow> b = b'"
proof -
  assume "fnv_step h b = fnv_step h b'"
  then have "(h XOR ucast b) * (1099511628211 * 14886173955864302971) =
      (h XOR ucast b') * (1099511628211 * 14886173955864302971)"
    unfolding fnv_step_def mult.assoc [symmetric] by (rule arg_cong)
  then have "h XOR ucast b = h XOR ucast b'" unfolding fnv_prime_invertible by simp
  then have "h XOR (h XOR ucast b) = h XOR (h XOR ucast b')" by (rule arg_cong)
  then have "(ucast b :: u64) = ucast b'" by (simp add: xor.assoc [symmetric])
  then have "unat (ucast b :: u64) = unat (ucast b' :: u64)" by simp
  moreover have "unat c < 2 ^ 64" for c :: byte
    using unsigned_less [of c, where ?'a = nat] by simp
  ultimately show "b = b'" 
    by (simp add: unsigned_ucast_eq take_bit_nat_eq_self word_unat_eq_iff)
qed

lemma foldl_fnv_inject: "foldl fnv_step h bs = foldl fnv_step h' bs \<Longrightarrow> h = h'"
  by (induction bs arbitrary: h h') (auto dest: fnv_step_inject)

lemma fnv_detects_byte:
  assumes "i < length bs" and "b \<noteq> bs ! i"
  shows "fnv1a64 (bs[i := b]) \<noteq> fnv1a64 bs"
proof
  let ?h = "foldl fnv_step 1469598103934665603 (take i bs)"
  assume eq: "fnv1a64 (bs[i := b]) = fnv1a64 bs"
  have "fnv1a64 (take i bs @ bs ! i # drop (Suc i) bs) =
      foldl fnv_step (fnv_step ?h (bs ! i)) (drop (Suc i) bs)"
    by (simp add: fnv1a64_def)
  moreover have "take i bs @ bs ! i # drop (Suc i) bs = bs"
    using assms(1) by (rule id_take_nth_drop [symmetric])
  moreover have "fnv1a64 (bs[i := b]) = foldl fnv_step (fnv_step ?h b) (drop (Suc i) bs)"
    using assms(1) by (simp add: fnv1a64_def upd_conv_take_nth_drop)
  ultimately have "foldl fnv_step (fnv_step ?h b) (drop (Suc i) bs) =
      foldl fnv_step (fnv_step ?h (bs ! i)) (drop (Suc i) bs)"
    using eq by simp
  then have "fnv_step ?h b = fnv_step ?h (bs ! i)" by (rule foldl_fnv_inject)
  then show False using assms(2) by (auto dest: fnv_step_byte)
qed

lemma be_bytes_snoc: "be_bytes (Suc k) x = be_bytes k (drop_bit 8 x) @ [ucast (x AND 0xFF)]"
proof -
  have "rev [0..<Suc k] = map Suc (rev [0..<k]) @ [0]"
    by (simp add: rev_map [symmetric] map_Suc_upt upt_conv_Cons del: upt_Suc)
  then show ?thesis by (simp add: be_bytes_def algebra_simps del: upt_Suc)
qed

lemma be_bytes_foldl:
  "length bs = k \<Longrightarrow> k * 8 \<le> LENGTH('a) \<Longrightarrow>
    be_bytes k (foldl (\<lambda>x b. push_bit 8 x OR ucast b) 0 bs :: 'a::len word) = bs"
proof (induction k arbitrary: bs)
  case (Suc k)
  then obtain cs c where bs: "bs = cs @ [c]" "length cs = k"
    by (metis length_Suc_conv_rev)
  let ?x = "foldl (\<lambda>x b. push_bit 8 x OR ucast b) 0 cs :: 'a word"
  have m: "(0xFF :: 'a word) = mask 8" by (simp add: mask_eq_exp_minus_1)
  have c: "ucast ((push_bit 8 ?x OR ucast c) AND 0xFF) = c"
    unfolding m using Suc.prems by (intro bit_word_eqI) (auto simp: bit_simps)
  have "be_bytes k (drop_bit 8 (push_bit 8 ?x OR ucast c)) = be_bytes k ?x"
    unfolding be_bytes_def m
  proof (intro map_cong refl)
    fix i assume "i \<in> set (rev [0..<k])"
    then have "i < k" by simp
    then have "i * 8 + 16 \<le> LENGTH('a)" using Suc.prems by simp
    then show "ucast (drop_bit (i * 8) (drop_bit 8 (push_bit 8 ?x OR ucast c)) AND mask 8) =
        (ucast (drop_bit (i * 8) ?x AND mask 8) :: byte)"
      by (intro bit_word_eqI) (auto simp: bit_simps dest: bit_imp_le_length)
  qed
  then show ?case using Suc.IH [of cs] Suc.prems bs c by (simp add: be_bytes_snoc)
qed simp

subsection \<open>Frames\<close>

lemma run_fixed_at:
  "1 \<le> length rest \<Longrightarrow> run_state r_u8 (at_input pre rest) =
     (rest ! 0, at_input (pre @ take 1 rest) (drop 1 rest))"
  "2 \<le> length rest \<Longrightarrow> run_state r_u16 (at_input pre rest) =
     (get_be16 rest, at_input (pre @ take 2 rest) (drop 2 rest))"
  "4 \<le> length rest \<Longrightarrow> run_state r_u32 (at_input pre rest) =
     (get_be32 rest, at_input (pre @ take 4 rest) (drop 4 rest))"
  by (auto simp: r_u8_def r_u16_def r_u32_def r_need_def r_take_def at_input_def get_be16_def
      get_be32_def)

text \<open>\<open>decode_frame\<close> as a function of the bytes from the offset on.\<close>

lemma decode_frame_eq:
  assumes "d = drop off data"
  shows "decode_frame data off =
    (if off + 11 > length data \<or> get_be32 d \<noteq> kFFMagic \<or> get_be16 (drop 4 d) \<noteq> kFFVersion then None
     else let len = unat (get_be32 (drop 7 d)) in
       if 11 + len + 8 > length d \<or>
          fnv1a64 (take (11 + len) d) \<noteq> get_be64 (drop (11 + len) d) then None
       else Some (\<lparr>fh_kind = d ! 6, fh_payload = take len (drop 11 d),
                   fh_checksum = get_be64 (drop (11 + len) d)\<rparr>, off + 11 + len + 8))"
proof (cases "off + 11 > length data")
  case False
  then have len: "length data = off + length d" "11 \<le> length d" using assms by auto
  have 1: "run_state r_u32 (new_reader d) = (get_be32 d, at_input (take 4 d) (drop 4 d))"
    using run_fixed_at(3) [of d "[]"] len by (simp add: new_reader_at)
  have 2: "run_state r_u16 (at_input (take 4 d) (drop 4 d)) =
      (get_be16 (drop 4 d), at_input (take 6 d) (drop 6 d))"
    using run_fixed_at(2) [of "drop 4 d" "take 4 d"] len by (simp add: take_add [of 4 2, simplified])
  have 3: "run_state r_u8 (at_input (take 6 d) (drop 6 d)) =
      (d ! 6, at_input (take 7 d) (drop 7 d))"
    using run_fixed_at(1) [of "drop 6 d" "take 6 d"] len by (simp add: take_add [of 6 1, simplified])
  have 4: "run_state r_u32 (at_input (take 7 d) (drop 7 d)) =
      (get_be32 (drop 7 d), at_input (take 11 d) (drop 11 d))"
    using run_fixed_at(3) [of "drop 7 d" "take 7 d"] len by (simp add: take_add [of 7 4, simplified])
  have dd: "drop n d = drop (off + n) data" for n by (simp add: assms add.commute)
  show ?thesis
    using False len
    by (simp add: decode_frame_def assms [symmetric] 1 2 3 4 Let_def dd [symmetric] add.assoc) auto
qed (simp add: decode_frame_def)

definition frame_body :: "byte \<Rightarrow> byte list \<Rightarrow> byte list" where
  "frame_body kind payload =
     be_bytes 4 kFFMagic @ be_bytes 2 kFFVersion @ [kind] @
     be_bytes 4 (word_of_nat (length payload) :: u32) @ payload"

lemma length_frame_body [simp]: "length (frame_body k p) = 11 + length p"
  by (simp add: frame_body_def)

lemma encode_frame_eq:
  "encode_frame k p = frame_body k p @ be_bytes 8 (fnv1a64 (frame_body k p))"
proof -
  have "writes (do { w_u32 kFFMagic; w_u16 kFFVersion; w_u8 k;
      w_u32 (word_of_nat (length p)); w_put p }) (frame_body k p)"
    unfolding frame_body_def by (rule writer_rules)+
  then have body: "buffer (do { w_u32 kFFMagic; w_u16 kFFVersion; w_u8 k;
      w_u32 (word_of_nat (length p)); w_put p }) = frame_body k p"
    by (rule buffer_writes)
  have "writes (do { w_put (frame_body k p); w_u64 (fnv1a64 (frame_body k p)) })
      (frame_body k p @ be_bytes 8 (fnv1a64 (frame_body k p)))"
    by (rule writer_rules)+
  then show ?thesis by (simp add: encode_frame_def body buffer_writes Let_def)
qed

lemma length_encode_frame [simp]: "length (encode_frame k p) = 19 + length p"
  by (simp add: encode_frame_eq)

lemma frame_fields:
  "get_be32 (encode_frame k p @ post) = kFFMagic"
  "get_be16 (drop 4 (encode_frame k p @ post)) = kFFVersion"
  "(encode_frame k p @ post) ! 6 = k"
  "get_be32 (drop 7 (encode_frame k p @ post)) = word_of_nat (length p)"
  "drop 11 (encode_frame k p @ post) = p @ be_bytes 8 (fnv1a64 (frame_body k p)) @ post"
  "take (11 + length p) (encode_frame k p @ post) = frame_body k p"
proof -
  show "take (11 + length p) (encode_frame k p @ post) = frame_body k p"
    by (simp add: encode_frame_eq)
qed (simp_all add: encode_frame_eq frame_body_def nth_append)

lemma decode_encode_frame:
  assumes "length p < 2 ^ 32"
  shows "decode_frame (pre @ encode_frame k p @ post) (length pre) =
    Some (\<lparr>fh_kind = k, fh_payload = p, fh_checksum = fnv1a64 (frame_body k p)\<rparr>,
          length pre + length (encode_frame k p))"
proof -
  have n: "unat (word_of_nat (length p) :: u32) = length p"
    using assms by (simp add: unsigned_of_nat take_bit_nat_eq_self)
  have d: "encode_frame k p @ post = drop (length pre) (pre @ encode_frame k p @ post)" by simp
  have "drop (11 + length p) (encode_frame k p @ post) = be_bytes 8 (fnv1a64 (frame_body k p)) @ post"
    by (simp add: encode_frame_eq)
  moreover have "take (length p) (p @ q) = p" for q by simp
  ultimately show ?thesis
    unfolding decode_frame_eq [OF d]
    by (simp add: frame_fields n Let_def del: drop_append take_append)
qed

lemma be_get:
  "4 \<le> length d \<Longrightarrow> be_bytes 4 (get_be32 d) = take 4 d"
  "2 \<le> length d \<Longrightarrow> be_bytes 2 (get_be16 d) = take 2 d"
  "8 \<le> length d \<Longrightarrow> be_bytes 8 (get_be64 d) = take 8 d"
  by (simp_all add: get_be32_def get_be16_def get_be64_def be_bytes_foldl)

text \<open>
  Only encodings are accepted: whatever \<open>decode_frame\<close> takes at an offset is the encoding of the
  kind and payload it returns, and the next offset is the end of that encoding.
\<close>

lemma decode_frame_canonical:
  assumes "decode_frame data off = Some (h, next)"
  shows "\<exists>rest. drop off data = encode_frame (fh_kind h) (fh_payload h) @ rest \<and>
    next = off + length (encode_frame (fh_kind h) (fh_payload h)) \<and> next \<le> length data \<and>
    length (fh_payload h) < 2 ^ 32 \<and> fh_checksum h = fnv1a64 (frame_body (fh_kind h) (fh_payload h))"
proof -
  define d where "d = drop off data"
  define len where "len = unat (get_be32 (drop 7 d))"
  define p where "p = take len (drop 11 d)"
  define ck where "ck = get_be64 (drop (11 + len) d)"
  have off: "off + 11 \<le> length data" and magic: "get_be32 d = kFFMagic"
    and ver: "get_be16 (drop 4 d) = kFFVersion" and long: "11 + len + 8 \<le> length d"
    and sum: "fnv1a64 (take (11 + len) d) = ck"
    and h: "h = \<lparr>fh_kind = d ! 6, fh_payload = p, fh_checksum = ck\<rparr>"
    and nxt: "next = off + 11 + len + 8"
    using assms by (auto simp: decode_frame_eq [OF d_def] Let_def len_def p_def ck_def split: if_splits)
  have lp: "length p = len" using long by (simp add: p_def)
  have wl: "(word_of_nat len :: u32) = get_be32 (drop 7 d)" by (simp add: len_def)
  have "len < 2 ^ 32" using unsigned_less [of "get_be32 (drop 7 d)", where ?'a = nat] by (simp add: len_def)
  have "take (11 + len) d = take 4 d @ take 2 (drop 4 d) @ take 1 (drop 6 d) @ take 4 (drop 7 d) @ p"
    by (simp add: p_def take_add [symmetric] append_assoc [symmetric] del: append_assoc)
  moreover have "take 4 d = be_bytes 4 kFFMagic" "take 2 (drop 4 d) = be_bytes 2 kFFVersion"
    "take 4 (drop 7 d) = be_bytes 4 (word_of_nat len :: u32)"
    using be_get(1) [of d] be_get(2) [of "drop 4 d"] be_get(1) [of "drop 7 d"] long magic ver wl
    by simp_all
  moreover have "take 1 (drop 6 d) = [d ! 6]" using long by (simp add: take_Suc_conv_app_nth)
  ultimately have body: "take (11 + len) d = frame_body (d ! 6) p" by (simp add: frame_body_def lp)
  have "take 8 (drop (11 + len) d) = be_bytes 8 ck"
    using be_get(3) [of "drop (11 + len) d"] long by (simp add: ck_def)
  then have "take (11 + len + 8) d = encode_frame (d ! 6) p"
    using body sum unfolding take_add [of "11 + len" 8] by (simp add: encode_frame_eq)
  then have "d = encode_frame (d ! 6) p @ drop (11 + len + 8) d" by (metis append_take_drop_id)
  then have "drop off data = encode_frame (fh_kind h) (fh_payload h) @ drop (11 + len + 8) d"
    by (simp add: h d_def [symmetric])
  moreover have "next \<le> length data" using nxt long off by (simp add: d_def)
  moreover have "fh_checksum h = fnv1a64 (frame_body (fh_kind h) (fh_payload h))"
    using h sum body by simp
  ultimately show ?thesis using h nxt lp \<open>len < 2 ^ 32\<close> by auto
qed

lemma decode_frame_progress: "decode_frame data off = Some (h, next) \<Longrightarrow> off < next \<and> next \<le> length data"
  using decode_frame_canonical [of data off h "next"] by auto

lemma same_length_field:
  assumes "(encode_frame k p)[i := b] @ post = encode_frame k' p' @ rest" and "i \<notin> {7, 8, 9, 10}"
    and "length p < 2 ^ 32" and "length p' < 2 ^ 32"
  shows "length p' = length p"
proof -
  have "take 4 (drop 7 ((encode_frame k p)[i := b])) = take 4 (drop 7 (encode_frame k p))"
    using assms(2) by (intro nth_equalityI) (auto simp: nth_list_update)
  moreover have "take 4 (drop 7 (encode_frame k q)) = be_bytes 4 (word_of_nat (length q) :: u32)" for k q
    by (simp add: encode_frame_eq frame_body_def)
  moreover have "take 4 (drop 7 ((encode_frame k p)[i := b])) = take 4 (drop 7 (encode_frame k' p'))"
    using arg_cong [OF assms(1), of "\<lambda>xs. take 4 (drop 7 xs)"] by simp
  ultimately have "(word_of_nat (length p) :: u32) = word_of_nat (length p')"
    using codec_u32.enc_inject by metis
  then have "unat (word_of_nat (length p) :: u32) = unat (word_of_nat (length p') :: u32)" by simp
  then show ?thesis using assms(3,4) by (simp add: unsigned_of_nat take_bit_nat_eq_self)
qed

subsection \<open>Properties\<close>

text \<open>
  C20: Every failure record the format can carry is read back exactly: decoding what was encoded
  yields the same record, consumes all of it and leaves the reader in good state.
\<close>

theorem failure_record_roundtrip:
  assumes "persistable r"
  shows "run_state decode_failure_record (new_reader (buffer (encode_failure_record r))) =
    (Some r, \<lparr>br_data = buffer (encode_failure_record r),
              br_pos = length (buffer (encode_failure_record r)), br_ok = True\<rparr>)"
  using reads_all [OF reads_failure_record [OF assms]]
  by (simp add: failure_record_bytes_def at_input_def)

theorem failure_record_roundtrip_witness:
  "fst (run_state decode_failure_record (new_reader (buffer (encode_failure_record
      (default_record\<lparr>fr_summary := ''device lost'', fr_dependencies := [null_id, null_id]\<rparr>))))) =
    Some (default_record\<lparr>fr_summary := ''device lost'', fr_dependencies := [null_id, null_id]\<rparr>)"
proof -
  have "persistable (default_record\<lparr>fr_summary := ''device lost'', fr_dependencies := [null_id, null_id]\<rparr>)"
    by (simp add: persistable_def default_record_def validate_authority_def empty_envelope_def
        is_null_def null_id_def is_zero_def uuid_zero_def)
  from failure_record_roundtrip [OF this] show ?thesis by simp
qed

text \<open>
  A frame is decoded to the kind and payload it was encoded from, wherever it stands in a file,
  and the offset returned is that of the byte after it.
\<close>

lemma frame_roundtrip:
  assumes "length p < 2 ^ 32"
  shows "map_option (\<lambda>(h, next). (fh_kind h, fh_payload h, next))
      (decode_frame (pre @ encode_frame k p @ post) (length pre)) =
    Some (k, p, length pre + length (encode_frame k p))"
  by (simp add: decode_encode_frame [OF assms])

text \<open>
  C35: only well-formed frames are accepted. Whatever bytes a file holds, what \<open>decode_frame\<close> accepts
  at an offset is byte for byte the encoding of the kind and payload it returns, inside the file.
\<close>

theorem frame_accepts_only_encodings:
  assumes "decode_frame data off = Some (h, next)"
  shows "take (next - off) (drop off data) = encode_frame (fh_kind h) (fh_payload h) \<and>
    off < next \<and> next \<le> length data"
  using decode_frame_canonical [OF assms] by auto

theorem frame_accepts_only_encodings_witness:
  "\<exists>h next. decode_frame (encode_frame 2 [4]) 0 = Some (h, next) \<and>
     take (next - 0) (drop 0 (encode_frame 2 [4])) = encode_frame (fh_kind h) (fh_payload h)"
proof -
  obtain h "next" where d: "decode_frame (encode_frame 2 [4]) 0 = Some (h, next)"
    using decode_encode_frame [of "[4]" "[]" 2 "[]"] by auto
  from frame_accepts_only_encodings [OF d] d show ?thesis by blast
qed

text \<open>
  C21: Changing one byte of a frame makes it undecodable, whatever follows it in the file, as long as
  the byte is not one of the four of the length field (bytes 7 to 10).
\<close>

theorem corrupted_byte_rejected:
  assumes "length p < 2 ^ 32" and "i < length (encode_frame k p)" and "i \<notin> {7, 8, 9, 10}"
    and "b \<noteq> encode_frame k p ! i"
  shows "decode_frame ((encode_frame k p)[i := b] @ post) 0 = None"
proof (rule ccontr)
  let ?f = "encode_frame k p"
  assume "decode_frame (?f[i := b] @ post) 0 \<noteq> None"
  then obtain h "next" where "decode_frame (?f[i := b] @ post) 0 = Some (h, next)" by auto
  then obtain rest where eq: "?f[i := b] @ post = encode_frame (fh_kind h) (fh_payload h) @ rest"
    and l': "length (fh_payload h) < 2 ^ 32"
    using decode_frame_canonical by fastforce
  have len: "length (fh_payload h) = length p"
    by (rule same_length_field [OF eq assms(3) assms(1) l'])
  then have f: "?f[i := b] = encode_frame (fh_kind h) (fh_payload h)" using eq by simp
  let ?body = "frame_body k p" and ?body' = "frame_body (fh_kind h) (fh_payload h)"
  show False
  proof (cases "i < 11 + length p")
    case True
    then have "?body[i := b] = ?body'" "be_bytes 8 (fnv1a64 ?body) = be_bytes 8 (fnv1a64 ?body')"
      using f len by (simp_all add: encode_frame_eq list_update_append)
    then have "fnv1a64 (?body[i := b]) = fnv1a64 ?body"
      using codec_u64.enc_inject by simp
    moreover have "b \<noteq> ?body ! i" using assms(4) True by (simp add: encode_frame_eq nth_append)
    ultimately show False using fnv_detects_byte [of i ?body b] True by simp
  next
    case False
    then have "?body = ?body'" using f len by (simp add: encode_frame_eq list_update_append)
    then have "?f[i := b] = ?f" using f by (simp add: encode_frame_eq)
    then show False using assms(2,4) by (metis nth_list_update_eq)
  qed
qed

theorem corrupted_byte_rejected_witness:
  "decode_frame ((encode_frame 1 [7, 8, 9])[12 := 0] @ [1, 2]) 0 = None"
proof (rule corrupted_byte_rejected)
  show "(0 :: byte) \<noteq> encode_frame 1 [7, 8, 9] ! 12"
    by (simp add: encode_frame_eq frame_body_def nth_append)
qed simp_all

text \<open>A frame that was cut short, at any point, is rejected.\<close>

lemma truncated_frame_rejected:
  assumes "length p < 2 ^ 32" and "n < length (encode_frame k p)"
  shows "decode_frame (take n (encode_frame k p)) 0 = None"
proof (rule ccontr)
  let ?f = "encode_frame k p"
  assume "decode_frame (take n ?f) 0 \<noteq> None"
  then obtain h "next" where d: "decode_frame (take n ?f) 0 = Some (h, next)" by auto
  then obtain rest where eq: "take n ?f = encode_frame (fh_kind h) (fh_payload h) @ rest"
    and "length (fh_payload h) < 2 ^ 32"
    using decode_frame_canonical by fastforce
  then have "?f[0 := ?f ! 0] @ [] = encode_frame (fh_kind h) (fh_payload h) @ (rest @ drop n ?f)"
    by (metis append.assoc append.right_neutral append_take_drop_id list_update_id)
  then have "length (fh_payload h) = length p"
    by (rule same_length_field) (use assms(1) \<open>length (fh_payload h) < 2 ^ 32\<close> in simp_all)
  moreover have "length (encode_frame (fh_kind h) (fh_payload h)) \<le> n"
    using arg_cong [OF eq, of length] by simp
  ultimately show False using assms(2) by simp
qed

end
