(* ===== verification/FF_Operation.thy ===== *)
theory FF_Operation
  imports FF_Enum
begin

text \<open>
  The guarded operation state machine (\<open>include/failure_fabric/operation.hpp\<close>,
  \<open>src/operation.cpp\<close>): the transition table as twenty bit masks, the guard that tests
  one bit of it, and the machine object. The table is related to an adjacency list, and
  reachability over it is studied as an inductive relation.
\<close>

subsection \<open>The transition table\<close>

definition make_mask :: "nat list \<Rightarrow> u32" where
  "make_mask idx = foldl (\<lambda>m i. m OR push_bit i 1) 0 idx"

definition transition_table :: "u32 list" where
  "transition_table =
    [make_mask [1, 5, 6],
     make_mask [2, 5, 6, 18],
     make_mask [3, 5, 6, 7, 18],
     make_mask [4, 5, 6, 7],
     make_mask [],
     make_mask [8, 10, 12, 14, 17, 18, 19],
     make_mask [8, 10, 12, 14, 17, 19],
     make_mask [8, 10, 12, 14, 17],
     make_mask [9, 18, 19],
     make_mask [2, 5, 6, 18],
     make_mask [11, 18, 19],
     make_mask [8, 12, 14, 16, 17],
     make_mask [13, 18, 19],
     make_mask [14, 16, 17],
     make_mask [15, 17, 19],
     make_mask [16, 17, 18],
     make_mask [],
     make_mask [],
     make_mask [],
     make_mask []]"

text \<open>The casts to \<open>int\<close> read the underlying 32-bit value in two's complement.\<close>

definition is_allowed :: "OperationState \<Rightarrow> OperationState \<Rightarrow> bool" where
  "is_allowed from to =
     (let f = sint (OperationState_u32 from); t = sint (OperationState_u32 to) in
      if f < 0 \<or> f \<ge> 20 \<or> t < 0 \<or> t \<ge> 20 then False
      else (transition_table ! nat f) AND push_bit (nat t) 1 \<noteq> 0)"

definition is_terminal :: "OperationState \<Rightarrow> bool" where
  "is_terminal s \<longleftrightarrow>
     s = OperationState.COMPLETION_CONFIRMED \<or> s = OperationState.RECOVERED \<or>
     s = OperationState.TERMINAL_FAILED \<or> s = OperationState.CANCELLED \<or>
     s = OperationState.ABANDONED"

definition is_failed :: "OperationState \<Rightarrow> bool" where
  "is_failed s \<longleftrightarrow>
     s = OperationState.FAILED_KNOWN \<or> s = OperationState.FAILED_AMBIGUOUS \<or>
     s = OperationState.PARTIALLY_SUCCEEDED \<or> s = OperationState.TERMINAL_FAILED"

definition index_to_state :: "int \<Rightarrow> OperationState" where
  "index_to_state i =
     (if i < 0 \<or> i \<ge> 20 then OperationState.CREATED else OperationState_vals ! nat i)"

subsection \<open>The machine object\<close>

datatype OperationStateMachine = OperationStateMachine (sm_state: OperationState)

definition can_transition :: "OperationStateMachine \<Rightarrow> OperationState \<Rightarrow> bool" where
  "can_transition m to = is_allowed (sm_state m) to"

definition sm_transition ::
  "OperationStateMachine \<Rightarrow> OperationState \<Rightarrow> bool \<times> OperationStateMachine" where
  "sm_transition m to =
     (if \<not> can_transition m to then (False, m) else (True, OperationStateMachine to))"

definition sm_reset ::
  "OperationStateMachine \<Rightarrow> OperationState \<Rightarrow> bool \<times> OperationStateMachine" where
  "sm_reset m s = (True, OperationStateMachine s)"

subsection \<open>The table as an adjacency list\<close>

fun successors :: "OperationState \<Rightarrow> OperationState list" where
  "successors OperationState.CREATED =
     [OperationState.DISPATCHED, OperationState.FAILED_KNOWN, OperationState.FAILED_AMBIGUOUS]"
| "successors OperationState.DISPATCHED =
     [OperationState.RUNNING, OperationState.FAILED_KNOWN, OperationState.FAILED_AMBIGUOUS,
      OperationState.CANCELLED]"
| "successors OperationState.RUNNING =
     [OperationState.COMPLETION_REPORTED, OperationState.FAILED_KNOWN,
      OperationState.FAILED_AMBIGUOUS, OperationState.PARTIALLY_SUCCEEDED,
      OperationState.CANCELLED]"
| "successors OperationState.COMPLETION_REPORTED =
     [OperationState.COMPLETION_CONFIRMED, OperationState.FAILED_KNOWN,
      OperationState.FAILED_AMBIGUOUS, OperationState.PARTIALLY_SUCCEEDED]"
| "successors OperationState.FAILED_KNOWN =
     [OperationState.RETRY_PENDING, OperationState.ROLLBACK_PENDING,
      OperationState.COMPENSATION_PENDING, OperationState.RECOVERY_PENDING,
      OperationState.TERMINAL_FAILED, OperationState.CANCELLED, OperationState.ABANDONED]"
| "successors OperationState.FAILED_AMBIGUOUS =
     [OperationState.RETRY_PENDING, OperationState.ROLLBACK_PENDING,
      OperationState.COMPENSATION_PENDING, OperationState.RECOVERY_PENDING,
      OperationState.TERMINAL_FAILED, OperationState.ABANDONED]"
| "successors OperationState.PARTIALLY_SUCCEEDED =
     [OperationState.RETRY_PENDING, OperationState.ROLLBACK_PENDING,
      OperationState.COMPENSATION_PENDING, OperationState.RECOVERY_PENDING,
      OperationState.TERMINAL_FAILED]"
| "successors OperationState.RETRY_PENDING =
     [OperationState.RETRYING, OperationState.CANCELLED, OperationState.ABANDONED]"
| "successors OperationState.RETRYING =
     [OperationState.RUNNING, OperationState.FAILED_KNOWN, OperationState.FAILED_AMBIGUOUS,
      OperationState.CANCELLED]"
| "successors OperationState.ROLLBACK_PENDING =
     [OperationState.ROLLING_BACK, OperationState.CANCELLED, OperationState.ABANDONED]"
| "successors OperationState.ROLLING_BACK =
     [OperationState.RETRY_PENDING, OperationState.COMPENSATION_PENDING,
      OperationState.RECOVERY_PENDING, OperationState.RECOVERED, OperationState.TERMINAL_FAILED]"
| "successors OperationState.COMPENSATION_PENDING =
     [OperationState.COMPENSATING, OperationState.CANCELLED, OperationState.ABANDONED]"
| "successors OperationState.COMPENSATING =
     [OperationState.RECOVERY_PENDING, OperationState.RECOVERED, OperationState.TERMINAL_FAILED]"
| "successors OperationState.RECOVERY_PENDING =
     [OperationState.RECOVERING, OperationState.TERMINAL_FAILED, OperationState.ABANDONED]"
| "successors OperationState.RECOVERING =
     [OperationState.RECOVERED, OperationState.TERMINAL_FAILED, OperationState.CANCELLED]"
| "successors _ = []"

text \<open>Runs of the machine: reachability along allowed transitions.\<close>

inductive sm_reach :: "OperationState \<Rightarrow> OperationState \<Rightarrow> bool" where
  sm_refl: "sm_reach s s"
| sm_step: "is_allowed s t \<Longrightarrow> sm_reach t u \<Longrightarrow> sm_reach s u"

inductive_cases sm_reachE: "sm_reach s u"

subsection \<open>Lemmas\<close>

lemma transition_table_values:
  "transition_table =
     [98, 262244, 262376, 240, 0, 939264, 677120, 152832, 786944, 262244, 788480,
      217344, 794624, 212992, 688128, 458752, 0, 0, 0, 0]"
  by (simp add: transition_table_def make_mask_def)

lemma sint_u32: "sint (n :: u32) = (if uint n < 2 ^ 31 then uint n else uint n - 2 ^ 32)"
proof -
  have "sint n = take_bit 32 (uint n + 2 ^ 31) - 2 ^ 31"
    using signed_take_bit_eq_take_bit_shift [of 31 "uint n"] by (simp add: sint_uint)
  then have "sint n = (uint n + 2147483648) mod 4294967296 - 2147483648"
    by (simp add: take_bit_eq_mod)
  moreover have "0 \<le> uint n" "uint n < 4294967296" using unsigned_less [of n, where ?'a = int] by simp_all
  moreover have "(uint n + 2147483648) mod 4294967296 = uint n - 2147483648"
    if "2147483648 \<le> uint n"
    using that \<open>uint n < 4294967296\<close>
      mod_pos_pos_trivial [of "uint n - 2147483648" 4294967296]
      mod_add_self2 [of "uint n - 2147483648" 4294967296]
    by (simp add: add.commute)
  ultimately show ?thesis by (cases "uint n < 2147483648") simp_all
qed

lemma unnamed_out_of_range:
  "castable (OperationState.UNNAMED n) \<Longrightarrow> sint n < 0 \<or> 20 \<le> sint n"
  using unsigned_less [of n, where ?'a = int]
  by (auto simp: castable_def sint_u32 not_less word_le_def)

lemma unnamed_not_allowed:
  "castable (OperationState.UNNAMED n) \<Longrightarrow>
    \<not> is_allowed (OperationState.UNNAMED n) t \<and> \<not> is_allowed s (OperationState.UNNAMED n)"
  using unnamed_out_of_range [of n] by (auto simp: is_allowed_def OperationState_u32_def Let_def)

lemma OperationState_u32_simps [simp]:
  "OperationState_u32 OperationState.CREATED = 0"
  "OperationState_u32 OperationState.DISPATCHED = 1"
  "OperationState_u32 OperationState.RUNNING = 2"
  "OperationState_u32 OperationState.COMPLETION_REPORTED = 3"
  "OperationState_u32 OperationState.COMPLETION_CONFIRMED = 4"
  "OperationState_u32 OperationState.FAILED_KNOWN = 5"
  "OperationState_u32 OperationState.FAILED_AMBIGUOUS = 6"
  "OperationState_u32 OperationState.PARTIALLY_SUCCEEDED = 7"
  "OperationState_u32 OperationState.RETRY_PENDING = 8"
  "OperationState_u32 OperationState.RETRYING = 9"
  "OperationState_u32 OperationState.ROLLBACK_PENDING = 10"
  "OperationState_u32 OperationState.ROLLING_BACK = 11"
  "OperationState_u32 OperationState.COMPENSATION_PENDING = 12"
  "OperationState_u32 OperationState.COMPENSATING = 13"
  "OperationState_u32 OperationState.RECOVERY_PENDING = 14"
  "OperationState_u32 OperationState.RECOVERING = 15"
  "OperationState_u32 OperationState.RECOVERED = 16"
  "OperationState_u32 OperationState.TERMINAL_FAILED = 17"
  "OperationState_u32 OperationState.CANCELLED = 18"
  "OperationState_u32 OperationState.ABANDONED = 19"
  by (simp_all add: OperationState_u32_def enum_u32_def enum_index_def OperationState_vals_def)

text \<open>The bit test on the table row is membership in the adjacency list.\<close>

lemma is_allowed_iff: "named a \<Longrightarrow> named b \<Longrightarrow> is_allowed a b \<longleftrightarrow> b \<in> set (successors a)"
  by (cases a; cases b) (simp_all add: named_def is_allowed_def transition_table_values)

lemma successors_named: "b \<in> set (successors a) \<Longrightarrow> named a \<and> named b"
  by (cases a) (auto simp: named_def)

lemma is_allowed_iff':
  assumes "castable a" "castable b"
  shows "is_allowed a b \<longleftrightarrow> b \<in> set (successors a)"
proof (cases "named a \<and> named b")
  case True
  then show ?thesis by (simp add: is_allowed_iff)
next
  case False
  then obtain n where "a = OperationState.UNNAMED n \<or> b = OperationState.UNNAMED n"
    by (cases a; cases b; auto simp: named_def)
  then have "\<not> is_allowed a b" using assms unnamed_not_allowed by blast
  then show ?thesis using False successors_named by blast
qed

lemma terminal_no_exit: "is_terminal s \<Longrightarrow> \<not> is_allowed s t"
  by (auto simp: is_terminal_def is_allowed_def transition_table_values Let_def)

lemma named_exits: "named s \<Longrightarrow> is_terminal s \<longleftrightarrow> successors s = []"
  by (cases s) (simp_all add: is_terminal_def named_def)

lemma sm_transition_simps [simp]:
  "fst (sm_transition m to) \<longleftrightarrow> is_allowed (sm_state m) to"
  "sm_state (snd (sm_transition m to)) = (if is_allowed (sm_state m) to then to else sm_state m)"
  "snd (sm_transition m to) = (if is_allowed (sm_state m) to then OperationStateMachine to else m)"
  by (simp_all add: sm_transition_def can_transition_def)

lemma sm_reset_simps [simp]: "snd (sm_reset m s) = OperationStateMachine s"
  by (simp add: sm_reset_def)

subsection \<open>Reachability\<close>

lemma reach_step: "is_allowed s t \<Longrightarrow> sm_reach s t"
  by (blast intro: sm_refl sm_step)

lemma reach_trans: "sm_reach s t \<Longrightarrow> sm_reach t u \<Longrightarrow> sm_reach s u"
  by (induction rule: sm_reach.induct) (auto intro: sm_step)

lemma terminal_reach_only_self: "sm_reach s u \<Longrightarrow> is_terminal s \<Longrightarrow> u = s"
  by (induction rule: sm_reach.induct) (auto dest: terminal_no_exit)

lemma successor_allowed: "b \<in> set (successors a) \<Longrightarrow> is_allowed a b"
  using successors_named is_allowed_iff by blast

lemma reach_successor: "sm_reach s t \<Longrightarrow> u \<in> set (successors t) \<Longrightarrow> sm_reach s u"
  using reach_trans reach_step successor_allowed by blast

lemma created_reaches: "named s \<Longrightarrow> sm_reach OperationState.CREATED s"
proof -
  let ?R = "sm_reach OperationState.CREATED"
  have c: "?R OperationState.CREATED" by (rule sm_refl)
  then have d: "?R OperationState.DISPATCHED" and k: "?R OperationState.FAILED_KNOWN"
    and a: "?R OperationState.FAILED_AMBIGUOUS" by (auto intro: reach_successor)
  from d have r: "?R OperationState.RUNNING" by (auto intro: reach_successor)
  from r have "?R OperationState.COMPLETION_REPORTED" "?R OperationState.PARTIALLY_SUCCEEDED"
    by (auto intro: reach_successor)
  moreover from this have "?R OperationState.COMPLETION_CONFIRMED" by (auto intro: reach_successor)
  moreover from k have "?R OperationState.RETRY_PENDING" "?R OperationState.ROLLBACK_PENDING"
    "?R OperationState.COMPENSATION_PENDING" "?R OperationState.RECOVERY_PENDING"
    "?R OperationState.TERMINAL_FAILED" "?R OperationState.CANCELLED" "?R OperationState.ABANDONED"
    by (auto intro: reach_successor)
  moreover from this have "?R OperationState.RETRYING" "?R OperationState.ROLLING_BACK"
    "?R OperationState.COMPENSATING" "?R OperationState.RECOVERING"
    by (auto intro: reach_successor)
  moreover from this have "?R OperationState.RECOVERED" by (auto intro: reach_successor)
  ultimately show "named s \<Longrightarrow> ?R s" using c d k a r by (cases s) (simp_all add: named_def)
qed

lemma can_terminate: "named s \<Longrightarrow> \<exists>t. is_terminal t \<and> sm_reach s t"
proof -
  assume "named s"
  then consider "is_terminal s" | t where "t \<in> set (successors s)" "is_terminal t"
    | "OperationState.FAILED_KNOWN \<in> set (successors s)"
    by (cases s) (auto simp: named_def is_terminal_def)
  then show ?thesis
  proof cases
    case 3
    then have "sm_reach s OperationState.TERMINAL_FAILED"
      by (auto intro: reach_successor [OF reach_step [OF successor_allowed]])
    then show ?thesis by (auto simp: is_terminal_def)
  qed (auto intro: sm_refl reach_step successor_allowed)
qed

subsection \<open>Properties\<close>

text \<open>
  C34: The bit table is the transition relation it is meant to be: for every pair of values the
  machine can hold, the masked test allows exactly the listed successors, and values outside the
  enumeration neither leave nor enter any state.
\<close>

theorem transition_table_exact:
  assumes "castable a" and "castable b"
  shows "is_allowed a b \<longleftrightarrow> b \<in> set (successors a)"
  using assms by (rule is_allowed_iff')

theorem transition_table_exact_witness:
  "is_allowed OperationState.RUNNING OperationState.COMPLETION_REPORTED \<longleftrightarrow>
    OperationState.COMPLETION_REPORTED \<in> set (successors OperationState.RUNNING)"
  by (rule transition_table_exact) (simp_all add: castable_def)

text \<open>
  No state of the operation machine is unreachable and none is a trap: every state is reachable
  from creation, from every state some terminal state is reachable, and exactly the terminal states
  have no way out.
\<close>

lemma machine_live:
  assumes "named s"
  shows "sm_reach OperationState.CREATED s \<and> (\<exists>t. is_terminal t \<and> sm_reach s t) \<and>
    (is_terminal s \<longleftrightarrow> (\<forall>u. sm_reach s u \<longleftrightarrow> u = s))"
proof -
  have "is_terminal s" if self: "\<forall>u. sm_reach s u \<longleftrightarrow> u = s"
    using can_terminate [OF assms] self by auto
  then show ?thesis
    using created_reaches [OF assms] can_terminate [OF assms] terminal_reach_only_self sm_refl by blast
qed

end
