(* ===== verification/FF_Idempotency.thy ===== *)
theory FF_Idempotency
  imports FF_Authority
begin

text \<open>
  Idempotency and deduplication (\<open>include/failure_fabric/idempotency.hpp\<close>,
  \<open>src/idempotency.cpp\<close>): entries keyed by operation and idempotency key, and the verdict a
  submission gets. Calls are events of a run, so that what the store promises is stated
  over every sequence of calls.
\<close>

subsection \<open>Data\<close>

datatype IdempotencyKey = IdempotencyKey (key_raw: uuid128)

definition key_to_hex :: "IdempotencyKey \<Rightarrow> string" where
  "key_to_hex k = uuid128_to_hex (key_raw k)"

definition key_from_hex :: "string \<Rightarrow> IdempotencyKey" where
  "key_from_hex s = IdempotencyKey (uuid128_from_hex s)"

definition key_generate :: "('g \<Rightarrow> u64 \<times> 'g) \<Rightarrow> 'g \<Rightarrow> IdempotencyKey \<times> 'g" where
  "key_generate draw g = (let (u, g') = uuid128_generate draw g in (IdempotencyKey u, g'))"

datatype IdempotencyVerdict = NEW | IN_PROGRESS_REPLAY | COMPLETED_REPLAY | CONFLICT | STALE

fun IdempotencyVerdict_to_string :: "IdempotencyVerdict \<Rightarrow> string" where
  "IdempotencyVerdict_to_string IdempotencyVerdict.NEW = ''NEW''"
| "IdempotencyVerdict_to_string IdempotencyVerdict.IN_PROGRESS_REPLAY = ''IN_PROGRESS_REPLAY''"
| "IdempotencyVerdict_to_string IdempotencyVerdict.COMPLETED_REPLAY = ''COMPLETED_REPLAY''"
| "IdempotencyVerdict_to_string IdempotencyVerdict.CONFLICT = ''CONFLICT''"
| "IdempotencyVerdict_to_string IdempotencyVerdict.STALE = ''STALE''"

text \<open>
  As for operation states, a state restored from a snapshot is cast without a range check:
  \<open>UNNAMED\<close> stands for the values that are no enumerator, 4 and above.
\<close>

datatype IdempotencyState = IN_PROGRESS | COMPLETED | FAILED | CONFLICT | UNNAMED u32

definition IdempotencyState_u32 :: "IdempotencyState \<Rightarrow> u32" where
  "IdempotencyState_u32 s =
     (case s of IdempotencyState.IN_PROGRESS \<Rightarrow> 0 | IdempotencyState.COMPLETED \<Rightarrow> 1
      | IdempotencyState.FAILED \<Rightarrow> 2 | IdempotencyState.CONFLICT \<Rightarrow> 3
      | IdempotencyState.UNNAMED n \<Rightarrow> n)"

definition IdempotencyState_cast :: "u32 \<Rightarrow> IdempotencyState" where
  "IdempotencyState_cast n =
     (if n = 0 then IdempotencyState.IN_PROGRESS else if n = 1 then IdempotencyState.COMPLETED
      else if n = 2 then IdempotencyState.FAILED else if n = 3 then IdempotencyState.CONFLICT
      else IdempotencyState.UNNAMED n)"

record Entry =
  ie_payload_hash :: u64
  ie_state :: IdempotencyState
  ie_result_metadata :: string
  ie_authority :: AuthorityEnvelope

definition default_entry :: Entry where
  "default_entry = \<lparr>ie_payload_hash = 0, ie_state = IdempotencyState.IN_PROGRESS,
     ie_result_metadata = [], ie_authority = empty_envelope\<rparr>"

type_synonym PairKey = "OperationId \<times> IdempotencyKey"

definition pair_hash :: "PairKey \<Rightarrow> u64" where
  "pair_hash k = (hash_uuid128 (raw (fst k)) * 31) XOR hash_uuid128 (key_raw (snd k))"

type_synonym IdempotencyStore = "(PairKey, Entry) umap"

record EntryView =
  ev_op :: OperationId
  ev_key :: IdempotencyKey
  ev_payload_hash :: u64
  ev_state :: IdempotencyState
  ev_result_metadata :: string

subsection \<open>Operations\<close>

definition idem_begin ::
  "OperationId \<Rightarrow> IdempotencyKey \<Rightarrow> u64 \<Rightarrow> AuthorityEnvelope \<Rightarrow> IdempotencyStore \<Rightarrow>
    IdempotencyVerdict \<times> IdempotencyStore" where
  "idem_begin op key hash auth s =
     (case map_of s (op, key) of
        None \<Rightarrow> (IdempotencyVerdict.NEW,
          um_emplace (op, key)
            (default_entry\<lparr>ie_payload_hash := hash, ie_state := IdempotencyState.IN_PROGRESS,
                           ie_authority := auth\<rparr>) s)
      | Some e \<Rightarrow>
          (if ie_payload_hash e \<noteq> hash then IdempotencyVerdict.CONFLICT
           else if ie_state e = IdempotencyState.CONFLICT then IdempotencyVerdict.CONFLICT
           else if ie_state e = IdempotencyState.COMPLETED then IdempotencyVerdict.COMPLETED_REPLAY
           else if ie_state e = IdempotencyState.FAILED then IdempotencyVerdict.NEW
           else IdempotencyVerdict.IN_PROGRESS_REPLAY, s))"

text \<open>\<open>entries_[pk]\<close>: the entry, created with its defaults when absent.\<close>

definition idem_at :: "PairKey \<Rightarrow> IdempotencyStore \<Rightarrow> Entry" where
  "idem_at pk s = (case map_of s pk of None \<Rightarrow> default_entry | Some e \<Rightarrow> e)"

definition idem_complete ::
  "OperationId \<Rightarrow> IdempotencyKey \<Rightarrow> string \<Rightarrow> IdempotencyStore \<Rightarrow> IdempotencyStore" where
  "idem_complete op key meta s =
     um_assign (op, key)
       ((idem_at (op, key) s)\<lparr>ie_state := IdempotencyState.COMPLETED,
                              ie_result_metadata := meta\<rparr>) s"

definition idem_fail ::
  "OperationId \<Rightarrow> IdempotencyKey \<Rightarrow> IdempotencyStore \<Rightarrow> IdempotencyStore" where
  "idem_fail op key s =
     (case map_of s (op, key) of None \<Rightarrow> s
      | Some e \<Rightarrow> um_assign (op, key) (e\<lparr>ie_state := IdempotencyState.FAILED\<rparr>) s)"

definition idem_mark_conflict ::
  "OperationId \<Rightarrow> IdempotencyKey \<Rightarrow> IdempotencyStore \<Rightarrow> IdempotencyStore" where
  "idem_mark_conflict op key s =
     um_assign (op, key) ((idem_at (op, key) s)\<lparr>ie_state := IdempotencyState.CONFLICT\<rparr>) s"

definition idem_prior_result ::
  "OperationId \<Rightarrow> IdempotencyKey \<Rightarrow> IdempotencyStore \<Rightarrow> string option" where
  "idem_prior_result op key s =
     (case map_of s (op, key) of None \<Rightarrow> None
      | Some e \<Rightarrow> if ie_state e = IdempotencyState.COMPLETED
                  then Some (ie_result_metadata e) else None)"

definition idem_has :: "OperationId \<Rightarrow> IdempotencyKey \<Rightarrow> IdempotencyStore \<Rightarrow> bool" where
  "idem_has op key s \<longleftrightarrow> map_of s (op, key) \<noteq> None"

definition idem_state :: "OperationId \<Rightarrow> IdempotencyKey \<Rightarrow> IdempotencyStore \<Rightarrow> IdempotencyState" where
  "idem_state op key s =
     (case map_of s (op, key) of None \<Rightarrow> IdempotencyState.IN_PROGRESS | Some e \<Rightarrow> ie_state e)"

definition idem_payload_hash :: "OperationId \<Rightarrow> IdempotencyKey \<Rightarrow> IdempotencyStore \<Rightarrow> u64" where
  "idem_payload_hash op key s =
     (case map_of s (op, key) of None \<Rightarrow> 0 | Some e \<Rightarrow> ie_payload_hash e)"

definition idem_restore ::
  "OperationId \<Rightarrow> IdempotencyKey \<Rightarrow> u64 \<Rightarrow> IdempotencyState \<Rightarrow> string \<Rightarrow> IdempotencyStore \<Rightarrow>
    IdempotencyStore" where
  "idem_restore op key hash st meta s =
     um_assign (op, key)
       (default_entry\<lparr>ie_payload_hash := hash, ie_state := st, ie_result_metadata := meta\<rparr>) s"

definition idem_view :: "PairKey \<times> Entry \<Rightarrow> EntryView" where
  "idem_view p = \<lparr>ev_op = fst (fst p), ev_key = snd (fst p),
     ev_payload_hash = ie_payload_hash (snd p), ev_state = ie_state (snd p),
     ev_result_metadata = ie_result_metadata (snd p)\<rparr>"

definition idem_collect :: "IdempotencyStore \<Rightarrow> EntryView list" where
  "idem_collect s = map idem_view s"

definition idem_size :: "IdempotencyStore \<Rightarrow> nat" where
  "idem_size s = length s"

definition idem_clear :: "IdempotencyStore \<Rightarrow> IdempotencyStore" where
  "idem_clear s = []"

subsection \<open>Runs\<close>

text \<open>The client calls on a store; \<open>restore\<close> and \<open>clear\<close> belong to snapshot loading.\<close>

datatype idem_event =
    Begin OperationId IdempotencyKey u64 AuthorityEnvelope
  | Complete OperationId IdempotencyKey string
  | Fail OperationId IdempotencyKey
  | MarkConflict OperationId IdempotencyKey

fun idem_apply :: "idem_event \<Rightarrow> IdempotencyStore \<Rightarrow> IdempotencyVerdict option \<times> IdempotencyStore" where
  "idem_apply (Begin op key h a) s = (let (v, s') = idem_begin op key h a s in (Some v, s'))"
| "idem_apply (Complete op key m) s = (None, idem_complete op key m s)"
| "idem_apply (Fail op key) s = (None, idem_fail op key s)"
| "idem_apply (MarkConflict op key) s = (None, idem_mark_conflict op key s)"

definition idem_step :: "idem_event \<Rightarrow> IdempotencyStore \<Rightarrow> IdempotencyStore" where
  "idem_step e s = snd (idem_apply e s)"

fun idem_results ::
  "idem_event list \<Rightarrow> IdempotencyStore \<Rightarrow> (idem_event \<times> IdempotencyVerdict option) list" where
  "idem_results [] s = []"
| "idem_results (e # es) s = (e, fst (idem_apply e s)) # idem_results es (idem_step e s)"

fun event_key :: "idem_event \<Rightarrow> PairKey" where
  "event_key (Begin op key h a) = (op, key)"
| "event_key (Complete op key m) = (op, key)"
| "event_key (Fail op key) = (op, key)"
| "event_key (MarkConflict op key) = (op, key)"

text \<open>The call that reopens a key, and the calls that take back a completion.\<close>

fun reopens :: "PairKey \<Rightarrow> idem_event \<Rightarrow> bool" where
  "reopens pk (Fail op key) = (pk = (op, key))"
| "reopens pk _ = False"

fun retracts :: "PairKey \<Rightarrow> idem_event \<Rightarrow> bool" where
  "retracts pk (Fail op key) = (pk = (op, key))"
| "retracts pk (MarkConflict op key) = (pk = (op, key))"
| "retracts pk _ = False"

subsection \<open>Lemmas\<close>

lemma idem_step_other: "event_key e \<noteq> pk \<Longrightarrow> map_of (idem_step e s) pk = map_of s pk"
  by (cases e)
    (auto simp: idem_step_def idem_begin_def idem_complete_def idem_fail_def
      idem_mark_conflict_def split: option.splits)

text \<open>A key, once present, keeps its payload hash.\<close>

definition hash_kept :: "IdempotencyStore \<Rightarrow> IdempotencyStore \<Rightarrow> bool" where
  "hash_kept s s' \<longleftrightarrow>
     (\<forall>pk e. map_of s pk = Some e \<longrightarrow>
       (\<exists>e'. map_of s' pk = Some e' \<and> ie_payload_hash e' = ie_payload_hash e))"

lemma idem_step_hash_kept: "hash_kept s (idem_step e s)"
  by (cases e)
    (auto simp: hash_kept_def idem_step_def idem_begin_def idem_complete_def idem_fail_def
      idem_mark_conflict_def idem_at_def split: option.splits)

lemma idem_step_wf: "um_wf s \<Longrightarrow> um_wf (idem_step e s)"
  by (cases e)
    (auto simp: idem_step_def idem_begin_def idem_complete_def idem_fail_def
      idem_mark_conflict_def um_wf_assign um_wf_emplace split: option.splits)

interpretation idem: monotone_system idem_step um_wf hash_kept
proof unfold_locales
  show "um_wf s \<Longrightarrow> um_wf (idem_step e s)" for s e by (rule idem_step_wf)
  show "hash_kept s s" for s by (simp add: hash_kept_def)
  show "hash_kept s t \<Longrightarrow> hash_kept t u \<Longrightarrow> hash_kept s u" for s t u
    unfolding hash_kept_def by metis
  show "um_wf s \<Longrightarrow> hash_kept s (idem_step e s)" for s e by (rule idem_step_hash_kept)
qed

text \<open>
  A key is claimed while an entry is neither failed nor absent: no submission under it gets
  the verdict \<open>NEW\<close>, and it stays claimed until it is reopened.
\<close>

definition claimed :: "PairKey \<Rightarrow> IdempotencyStore \<Rightarrow> bool" where
  "claimed pk s \<longleftrightarrow> (\<exists>e. map_of s pk = Some e \<and> ie_state e \<noteq> IdempotencyState.FAILED)"

lemma claimed_kept: "claimed pk s \<Longrightarrow> \<not> reopens pk e \<Longrightarrow> claimed pk (idem_step e s)"
  by (cases e)
    (auto simp: claimed_def idem_step_def idem_begin_def idem_complete_def idem_fail_def
      idem_mark_conflict_def idem_at_def split: option.splits)

lemma claimed_not_new: "claimed (op, key) s \<Longrightarrow> fst (idem_begin op key h a s) \<noteq> IdempotencyVerdict.NEW"
  by (auto simp: claimed_def idem_begin_def split: if_splits)

lemma new_claims:
  "fst (idem_begin op key h a s) = IdempotencyVerdict.NEW \<Longrightarrow> map_of s (op, key) = None \<Longrightarrow>
    claimed (op, key) (snd (idem_begin op key h a s))"
  by (simp add: claimed_def idem_begin_def default_entry_def)

fun is_new :: "PairKey \<Rightarrow> idem_event \<times> IdempotencyVerdict option \<Rightarrow> bool" where
  "is_new pk (Begin op key h a, v) = (pk = (op, key) \<and> v = Some IdempotencyVerdict.NEW)"
| "is_new pk _ = False"

lemma claimed_no_new:
  "claimed pk s \<Longrightarrow> \<forall>e \<in> set es. \<not> reopens pk e \<Longrightarrow> filter (is_new pk) (idem_results es s) = []"
proof (induction es arbitrary: s)
  case (Cons e es)
  then have "claimed pk (idem_step e s)" by (simp add: claimed_kept)
  moreover have "\<not> is_new pk (e, fst (idem_apply e s))"
    using Cons.prems(1) claimed_not_new by (cases e) (auto simp: case_prod_beta)
  ultimately show ?case using Cons by simp
qed simp

lemma idem_at_most_one_new:
  assumes "map_of s pk = None \<or> claimed pk s" and "\<forall>e \<in> set es. \<not> reopens pk e"
  shows "length (filter (is_new pk) (idem_results es s)) \<le> 1"
  using assms
proof (induction es arbitrary: s)
  case (Cons e es)
  show ?case
  proof (cases "is_new pk (e, fst (idem_apply e s))")
    case True
    then obtain op key h a where e: "e = Begin op key h a" "pk = (op, key)"
      and new: "fst (idem_begin op key h a s) = IdempotencyVerdict.NEW"
      by (cases e) (auto simp: case_prod_beta)
    have "map_of s pk = None" using Cons.prems(1) new claimed_not_new e by blast
    then have "claimed pk (idem_step e s)"
      using new_claims [OF new] e by (simp add: idem_step_def case_prod_beta)
    then show ?thesis using claimed_no_new Cons.prems(2) True by simp
  next
    case False
    have "map_of (idem_step e s) pk = None \<or> claimed pk (idem_step e s)"
    proof (cases "claimed pk s")
      case True
      then show ?thesis using Cons.prems(2) by (simp add: claimed_kept)
    next
      case nc: False
      then have none: "map_of s pk = None" using Cons.prems(1) by simp
      show ?thesis
      proof (cases "event_key e = pk")
        case True
        then show ?thesis
          using none False Cons.prems(2)
          by (cases e) (auto simp: claimed_def idem_step_def idem_begin_def idem_complete_def
              idem_mark_conflict_def idem_at_def case_prod_beta)
      next
        case False
        then show ?thesis using none by (simp add: idem_step_other)
      qed
    qed
    then show ?thesis using Cons.IH Cons.prems(2) False by simp
  qed
qed simp

lemma completed_kept:
  "map_of s pk = Some e \<Longrightarrow> ie_state e = IdempotencyState.COMPLETED \<Longrightarrow>
    \<forall>ev \<in> set es. \<not> retracts pk ev \<Longrightarrow>
    \<exists>e'. map_of (fold idem_step es s) pk = Some e' \<and> ie_state e' = IdempotencyState.COMPLETED \<and>
      ie_payload_hash e' = ie_payload_hash e"
proof (induction es arbitrary: s e)
  case (Cons ev es)
  have "\<exists>e'. map_of (idem_step ev s) pk = Some e' \<and> ie_state e' = IdempotencyState.COMPLETED \<and>
      ie_payload_hash e' = ie_payload_hash e"
    using Cons.prems
    by (cases ev)
      (auto simp: idem_step_def idem_begin_def idem_complete_def idem_fail_def
        idem_mark_conflict_def idem_at_def split: option.splits)
  then show ?case using Cons.IH Cons.prems(3) by (metis fold_simps(2) list.set_intros(2))
qed simp

lemma IdempotencyState_cast_u32:
  "(\<forall>n. s = IdempotencyState.UNNAMED n \<longrightarrow> \<not> n < 4) \<Longrightarrow>
    IdempotencyState_cast (IdempotencyState_u32 s) = s"
  by (cases s) (auto simp: IdempotencyState_cast_def IdempotencyState_u32_def)

subsection \<open>Properties\<close>

text \<open>
  C29: One submission wins: over any sequence of calls on an empty store, a key is handed out as new
  at most once, as long as it is not reopened by reporting a failure under it.
\<close>

theorem key_new_at_most_once:
  assumes "\<forall>e \<in> set es. \<not> reopens pk e"
  shows "length (filter (is_new pk) (idem_results es [])) \<le> 1"
  using assms by (intro idem_at_most_one_new) simp_all

theorem key_new_at_most_once_witness:
  "length (filter (is_new (null_id, IdempotencyKey uuid_zero))
     (idem_results [Begin null_id (IdempotencyKey uuid_zero) 7 empty_envelope,
        Complete null_id (IdempotencyKey uuid_zero) ''done'',
        Begin null_id (IdempotencyKey uuid_zero) 7 empty_envelope] [])) \<le> 1"
  by (rule key_new_at_most_once) simp

text \<open>
  C30: A key stays bound to its payload: once an entry exists, a submission under the same key with a
  different payload hash is a conflict, after any further sequence of calls.
\<close>

theorem payload_mismatch_conflicts:
  assumes "um_wf s" and "map_of s (op, key) = Some e" and "h \<noteq> ie_payload_hash e"
  shows "fst (idem_begin op key h a (fold idem_step es s)) = IdempotencyVerdict.CONFLICT"
proof -
  obtain e' where "map_of (fold idem_step es s) (op, key) = Some e'"
    "ie_payload_hash e' = ie_payload_hash e"
    using idem.run_rel [OF assms(1), of es] assms(2) unfolding hash_kept_def by blast
  then show ?thesis using assms(3) by (simp add: idem_begin_def)
qed

theorem payload_mismatch_conflicts_witness:
  "fst (idem_begin null_id (IdempotencyKey uuid_zero) 9 empty_envelope
     (fold idem_step [Fail null_id (IdempotencyKey uuid_zero)]
       [((null_id, IdempotencyKey uuid_zero), default_entry)])) = IdempotencyVerdict.CONFLICT"
  by (rule payload_mismatch_conflicts [where e = default_entry])
    (simp_all add: um_wf_def default_entry_def)

text \<open>
  C31: a completed result is replayed, not recomputed. After a completion that is neither failed nor
  marked as a conflict later, the same submission is a completed replay, whatever happened to other
  keys in between.
\<close>

theorem completed_is_replayed:
  assumes "map_of s (op, key) = Some e"
    and "\<forall>ev \<in> set es. \<not> retracts (op, key) ev"
  shows "fst (idem_begin op key (ie_payload_hash e) a
      (fold idem_step es (idem_complete op key meta s))) = IdempotencyVerdict.COMPLETED_REPLAY"
proof -
  have "map_of (idem_complete op key meta s) (op, key) =
      Some (e\<lparr>ie_state := IdempotencyState.COMPLETED, ie_result_metadata := meta\<rparr>)"
    using assms(1) by (simp add: idem_complete_def idem_at_def)
  from completed_kept [OF this _ assms(2)]
  obtain e' where "map_of (fold idem_step es (idem_complete op key meta s)) (op, key) = Some e'"
    "ie_state e' = IdempotencyState.COMPLETED" "ie_payload_hash e' = ie_payload_hash e" by auto
  then show ?thesis by (simp add: idem_begin_def)
qed

theorem completed_is_replayed_witness:
  "fst (idem_begin null_id (IdempotencyKey uuid_zero) 0 empty_envelope
     (fold idem_step [Begin null_id (IdempotencyKey uuid_zero) 5 empty_envelope]
       (idem_complete null_id (IdempotencyKey uuid_zero) ''ok''
         [((null_id, IdempotencyKey uuid_zero), default_entry)]))) = IdempotencyVerdict.COMPLETED_REPLAY"
  using completed_is_replayed [of "[((null_id, IdempotencyKey uuid_zero), default_entry)]" null_id
    "IdempotencyKey uuid_zero" default_entry "[Begin null_id (IdempotencyKey uuid_zero) 5 empty_envelope]"
    empty_envelope "''ok''"]
  by (simp add: default_entry_def)

end
