(* ===== verification/FF_Registry.thy ===== *)
theory FF_Registry
  imports FF_Operation FF_Idempotency
begin

text \<open>
  The operation registry (\<open>include/failure_fabric/operation_registry.hpp\<close>,
  \<open>src/operation_registry.cpp\<close>): one runtime per operation, every call fenced by authority
  and guarded by the state machine. Each member function locks the registry's mutex for its
  whole body, so every concurrent use is a sequence of calls: the events of a run.
\<close>

subsection \<open>Data\<close>

datatype ApplyResult =
    OK | STALE_REJECTED | ILLEGAL_TRANSITION | ALREADY_TERMINAL
  | CONFLICT | UNKNOWN_OPERATION | FENCED | ALREADY_REPORTED

fun ApplyResult_to_string :: "ApplyResult \<Rightarrow> string" where
  "ApplyResult_to_string ApplyResult.OK = ''OK''"
| "ApplyResult_to_string ApplyResult.STALE_REJECTED = ''STALE_REJECTED''"
| "ApplyResult_to_string ApplyResult.ILLEGAL_TRANSITION = ''ILLEGAL_TRANSITION''"
| "ApplyResult_to_string ApplyResult.ALREADY_TERMINAL = ''ALREADY_TERMINAL''"
| "ApplyResult_to_string ApplyResult.CONFLICT = ''CONFLICT''"
| "ApplyResult_to_string ApplyResult.UNKNOWN_OPERATION = ''UNKNOWN_OPERATION''"
| "ApplyResult_to_string ApplyResult.FENCED = ''FENCED''"
| "ApplyResult_to_string ApplyResult.ALREADY_REPORTED = ''ALREADY_REPORTED''"

record OperationRuntime =
  rt_machine :: OperationStateMachine
  rt_authority :: AuthorityEnvelope
  rt_terminal :: AuthorityEnvelope
  rt_terminal_recorded :: bool
  rt_attempt_count :: u32
  rt_terminal_outcome :: string
  rt_idempotent :: bool
  rt_idem_key :: IdempotencyKey

definition default_runtime :: OperationRuntime where
  "default_runtime = \<lparr>rt_machine = OperationStateMachine OperationState.CREATED,
     rt_authority = empty_envelope, rt_terminal = empty_envelope, rt_terminal_recorded = False,
     rt_attempt_count = 0, rt_terminal_outcome = [], rt_idempotent = False,
     rt_idem_key = IdempotencyKey uuid_zero\<rparr>"

abbreviation rt_state :: "OperationRuntime \<Rightarrow> OperationState" where
  "rt_state r \<equiv> sm_state (rt_machine r)"

type_synonym OperationRegistry = "(OperationId, OperationRuntime) umap"

subsection \<open>Calls on one runtime\<close>

text \<open>
  The bodies after the lookup: from the runtime the iterator points to, the result and the
  runtime left behind.
\<close>

definition rt_dispatch :: "AuthorityEnvelope \<Rightarrow> OperationRuntime \<Rightarrow> ApplyResult \<times> OperationRuntime" where
  "rt_dispatch attempt r =
     (if rt_terminal_recorded r then (ApplyResult.ALREADY_TERMINAL, r)
      else let r = r\<lparr>rt_authority := attempt\<rparr>; s = rt_state r in
        if is_terminal s then (ApplyResult.ILLEGAL_TRANSITION, r)
        else let r = (if s \<noteq> OperationState.DISPATCHED
                      then r\<lparr>rt_machine := snd (sm_reset (rt_machine r) OperationState.DISPATCHED)\<rparr>
                      else r)
             in (ApplyResult.OK, r\<lparr>rt_attempt_count := rt_attempt_count r + 1\<rparr>))"

definition rt_run :: "AuthorityEnvelope \<Rightarrow> OperationRuntime \<Rightarrow> ApplyResult \<times> OperationRuntime" where
  "rt_run attempt r =
     (if rt_terminal_recorded r then (ApplyResult.ALREADY_TERMINAL, r)
      else if \<not> fence_accepted (fence_failure attempt (rt_authority r))
      then (ApplyResult.STALE_REJECTED, r)
      else let (ok, m) = sm_transition (rt_machine r) OperationState.RUNNING in
        if \<not> ok then (ApplyResult.ILLEGAL_TRANSITION, r\<lparr>rt_machine := m\<rparr>)
        else (ApplyResult.OK, r\<lparr>rt_machine := m\<rparr>))"

definition rt_report_completion ::
  "AuthorityEnvelope \<Rightarrow> bool \<Rightarrow> OperationRuntime \<Rightarrow> ApplyResult \<times> OperationRuntime" where
  "rt_report_completion attempt partial r =
     (if rt_terminal_recorded r then (ApplyResult.ALREADY_TERMINAL, r)
      else if \<not> fence_accepted (fence_completion attempt (rt_authority r) (rt_terminal r))
      then (ApplyResult.STALE_REJECTED, r)
      else if rt_state r = OperationState.COMPLETION_REPORTED \<or>
              rt_state r = OperationState.COMPLETION_CONFIRMED
      then (ApplyResult.ALREADY_REPORTED, r)
      else let (ok, m) = sm_transition (rt_machine r)
             (if partial then OperationState.PARTIALLY_SUCCEEDED
              else OperationState.COMPLETION_REPORTED) in
        if \<not> ok then (ApplyResult.ILLEGAL_TRANSITION, r\<lparr>rt_machine := m\<rparr>)
        else (ApplyResult.OK, r\<lparr>rt_machine := m\<rparr>))"

definition rt_confirm_completion ::
  "AuthorityEnvelope \<Rightarrow> OperationRuntime \<Rightarrow> ApplyResult \<times> OperationRuntime" where
  "rt_confirm_completion attempt r =
     (if rt_terminal_recorded r then (ApplyResult.ALREADY_TERMINAL, r)
      else if \<not> fence_accepted (fence_completion attempt (rt_authority r) (rt_terminal r))
      then (ApplyResult.STALE_REJECTED, r)
      else let (ok, m) = sm_transition (rt_machine r) OperationState.COMPLETION_CONFIRMED in
        if \<not> ok then (ApplyResult.ILLEGAL_TRANSITION, r\<lparr>rt_machine := m\<rparr>)
        else (ApplyResult.OK,
          r\<lparr>rt_machine := m, rt_terminal_recorded := True, rt_terminal := attempt,
            rt_terminal_outcome := ''COMPLETED''\<rparr>))"

definition rt_report_failure ::
  "AuthorityEnvelope \<Rightarrow> bool \<Rightarrow> OperationRuntime \<Rightarrow> ApplyResult \<times> OperationRuntime" where
  "rt_report_failure attempt ambiguous r =
     (if rt_terminal_recorded r then (ApplyResult.ALREADY_TERMINAL, r)
      else if \<not> fence_accepted (fence_failure attempt (rt_authority r))
      then (ApplyResult.STALE_REJECTED, r)
      else let (ok, m) = sm_transition (rt_machine r)
             (if ambiguous then OperationState.FAILED_AMBIGUOUS else OperationState.FAILED_KNOWN) in
        if \<not> ok then (ApplyResult.ILLEGAL_TRANSITION, r\<lparr>rt_machine := m\<rparr>)
        else (ApplyResult.OK, r\<lparr>rt_machine := m\<rparr>))"

definition rt_transition ::
  "OperationState \<Rightarrow> AuthorityEnvelope \<Rightarrow> OperationRuntime \<Rightarrow> ApplyResult \<times> OperationRuntime" where
  "rt_transition to attempt r =
     (if rt_terminal_recorded r then (ApplyResult.ALREADY_TERMINAL, r)
      else if \<not> fence_accepted (fence_failure attempt (rt_authority r))
      then (ApplyResult.STALE_REJECTED, r)
      else let (ok, m) = sm_transition (rt_machine r) to in
        if \<not> ok then (ApplyResult.ILLEGAL_TRANSITION, r\<lparr>rt_machine := m\<rparr>)
        else (ApplyResult.OK, r\<lparr>rt_machine := m\<rparr>))"

text \<open>The chain of \<open>||\<close>: the first state of the list the machine can move to.\<close>

fun first_transition ::
  "OperationStateMachine \<Rightarrow> OperationState list \<Rightarrow> bool \<times> OperationStateMachine" where
  "first_transition m [] = (False, m)"
| "first_transition m (s # ss) =
     (let (ok, m') = sm_transition m s in if ok then (True, m') else first_transition m' ss)"

definition rt_record_terminal ::
  "AuthorityEnvelope \<Rightarrow> string \<Rightarrow> OperationRuntime \<Rightarrow> ApplyResult \<times> OperationRuntime" where
  "rt_record_terminal attempt outcome r =
     (if rt_terminal_recorded r
      then if rt_terminal_outcome r = outcome then (ApplyResult.OK, r)
           else (ApplyResult.ALREADY_TERMINAL, r)
      else if \<not> fence_accepted (fence_failure attempt (rt_authority r))
      then (ApplyResult.STALE_REJECTED, r)
      else let (ok, m) = first_transition (rt_machine r)
             [OperationState.TERMINAL_FAILED, OperationState.CANCELLED, OperationState.RECOVERED,
              OperationState.ABANDONED, OperationState.COMPLETION_CONFIRMED] in
        if \<not> ok then (ApplyResult.ILLEGAL_TRANSITION, r\<lparr>rt_machine := m\<rparr>)
        else (ApplyResult.OK,
          r\<lparr>rt_machine := m, rt_terminal_recorded := True, rt_terminal := attempt,
            rt_terminal_outcome := outcome\<rparr>))"

subsection \<open>Calls on the registry\<close>

text \<open>The common prologue: look the operation up, run the body on the runtime in place.\<close>

definition on_op ::
  "OperationId \<Rightarrow> (OperationRuntime \<Rightarrow> ApplyResult \<times> OperationRuntime) \<Rightarrow> OperationRegistry \<Rightarrow>
    ApplyResult \<times> OperationRegistry" where
  "on_op op body reg =
     (case map_of reg op of
        None \<Rightarrow> (ApplyResult.UNKNOWN_OPERATION, reg)
      | Some r \<Rightarrow> let (res, r') = body r in (res, um_assign op r' reg))"

definition reg_create ::
  "OperationId \<Rightarrow> AuthorityEnvelope \<Rightarrow> OperationRegistry \<Rightarrow> ApplyResult \<times> OperationRegistry" where
  "reg_create op initial reg =
     (if um_count op reg then (ApplyResult.ALREADY_TERMINAL, reg)
      else let r = default_runtime\<lparr>rt_authority := initial\<rparr>;
               r = r\<lparr>rt_machine := snd (sm_reset (rt_machine r) OperationState.CREATED)\<rparr>
           in (ApplyResult.OK, um_emplace op r reg))"

definition reg_dispatch ::
  "OperationId \<Rightarrow> AuthorityEnvelope \<Rightarrow> OperationRegistry \<Rightarrow> ApplyResult \<times> OperationRegistry" where
  "reg_dispatch op attempt reg = on_op op (rt_dispatch attempt) reg"

definition reg_run ::
  "OperationId \<Rightarrow> AuthorityEnvelope \<Rightarrow> OperationRegistry \<Rightarrow> ApplyResult \<times> OperationRegistry" where
  "reg_run op attempt reg = on_op op (rt_run attempt) reg"

definition reg_report_completion ::
  "OperationId \<Rightarrow> AuthorityEnvelope \<Rightarrow> bool \<Rightarrow> OperationRegistry \<Rightarrow> ApplyResult \<times> OperationRegistry" where
  "reg_report_completion op attempt partial reg = on_op op (rt_report_completion attempt partial) reg"

definition reg_confirm_completion ::
  "OperationId \<Rightarrow> AuthorityEnvelope \<Rightarrow> OperationRegistry \<Rightarrow> ApplyResult \<times> OperationRegistry" where
  "reg_confirm_completion op attempt reg = on_op op (rt_confirm_completion attempt) reg"

definition reg_report_failure ::
  "OperationId \<Rightarrow> AuthorityEnvelope \<Rightarrow> bool \<Rightarrow> OperationRegistry \<Rightarrow> ApplyResult \<times> OperationRegistry" where
  "reg_report_failure op attempt ambiguous reg = on_op op (rt_report_failure attempt ambiguous) reg"

definition reg_transition ::
  "OperationId \<Rightarrow> OperationState \<Rightarrow> AuthorityEnvelope \<Rightarrow> OperationRegistry \<Rightarrow>
    ApplyResult \<times> OperationRegistry" where
  "reg_transition op to attempt reg = on_op op (rt_transition to attempt) reg"

definition reg_record_terminal ::
  "OperationId \<Rightarrow> AuthorityEnvelope \<Rightarrow> string \<Rightarrow> OperationRegistry \<Rightarrow> ApplyResult \<times> OperationRegistry" where
  "reg_record_terminal op attempt outcome reg = on_op op (rt_record_terminal attempt outcome) reg"

definition reg_has :: "OperationId \<Rightarrow> OperationRegistry \<Rightarrow> bool" where
  "reg_has op reg = um_count op reg"

definition reg_state :: "OperationId \<Rightarrow> OperationRegistry \<Rightarrow> OperationState" where
  "reg_state op reg =
     (case map_of reg op of None \<Rightarrow> OperationState.CREATED | Some r \<Rightarrow> rt_state r)"

definition reg_current_authority :: "OperationId \<Rightarrow> OperationRegistry \<Rightarrow> AuthorityEnvelope" where
  "reg_current_authority op reg =
     (case map_of reg op of None \<Rightarrow> empty_envelope | Some r \<Rightarrow> rt_authority r)"

definition reg_find :: "OperationId \<Rightarrow> OperationRegistry \<Rightarrow> OperationRuntime option" where
  "reg_find op reg = map_of reg op"

definition reg_operations :: "OperationRegistry \<Rightarrow> OperationId list" where
  "reg_operations reg = map fst reg"

definition reg_size :: "OperationRegistry \<Rightarrow> nat" where
  "reg_size reg = length reg"

definition reg_restore :: "OperationId \<Rightarrow> OperationRuntime \<Rightarrow> OperationRegistry \<Rightarrow> bool \<times> OperationRegistry" where
  "reg_restore op rt reg =
     (if um_count op reg then (False, reg) else (True, um_emplace op rt reg))"

definition reg_clear :: "OperationRegistry \<Rightarrow> OperationRegistry" where
  "reg_clear reg = []"

subsection \<open>Runs\<close>

text \<open>
  The calls a running system makes on a registry. \<open>clear\<close> and \<open>restore\<close>, with which the
  store replaces the whole content when it is loaded or cleared, are not calls of this language: what is shown of
  runs is shown of sequences without them.
\<close>

datatype reg_event =
    Create OperationId AuthorityEnvelope
  | Dispatch OperationId AuthorityEnvelope
  | Run OperationId AuthorityEnvelope
  | ReportCompletion OperationId AuthorityEnvelope bool
  | ConfirmCompletion OperationId AuthorityEnvelope
  | ReportFailure OperationId AuthorityEnvelope bool
  | Transition OperationId OperationState AuthorityEnvelope
  | RecordTerminal OperationId AuthorityEnvelope string

fun reg_apply :: "reg_event \<Rightarrow> OperationRegistry \<Rightarrow> ApplyResult \<times> OperationRegistry" where
  "reg_apply (Create op a) reg = reg_create op a reg"
| "reg_apply (Dispatch op a) reg = reg_dispatch op a reg"
| "reg_apply (Run op a) reg = reg_run op a reg"
| "reg_apply (ReportCompletion op a p) reg = reg_report_completion op a p reg"
| "reg_apply (ConfirmCompletion op a) reg = reg_confirm_completion op a reg"
| "reg_apply (ReportFailure op a amb) reg = reg_report_failure op a amb reg"
| "reg_apply (Transition op to a) reg = reg_transition op to a reg"
| "reg_apply (RecordTerminal op a out) reg = reg_record_terminal op a out reg"

definition reg_step :: "reg_event \<Rightarrow> OperationRegistry \<Rightarrow> OperationRegistry" where
  "reg_step e reg = snd (reg_apply e reg)"

fun reg_results :: "reg_event list \<Rightarrow> OperationRegistry \<Rightarrow> (reg_event \<times> ApplyResult) list" where
  "reg_results [] reg = []"
| "reg_results (e # es) reg = (e, fst (reg_apply e reg)) # reg_results es (reg_step e reg)"

text \<open>The operation an event is about, and its body when it is not a creation.\<close>

fun event_op :: "reg_event \<Rightarrow> OperationId" where
  "event_op (Create op a) = op"
| "event_op (Dispatch op a) = op"
| "event_op (Run op a) = op"
| "event_op (ReportCompletion op a p) = op"
| "event_op (ConfirmCompletion op a) = op"
| "event_op (ReportFailure op a amb) = op"
| "event_op (Transition op to a) = op"
| "event_op (RecordTerminal op a out) = op"

fun event_body :: "reg_event \<Rightarrow> OperationRuntime \<Rightarrow> ApplyResult \<times> OperationRuntime" where
  "event_body (Create op a) r = (ApplyResult.ALREADY_TERMINAL, r)"
| "event_body (Dispatch op a) r = rt_dispatch a r"
| "event_body (Run op a) r = rt_run a r"
| "event_body (ReportCompletion op a p) r = rt_report_completion a p r"
| "event_body (ConfirmCompletion op a) r = rt_confirm_completion a r"
| "event_body (ReportFailure op a amb) r = rt_report_failure a amb r"
| "event_body (Transition op to a) r = rt_transition to a r"
| "event_body (RecordTerminal op a out) r = rt_record_terminal a out r"

fun event_envelope :: "reg_event \<Rightarrow> AuthorityEnvelope" where
  "event_envelope (Create op a) = a"
| "event_envelope (Dispatch op a) = a"
| "event_envelope (Run op a) = a"
| "event_envelope (ReportCompletion op a p) = a"
| "event_envelope (ConfirmCompletion op a) = a"
| "event_envelope (ReportFailure op a amb) = a"
| "event_envelope (Transition op to a) = a"
| "event_envelope (RecordTerminal op a out) = a"

fun rebinds :: "OperationId \<Rightarrow> reg_event \<Rightarrow> bool" where
  "rebinds op (Dispatch op' a) = (op = op')"
| "rebinds op _ = False"

subsection \<open>One call on one runtime\<close>

lemmas rt_defs = rt_dispatch_def rt_run_def rt_report_completion_def rt_confirm_completion_def
  rt_report_failure_def rt_transition_def rt_record_terminal_def

lemma sm_transition_pair:
  "sm_transition m to =
     (is_allowed (sm_state m) to, if is_allowed (sm_state m) to then OperationStateMachine to else m)"
  by (simp add: sm_transition_def can_transition_def)

lemma first_transition_fail: "\<not> fst (first_transition m ss) \<Longrightarrow> snd (first_transition m ss) = m"
  by (induction m ss rule: first_transition.induct) (auto simp: sm_transition_pair Let_def split: if_splits)

lemma first_transition_ok:
  "fst (first_transition m ss) \<Longrightarrow>
    \<exists>s \<in> set ss. is_allowed (sm_state m) s \<and> snd (first_transition m ss) = OperationStateMachine s"
  by (induction m ss rule: first_transition.induct) (auto simp: sm_transition_pair Let_def split: if_splits)

lemma first_transition_eq:
  "fst (first_transition m ss) = (\<exists>s \<in> set ss. is_allowed (sm_state m) s)"
  by (induction m ss rule: first_transition.induct) (auto simp: sm_transition_pair Let_def)

lemma record_terminal_cases:
  assumes "\<not> rt_terminal_recorded r"
  obtains (stale) "\<not> fence_accepted (fence_failure a (rt_authority r))"
      "rt_record_terminal a out r = (ApplyResult.STALE_REJECTED, r)"
  | (illegal) "rt_record_terminal a out r = (ApplyResult.ILLEGAL_TRANSITION, r)"
  | (recorded) s where "fence_accepted (fence_failure a (rt_authority r))" "is_terminal s"
      "is_allowed (rt_state r) s"
      "rt_record_terminal a out r = (ApplyResult.OK,
         r\<lparr>rt_machine := OperationStateMachine s, rt_terminal_recorded := True, rt_terminal := a,
           rt_terminal_outcome := out\<rparr>)"
proof -
  let ?ss = "[OperationState.TERMINAL_FAILED, OperationState.CANCELLED, OperationState.RECOVERED,
              OperationState.ABANDONED, OperationState.COMPLETION_CONFIRMED]"
  show thesis
  proof (cases "fence_accepted (fence_failure a (rt_authority r))")
    case False
    then show ?thesis using assms by (intro stale) (simp_all add: rt_record_terminal_def)
  next
    case acc: True
    show ?thesis
    proof (cases "fst (first_transition (rt_machine r) ?ss)")
      case True
      from first_transition_ok [OF this] obtain s where "s \<in> set ?ss"
        "is_allowed (rt_state r) s" "snd (first_transition (rt_machine r) ?ss) = OperationStateMachine s"
        by blast
      then show ?thesis using assms acc True
        by (intro recorded [of s]) (auto simp: rt_record_terminal_def is_terminal_def case_prod_beta)
    next
      case False
      then have m: "snd (first_transition (rt_machine r) ?ss) = rt_machine r"
        by (rule first_transition_fail)
      then show ?thesis using assms acc False
        by (intro illegal) (simp add: rt_record_terminal_def case_prod_beta del: first_transition.simps)
    qed
  qed
qed

text \<open>A recorded terminal outcome freezes the runtime.\<close>

lemma body_frozen: "rt_terminal_recorded r \<Longrightarrow> snd (event_body e r) = r"
  by (cases e) (simp_all add: rt_defs)

lemma body_terminal_state:
  "is_terminal (rt_state r) \<Longrightarrow> rt_state (snd (event_body e r)) = rt_state r"
proof (cases "rt_terminal_recorded r")
  case False
  assume t: "is_terminal (rt_state r)"
  show ?thesis
  proof (cases e)
    case (RecordTerminal op a out)
    from False show ?thesis
      by (cases rule: record_terminal_cases [of r a out])
        (use t RecordTerminal terminal_no_exit in auto)
  qed (use t in \<open>simp_all add: rt_defs sm_transition_pair terminal_no_exit Let_def\<close>)
qed (simp add: body_frozen)

lemma body_edge:
  "rt_state (snd (event_body e r)) = rt_state r \<or>
   is_allowed (rt_state r) (rt_state (snd (event_body e r))) \<or>
   (rt_state (snd (event_body e r)) = OperationState.DISPATCHED \<and> \<not> is_terminal (rt_state r) \<and>
    (\<exists>op a. e = Dispatch op a))"
proof (cases "rt_terminal_recorded r")
  case False
  show ?thesis
  proof (cases e)
    case (RecordTerminal op a out)
    from False show ?thesis
      by (cases rule: record_terminal_cases [of r a out]) (use RecordTerminal in auto)
  qed (simp_all add: rt_defs sm_transition_pair Let_def)
qed (simp add: body_frozen)

lemma body_authority:
  "\<not> rebinds (event_op e) e \<Longrightarrow> rt_authority (snd (event_body e r)) = rt_authority r"
proof (cases "rt_terminal_recorded r")
  case False
  assume d: "\<not> rebinds (event_op e) e"
  show ?thesis
  proof (cases e)
    case (RecordTerminal op a out)
    from False show ?thesis
      by (cases rule: record_terminal_cases [of r a out]) (use RecordTerminal in auto)
  qed (use d in \<open>simp_all add: rt_defs sm_transition_pair Let_def\<close>)
qed (simp add: body_frozen)

text \<open>An event with a fenced envelope has no effect and is never answered \<open>OK\<close>.\<close>

fun fenced_call :: "reg_event \<Rightarrow> bool" where
  "fenced_call (Create op a) = False"
| "fenced_call (Dispatch op a) = False"
| "fenced_call _ = True"

lemma body_stale:
  assumes "fenced_call e" "\<not> fence_accepted (fence_failure (event_envelope e) (rt_authority r))"
    and "\<not> rt_terminal_recorded r"
  shows "event_body e r = (ApplyResult.STALE_REJECTED, r)"
  using assms fence_completion_implies_failure
  by (cases e) (auto simp: rt_defs)

lemma body_recorded_result:
  "rt_terminal_recorded r \<Longrightarrow> fst (event_body e r) =
    (case e of RecordTerminal op a out \<Rightarrow>
       if rt_terminal_outcome r = out then ApplyResult.OK else ApplyResult.ALREADY_TERMINAL
     | _ \<Rightarrow> ApplyResult.ALREADY_TERMINAL)"
  by (cases e) (simp_all add: rt_defs)

text \<open>
  The runtime invariant: a recorded outcome belongs to a terminal state, and a runtime
  without one carries no terminal authority and no outcome.
\<close>

definition rt_inv :: "OperationRuntime \<Rightarrow> bool" where
  "rt_inv r \<longleftrightarrow>
     (rt_terminal_recorded r \<longrightarrow> is_terminal (rt_state r) \<and> rt_terminal r \<noteq> empty_envelope) \<and>
     (\<not> rt_terminal_recorded r \<longrightarrow> rt_terminal r = empty_envelope \<and> rt_terminal_outcome r = [])"

lemma body_inv: "rt_inv r \<Longrightarrow> rt_inv (snd (event_body e r))"
proof (cases "rt_terminal_recorded r")
  case False
  assume i: "rt_inv r"
  show ?thesis
  proof (cases e)
    case (RecordTerminal op a out)
    from False show ?thesis
      by (cases rule: record_terminal_cases [of r a out])
        (use i RecordTerminal in \<open>auto simp: rt_inv_def fence_failure_accepts\<close>)
  next
    case (ConfirmCompletion op a)
    then show ?thesis using i False
      by (auto simp: rt_inv_def rt_defs sm_transition_pair Let_def fence_completion_accepts
          is_terminal_def)
  qed (use i False in \<open>simp_all add: rt_inv_def rt_defs sm_transition_pair Let_def\<close>)
qed (simp add: body_frozen)

subsection \<open>One call on the registry\<close>

lemma reg_apply_existing:
  assumes "map_of reg (event_op e) = Some r"
  shows "fst (reg_apply e reg) = fst (event_body e r)"
    and "map_of (reg_step e reg) = (map_of reg)(event_op e \<mapsto> snd (event_body e r))"
proof -
  show "fst (reg_apply e reg) = fst (event_body e r)"
    using assms by (cases e)
      (simp_all add: reg_create_def reg_dispatch_def reg_run_def reg_report_completion_def
        reg_confirm_completion_def reg_report_failure_def reg_transition_def
        reg_record_terminal_def on_op_def case_prod_beta)
  show "map_of (reg_step e reg) = (map_of reg)(event_op e \<mapsto> snd (event_body e r))"
    using assms by (cases e)
      (simp_all add: reg_step_def reg_create_def reg_dispatch_def reg_run_def
        reg_report_completion_def reg_confirm_completion_def reg_report_failure_def
        reg_transition_def reg_record_terminal_def on_op_def case_prod_beta map_upd_triv)
qed

lemma reg_apply_unknown:
  assumes "map_of reg (event_op e) = None"
  shows "(\<exists>op a. e = Create op a \<and> fst (reg_apply e reg) = ApplyResult.OK \<and>
            reg_step e reg = (op, default_runtime\<lparr>rt_authority := a\<rparr>) # reg) \<or>
         (fst (reg_apply e reg) = ApplyResult.UNKNOWN_OPERATION \<and> reg_step e reg = reg)"
  using assms by (cases e)
    (simp_all add: reg_step_def reg_create_def reg_dispatch_def reg_run_def
      reg_report_completion_def reg_confirm_completion_def reg_report_failure_def
      reg_transition_def reg_record_terminal_def on_op_def um_emplace_def default_runtime_def)

lemma reg_step_other: "event_op e \<noteq> op \<Longrightarrow> map_of (reg_step e reg) op = map_of reg op"
proof (cases "map_of reg (event_op e)")
  case None
  assume "event_op e \<noteq> op"
  then show ?thesis using reg_apply_unknown [OF None] by fastforce
next
  case (Some r)
  assume "event_op e \<noteq> op"
  then show ?thesis using reg_apply_existing(2) [OF Some] by simp
qed

lemma reg_step_wf: "um_wf reg \<Longrightarrow> um_wf (reg_step e reg)"
  by (cases e)
    (auto simp: reg_step_def reg_create_def reg_dispatch_def reg_run_def
      reg_report_completion_def reg_confirm_completion_def reg_report_failure_def
      reg_transition_def reg_record_terminal_def on_op_def case_prod_beta
      um_wf_assign um_wf_emplace split: option.splits)

definition reg_inv :: "OperationRegistry \<Rightarrow> bool" where
  "reg_inv reg \<longleftrightarrow> um_wf reg \<and> (\<forall>op r. map_of reg op = Some r \<longrightarrow> rt_inv r)"

lemma rt_inv_initial: "rt_inv (default_runtime\<lparr>rt_authority := a\<rparr>)"
  by (simp add: rt_inv_def default_runtime_def)

lemma reg_step_inv: "reg_inv reg \<Longrightarrow> reg_inv (reg_step e reg)"
proof -
  assume i: "reg_inv reg"
  have "rt_inv r'" if "map_of (reg_step e reg) op = Some r'" for op r'
  proof (cases "map_of reg (event_op e)")
    case None
    then show ?thesis using reg_apply_unknown [OF None] that i rt_inv_initial
      by (auto simp: reg_inv_def split: if_splits)
  next
    case (Some r)
    then have "rt_inv r" using i by (auto simp: reg_inv_def)
    then show ?thesis using that i body_inv
      by (auto simp: reg_apply_existing(2) [OF Some] reg_inv_def split: if_splits)
  qed
  then show ?thesis using i by (auto simp: reg_inv_def reg_step_wf)
qed

text \<open>What no run changes: a recorded outcome, and a terminal state.\<close>

definition outcome_kept :: "OperationRegistry \<Rightarrow> OperationRegistry \<Rightarrow> bool" where
  "outcome_kept reg reg' \<longleftrightarrow>
     (\<forall>op r. map_of reg op = Some r \<longrightarrow> (\<exists>r'. map_of reg' op = Some r' \<and>
        (rt_terminal_recorded r \<longrightarrow> r' = r) \<and>
        (is_terminal (rt_state r) \<longrightarrow> rt_state r' = rt_state r)))"

lemma reg_step_kept: "outcome_kept reg (reg_step e reg)"
  unfolding outcome_kept_def
proof (intro allI impI)
  fix op r assume r: "map_of reg op = Some r"
  show "\<exists>r'. map_of (reg_step e reg) op = Some r' \<and> (rt_terminal_recorded r \<longrightarrow> r' = r) \<and>
        (is_terminal (rt_state r) \<longrightarrow> rt_state r' = rt_state r)"
  proof (cases "event_op e = op")
    case True
    then show ?thesis using r reg_apply_existing(2) [of reg e r]
      by (simp add: body_frozen body_terminal_state)
  next
    case False
    then show ?thesis using r by (simp add: reg_step_other)
  qed
qed

interpretation reg: monotone_system reg_step reg_inv outcome_kept
proof unfold_locales
  show "reg_inv s \<Longrightarrow> reg_inv (reg_step e s)" for s e by (rule reg_step_inv)
  show "outcome_kept s s" for s by (simp add: outcome_kept_def)
  show "outcome_kept s t \<Longrightarrow> outcome_kept t u \<Longrightarrow> outcome_kept s u" for s t u
    unfolding outcome_kept_def by metis
  show "reg_inv s \<Longrightarrow> outcome_kept s (reg_step e s)" for s e by (rule reg_step_kept)
qed

subsection \<open>Runs of the registry\<close>

text \<open>The outcome an event records for an operation when it is answered \<open>OK\<close>.\<close>

fun terminal_claim :: "OperationId \<Rightarrow> reg_event \<Rightarrow> string option" where
  "terminal_claim op (ConfirmCompletion op' a) = (if op = op' then Some ''COMPLETED'' else None)"
| "terminal_claim op (RecordTerminal op' a out) = (if op = op' then Some out else None)"
| "terminal_claim op _ = None"

definition has_outcome :: "OperationId \<Rightarrow> string \<Rightarrow> OperationRegistry \<Rightarrow> bool" where
  "has_outcome op out reg \<longleftrightarrow>
     (\<exists>r. map_of reg op = Some r \<and> rt_terminal_recorded r \<and> rt_terminal_outcome r = out)"

lemma claim_recorded:
  assumes "terminal_claim op e = Some out" "fst (reg_apply e reg) = ApplyResult.OK"
  shows "has_outcome op out (reg_step e reg)"
proof -
  have op: "event_op e = op" using assms(1) by (cases e) (auto split: if_splits)
  obtain r where r: "map_of reg op = Some r"
    using assms op reg_apply_unknown [of reg e] by (cases "map_of reg op") fastforce+
  have ok: "fst (event_body e r) = ApplyResult.OK"
    using assms(2) reg_apply_existing(1) [of reg e r] r op by simp
  have "rt_terminal_recorded (snd (event_body e r)) \<and> rt_terminal_outcome (snd (event_body e r)) = out"
  proof (cases e)
    case (RecordTerminal op' a out')
    then have [simp]: "out' = out" using assms(1) by (auto split: if_splits)
    show ?thesis
    proof (cases "rt_terminal_recorded r")
      case True
      then show ?thesis using ok RecordTerminal by (auto simp: rt_record_terminal_def split: if_splits)
    next
      case False
      then show ?thesis
        by (cases rule: record_terminal_cases [of r a out]) (use ok RecordTerminal in auto)
    qed
  next
    case (ConfirmCompletion op' a)
    then have [simp]: "out = ''COMPLETED''" using assms(1) by (auto split: if_splits)
    show ?thesis using ok ConfirmCompletion
      by (auto simp: rt_confirm_completion_def sm_transition_pair split: if_splits)
  qed (use assms(1) in auto)
  then show ?thesis
    using reg_apply_existing(2) [of reg e r] r op by (auto simp: has_outcome_def)
qed

lemma has_outcome_kept: "has_outcome op out reg \<Longrightarrow> has_outcome op out (reg_step e reg)"
  using reg_step_kept [of reg e] by (auto simp: has_outcome_def outcome_kept_def)

lemma has_outcome_claim:
  assumes "has_outcome op out reg" "terminal_claim op e = Some out'"
    "fst (reg_apply e reg) = ApplyResult.OK"
  shows "out' = out"
  using claim_recorded [OF assms(2,3)] has_outcome_kept [OF assms(1), of e]
  by (auto simp: has_outcome_def)

lemma has_outcome_confirm:
  assumes "has_outcome op out reg"
  shows "fst (reg_apply (ConfirmCompletion op a) reg) = ApplyResult.ALREADY_TERMINAL"
  using assms reg_apply_existing(1) [of reg "ConfirmCompletion op a"]
  by (auto simp: has_outcome_def rt_confirm_completion_def)

lemma run_claims:
  "has_outcome op out reg \<Longrightarrow> (e, ApplyResult.OK) \<in> set (reg_results es reg) \<Longrightarrow>
    terminal_claim op e = Some out' \<Longrightarrow> out' = out"
proof (induction es arbitrary: reg)
  case (Cons e' es)
  then show ?case using has_outcome_claim has_outcome_kept by fastforce
qed simp

lemma two_claims:
  assumes "(e1, ApplyResult.OK) \<in> set (reg_results es reg)" "terminal_claim op e1 = Some o1"
    and "(e2, ApplyResult.OK) \<in> set (reg_results es reg)" "terminal_claim op e2 = Some o2"
  shows "o1 = o2"
  using assms
proof (induction es arbitrary: reg)
  case (Cons e es)
  note mem = Cons.prems(1,3)
  show ?case
  proof (cases "(e1, ApplyResult.OK) = (e, fst (reg_apply e reg)) \<or>
                (e2, ApplyResult.OK) = (e, fst (reg_apply e reg))")
    case False
    then show ?thesis using Cons by auto
  next
    case True
    then consider "e1 = e" "fst (reg_apply e reg) = ApplyResult.OK"
      | "e2 = e" "fst (reg_apply e reg) = ApplyResult.OK" by auto
    then show ?thesis
    proof cases
      case 1
      then have "has_outcome op o1 (reg_step e reg)" using claim_recorded Cons.prems(2) by blast
      then show ?thesis using 1 Cons.prems(2,4) mem(2) run_claims by fastforce
    next
      case 2
      then have "has_outcome op o2 (reg_step e reg)" using claim_recorded Cons.prems(4) by blast
      then show ?thesis using 2 Cons.prems(2,4) mem(1) run_claims by fastforce
    qed
  qed
qed simp

fun is_confirm :: "OperationId \<Rightarrow> reg_event \<times> ApplyResult \<Rightarrow> bool" where
  "is_confirm op (ConfirmCompletion op' a, res) = (op = op' \<and> res = ApplyResult.OK)"
| "is_confirm op _ = False"

lemma no_confirm_after: "has_outcome op out reg \<Longrightarrow> filter (is_confirm op) (reg_results es reg) = []"
proof (induction es arbitrary: reg)
  case (Cons e es)
  have "\<not> is_confirm op (e, fst (reg_apply e reg))"
    using has_outcome_confirm [OF Cons.prems]
    by (cases e) (auto simp del: reg_apply.simps)
  then show ?case using Cons has_outcome_kept by simp
qed simp

lemma confirms_at_most_one: "length (filter (is_confirm op) (reg_results es reg)) \<le> 1"
proof (induction es arbitrary: reg)
  case (Cons e es)
  show ?case
  proof (cases "is_confirm op (e, fst (reg_apply e reg))")
    case True
    then have "terminal_claim op e = Some ''COMPLETED''" "fst (reg_apply e reg) = ApplyResult.OK"
      by (cases e; simp del: reg_apply.simps)+
    then have "has_outcome op ''COMPLETED'' (reg_step e reg)" by (rule claim_recorded)
    then show ?thesis using True no_confirm_after by simp
  next
    case False
    then show ?thesis using Cons by simp
  qed
qed simp

text \<open>The authority of an operation is rebound by dispatches only.\<close>

lemma run_authority:
  assumes "map_of reg op = Some r" "\<forall>e \<in> set es. \<not> rebinds op e"
  shows "\<exists>r'. map_of (fold reg_step es reg) op = Some r' \<and> rt_authority r' = rt_authority r"
  using assms
proof (induction es arbitrary: reg r)
  case (Cons e es)
  have "\<exists>r'. map_of (reg_step e reg) op = Some r' \<and> rt_authority r' = rt_authority r"
  proof (cases "event_op e = op")
    case True
    then show ?thesis using Cons.prems reg_apply_existing(2) [of reg e r] body_authority [of e r]
      by auto
  next
    case False
    then show ?thesis using Cons.prems by (simp add: reg_step_other)
  qed
  then show ?case using Cons by (metis fold_simps(2) list.set_intros(2))
qed simp

lemma stale_call:
  assumes "map_of reg op = Some r" "fenced_call e" "event_op e = op"
    "\<not> fence_accepted (fence_failure (event_envelope e) (rt_authority r))"
    "\<not> rt_terminal_recorded r"
  shows "fst (reg_apply e reg) = ApplyResult.STALE_REJECTED"
    and "map_of (reg_step e reg) = map_of reg"
  using reg_apply_existing [of reg e r] body_stale [OF assms(2,4,5)] assms(1,3)
  by (auto simp: map_upd_triv)

text \<open>An operation that is terminal without a recorded outcome never gets one.\<close>

definition stranded :: "OperationRuntime \<Rightarrow> bool" where
  "stranded r \<longleftrightarrow> is_terminal (rt_state r) \<and> \<not> rt_terminal_recorded r"

lemma body_stranded: "stranded r \<Longrightarrow> stranded (snd (event_body e r))"
proof -
  assume st: "stranded r"
  then have nr: "\<not> rt_terminal_recorded r" and t: "is_terminal (rt_state r)"
    by (auto simp: stranded_def)
  show ?thesis
  proof (cases e)
    case (RecordTerminal op a out)
    from nr show ?thesis
      by (cases rule: record_terminal_cases [of r a out])
        (use st t RecordTerminal terminal_no_exit in \<open>auto simp: stranded_def\<close>)
  qed (use st t in \<open>simp_all add: stranded_def rt_defs sm_transition_pair terminal_no_exit Let_def\<close>)
qed

lemma run_stranded:
  "map_of reg op = Some r \<Longrightarrow> stranded r \<Longrightarrow>
    \<exists>r'. map_of (fold reg_step es reg) op = Some r' \<and> stranded r'"
proof (induction es arbitrary: reg r)
  case (Cons e es)
  have "\<exists>r'. map_of (reg_step e reg) op = Some r' \<and> stranded r'"
  proof (cases "event_op e = op")
    case True
    then show ?thesis using Cons.prems reg_apply_existing(2) [of reg e r] body_stranded by auto
  next
    case False
    then show ?thesis using Cons.prems by (simp add: reg_step_other)
  qed
  then show ?case using Cons.IH by auto
qed simp

subsection \<open>Properties of the registry\<close>

text \<open>
  C1: one authoritative terminal outcome per operation. In any sequence of registry calls
  (other than \<open>clear\<close> and \<open>restore\<close>), from any registry, two calls that were answered \<open>OK\<close> and that record a terminal outcome of
  the same operation (a confirmed completion, or an explicit record) carry the same outcome.
\<close>

theorem one_terminal_outcome:
  assumes "(e1, ApplyResult.OK) \<in> set (reg_results es reg)" "terminal_claim op e1 = Some o1"
    and "(e2, ApplyResult.OK) \<in> set (reg_results es reg)" "terminal_claim op e2 = Some o2"
  shows "o1 = o2"
  using assms by (rule two_claims)

definition sample_run :: "reg_event list" where
  "sample_run =
     [Create (sample_id 7) (sample_env 1), Dispatch (sample_id 7) (sample_env 1),
      Run (sample_id 7) (sample_env 1), ReportCompletion (sample_id 7) (sample_env 1) False,
      ConfirmCompletion (sample_id 7) (sample_env 1),
      RecordTerminal (sample_id 7) (sample_env 1) ''COMPLETED'']"

lemma happy_path_results:
  assumes "map_of reg op = None" "a \<noteq> empty_envelope"
  shows "map snd (reg_results
      [Create op a, Dispatch op a, Run op a, ReportCompletion op a False, ConfirmCompletion op a,
       RecordTerminal op a ''COMPLETED''] reg) = replicate 6 ApplyResult.OK"
proof -
  have f: "fence_accepted (fence_failure a a)" "fence_accepted (fence_completion a a empty_envelope)"
    using assms(2) failure_fence.accepts_current completion_fence.accepts_current by simp_all
  show ?thesis using assms f
    by (simp add: reg_step_def reg_create_def reg_dispatch_def reg_run_def
        reg_report_completion_def reg_confirm_completion_def reg_record_terminal_def on_op_def
        rt_defs default_runtime_def sm_transition_pair sm_reset_def is_terminal_def
        is_allowed_iff named_def um_emplace_def numeral_eq_Suc)
qed

theorem one_terminal_outcome_witness:
  "\<exists>o1 o2. (ConfirmCompletion (sample_id 7) (sample_env 1), ApplyResult.OK) \<in> set (reg_results sample_run []) \<and>
    (RecordTerminal (sample_id 7) (sample_env 1) ''COMPLETED'', ApplyResult.OK)
       \<in> set (reg_results sample_run []) \<and>
    terminal_claim (sample_id 7) (ConfirmCompletion (sample_id 7) (sample_env 1)) = Some o1 \<and>
    terminal_claim (sample_id 7) (RecordTerminal (sample_id 7) (sample_env 1) ''COMPLETED'') = Some o2 \<and>
    o1 = o2"
proof -
  have r: "map snd (reg_results sample_run []) = replicate 6 ApplyResult.OK"
    unfolding sample_run_def by (rule happy_path_results) simp_all
  have fst_r: "map fst (reg_results es reg) = es" for es reg
    by (induction es arbitrary: reg) simp_all
  have "reg_results sample_run [] = zip sample_run (replicate 6 ApplyResult.OK)"
    using r fst_r by (metis zip_map_fst_snd)
  then have m: "(ConfirmCompletion (sample_id 7) (sample_env 1), ApplyResult.OK) \<in> set (reg_results sample_run [])"
    "(RecordTerminal (sample_id 7) (sample_env 1) ''COMPLETED'', ApplyResult.OK)
       \<in> set (reg_results sample_run [])"
    by (simp_all add: sample_run_def numeral_eq_Suc)
  have c: "terminal_claim (sample_id 7) (ConfirmCompletion (sample_id 7) (sample_env 1)) = Some ''COMPLETED''"
    "terminal_claim (sample_id 7) (RecordTerminal (sample_id 7) (sample_env 1) ''COMPLETED'') = Some ''COMPLETED''"
    by simp_all
  show ?thesis using m c one_terminal_outcome [OF m(1) c(1) m(2) c(2)] by blast
qed

text \<open>
  C9: a completion is confirmed at most once. In any sequence of registry calls (other than
  \<open>clear\<close> and \<open>restore\<close>), hence under
  any interleaving of threads, at most one \<open>confirm_completion\<close> of an operation is answered
  \<open>OK\<close>.
\<close>

theorem confirmed_at_most_once: "length (filter (is_confirm op) (reg_results es reg)) \<le> 1"
  by (rule confirms_at_most_one)

text \<open>
  C22: terminal outcomes are final. After any sequence of calls (other than \<open>clear\<close> and
  \<open>restore\<close>) on a registry that satisfies the registry invariant, an operation
  whose outcome was recorded has the very same runtime (state, authority, outcome, attempt
  count), and an operation in a terminal state is still in that state.
\<close>

theorem terminal_is_final:
  assumes "map_of reg op = Some r" "um_wf reg" "\<forall>op r. map_of reg op = Some r \<longrightarrow> rt_inv r"
  shows "\<exists>r'. map_of (fold reg_step es reg) op = Some r' \<and>
    (rt_terminal_recorded r \<longrightarrow> r' = r) \<and> (is_terminal (rt_state r) \<longrightarrow> rt_state r' = rt_state r)"
proof -
  have "reg_inv reg" using assms(2,3) by (simp add: reg_inv_def)
  then have "outcome_kept reg (fold reg_step es reg)" by (rule reg.run_rel)
  then show ?thesis using assms(1) unfolding outcome_kept_def by blast
qed

definition finished_runtime :: OperationRuntime where
  "finished_runtime = default_runtime\<lparr>rt_machine := OperationStateMachine OperationState.COMPLETION_CONFIRMED,
     rt_terminal_recorded := True, rt_terminal := sample_env 1, rt_terminal_outcome := ''COMPLETED''\<rparr>"

theorem terminal_is_final_witness:
  "map_of (fold reg_step [Dispatch (sample_id 7) (sample_env 2), ReportFailure (sample_id 7) (sample_env 2) True]
      [(sample_id 7, finished_runtime)]) (sample_id 7) = Some finished_runtime"
proof -
  have i: "rt_inv finished_runtime" by (simp add: rt_inv_def finished_runtime_def is_terminal_def)
  have h: "map_of [(sample_id 7, finished_runtime)] (sample_id 7) = Some finished_runtime"
    "um_wf [(sample_id 7, finished_runtime)]"
    "\<forall>op r. map_of [(sample_id 7, finished_runtime)] op = Some r \<longrightarrow> rt_inv r"
    using i by (auto simp: um_wf_def split: if_splits)
  have "rt_terminal_recorded finished_runtime" by (simp add: finished_runtime_def)
  then show ?thesis using terminal_is_final [OF h] by blast
qed

text \<open>
  C32: the registry invariant holds after every sequence of calls (other than \<open>clear\<close> and
  \<open>restore\<close>) on an empty registry: no
  operation is listed twice, an operation with a recorded outcome is in a terminal state
  with the recording envelope set, and one without has neither outcome nor envelope.
\<close>

theorem reachable_registry_inv:
  "um_wf (fold reg_step es []) \<and>
   (\<forall>op r. map_of (fold reg_step es []) op = Some r \<longrightarrow>
     (if rt_terminal_recorded r
      then is_terminal (rt_state r) \<and> rt_terminal r \<noteq> empty_envelope
      else rt_terminal r = empty_envelope \<and> rt_terminal_outcome r = []))"
proof -
  have "reg_inv []" by (simp add: reg_inv_def)
  then have "reg_inv (fold reg_step es [])" by (rule reg.run_inv)
  then show ?thesis unfolding reg_inv_def rt_inv_def by simp
qed

theorem reachable_registry_inv_witness:
  "um_wf (fold reg_step sample_run [])"
  using reachable_registry_inv [of sample_run] by simp

text \<open>
  C2: a fresh dispatch fences every other attempt. Once an operation is dispatched under an
  attempt identity, then after any further calls (other than \<open>clear\<close> and \<open>restore\<close>) that do
  not dispatch it again, every
  report, run signal, transition or terminal record that names another attempt is refused
  (as stale, or because the operation is already terminal, unless it merely repeats the
  outcome on record) and changes nothing.
\<close>

theorem dispatch_fences_other_attempts:
  assumes "fst (reg_dispatch op a reg) = ApplyResult.OK" "\<not> is_null (ae_attempt a)"
    and "\<forall>e \<in> set es. \<not> rebinds op e"
    and "fenced_call e" "event_op e = op" "ae_attempt (event_envelope e) \<noteq> ae_attempt a"
  shows "let reg' = fold reg_step es (snd (reg_dispatch op a reg)) in
    map_of (reg_step e reg') = map_of reg' \<and>
    (fst (reg_apply e reg') = ApplyResult.OK \<longrightarrow>
      (\<exists>out. terminal_claim op e = Some out \<and> has_outcome op out reg'))"
proof -
  define reg' where "reg' = fold reg_step es (snd (reg_dispatch op a reg))"
  let ?reg1 = "snd (reg_dispatch op a reg)"
  obtain r where r: "map_of reg op = Some r"
    using assms(1) by (auto simp: reg_dispatch_def on_op_def split: option.splits)
  have r1: "map_of ?reg1 op = Some (snd (rt_dispatch a r))"
    and ok: "fst (rt_dispatch a r) = ApplyResult.OK"
    using assms(1) r by (simp_all add: reg_dispatch_def on_op_def case_prod_beta)
  have "rt_authority (snd (rt_dispatch a r)) = a"
    using ok by (auto simp: rt_dispatch_def Let_def split: if_splits)
  then obtain r' where r': "map_of reg' op = Some r'" and auth: "rt_authority r' = a"
    using run_authority [OF r1 assms(3)] by (auto simp: reg'_def)
  have stale: "\<not> fence_accepted (fence_failure (event_envelope e) (rt_authority r'))"
    using assms(2,6) auth by (intro failure_fence.fences_other_attempt) simp_all
  have "map_of (reg_step e reg') = map_of reg'"
  proof (cases "rt_terminal_recorded r'")
    case True
    then show ?thesis using r' assms(5) reg_apply_existing(2) [of reg' e r']
      by (simp add: body_frozen map_upd_triv)
  next
    case False
    then show ?thesis using stale_call(2) [OF r' assms(4,5) stale] by simp
  qed
  moreover have "\<exists>out. terminal_claim op e = Some out \<and> has_outcome op out reg'"
    if okr: "fst (reg_apply e reg') = ApplyResult.OK"
  proof -
    have rec: "rt_terminal_recorded r'"
      using stale_call(1) [OF r' assms(4,5) stale] okr by auto
    then have "fst (event_body e r') = ApplyResult.OK"
      using okr reg_apply_existing(1) [of reg' e r'] r' assms(5) by simp
    then show ?thesis using rec r' assms(5) body_recorded_result [OF rec, of e]
      by (cases e) (auto simp: has_outcome_def split: if_splits)
  qed
  ultimately show ?thesis by (simp add: reg'_def Let_def)
qed

theorem dispatch_fences_other_attempts_witness:
  "let reg' = fold reg_step [Run (sample_id 7) (sample_env 2)]
        (snd (reg_dispatch (sample_id 7) (sample_env 2) [(sample_id 7, default_runtime)]));
       e = ReportCompletion (sample_id 7) (sample_env 1) False in
   map_of (reg_step e reg') = map_of reg' \<and>
   (fst (reg_apply e reg') = ApplyResult.OK \<longrightarrow>
      (\<exists>out. terminal_claim (sample_id 7) e = Some out \<and> has_outcome (sample_id 7) out reg'))"
  unfolding Let_def [of "ReportCompletion _ _ _"]
proof (rule dispatch_fences_other_attempts)
  show "fst (reg_dispatch (sample_id 7) (sample_env 2) [(sample_id 7, default_runtime)]) = ApplyResult.OK"
    by (simp add: reg_dispatch_def on_op_def rt_dispatch_def default_runtime_def is_terminal_def)
qed simp_all

text \<open>
  C33: every state change is guarded. One registry call (other than \<open>clear\<close> and \<open>restore\<close>) moves the state of an operation along
  an edge of the transition table or leaves it, except a dispatch, which may move any
  operation that is not terminal to \<open>DISPATCHED\<close>.
\<close>

theorem state_changes_guarded:
  assumes "map_of reg op = Some r" "map_of (reg_step e reg) op = Some r'"
  shows "rt_state r' = rt_state r \<or> is_allowed (rt_state r) (rt_state r') \<or>
    (rt_state r' = OperationState.DISPATCHED \<and> \<not> is_terminal (rt_state r) \<and>
     (\<exists>a. e = Dispatch op a))"
proof (cases "event_op e = op")
  case True
  then have "r' = snd (event_body e r)"
    using assms reg_apply_existing(2) [of reg e r] by simp
  moreover have "\<exists>op' a. e = Dispatch op' a \<Longrightarrow> \<exists>a. e = Dispatch op a" using True by auto
  ultimately show ?thesis using body_edge [of e r] by blast
next
  case False
  then show ?thesis using assms by (simp add: reg_step_other)
qed

theorem state_changes_guarded_witness:
  "is_allowed OperationState.DISPATCHED OperationState.RUNNING \<and>
   rt_state (snd (rt_run (sample_env 1) (snd (rt_dispatch (sample_env 1) default_runtime)))) =
     OperationState.RUNNING"
proof -
  let ?r = "snd (rt_dispatch (sample_env 1) default_runtime)"
  let ?r' = "snd (rt_run (sample_env 1) ?r)"
  have f: "fence_accepted (fence_failure (sample_env 1) (sample_env 1))"
    by (simp add: failure_fence.accepts_current)
  have s: "rt_state ?r = OperationState.DISPATCHED" "rt_state ?r' = OperationState.RUNNING"
    using f by (simp_all add: rt_dispatch_def rt_run_def default_runtime_def is_terminal_def
        sm_transition_pair is_allowed_iff named_def)
  have m: "map_of [(sample_id 7, ?r)] (sample_id 7) = Some ?r" by simp
  moreover have "map_of (reg_step (Run (sample_id 7) (sample_env 1)) [(sample_id 7, ?r)]) (sample_id 7) = Some ?r'"
    by (simp add: reg_step_def reg_run_def on_op_def case_prod_beta)
  ultimately have "rt_state ?r' = rt_state ?r \<or> is_allowed (rt_state ?r) (rt_state ?r') \<or>
    (rt_state ?r' = OperationState.DISPATCHED \<and> \<not> is_terminal (rt_state ?r) \<and>
     (\<exists>a. Run (sample_id 7 :: OperationId) (sample_env 1) = Dispatch (sample_id 7) a))"
    by (rule state_changes_guarded)
  then show ?thesis using s by simp
qed

text \<open>
  A terminal state entered through \<open>transition\<close> strands the operation. If an operation is
  in a terminal state and no outcome was recorded, then no sequence of calls ever records
  one for it.
\<close>

lemma stranded_forever:
  assumes "map_of reg op = Some r" "is_terminal (rt_state r)" "\<not> rt_terminal_recorded r"
  shows "\<exists>r'. map_of (fold reg_step es reg) op = Some r' \<and> \<not> rt_terminal_recorded r'"
  using run_stranded [OF assms(1), of es] assms(2,3) by (auto simp: stranded_def)

text \<open>
  A refused dispatch still rebinds the authority. On an operation in a terminal state
  without a recorded outcome, \<open>dispatch\<close> answers \<open>ILLEGAL_TRANSITION\<close>, keeps the state and
  the attempt count, and installs the refused envelope as the current authority.
\<close>

lemma refused_dispatch_rebinds:
  assumes "map_of reg op = Some r" "is_terminal (rt_state r)" "\<not> rt_terminal_recorded r"
  shows "fst (reg_dispatch op a reg) = ApplyResult.ILLEGAL_TRANSITION \<and>
    map_of (snd (reg_dispatch op a reg)) op = Some (r\<lparr>rt_authority := a\<rparr>)"
  using assms by (simp_all add: reg_dispatch_def on_op_def rt_dispatch_def)

end
