(* ===== verification/FF_Recovery.thy ===== *)
theory FF_Recovery
  imports FF_Failure_Record
begin

text \<open>
  Recovery (\<open>include/failure_fabric/recovery.hpp\<close>, \<open>src/recovery.cpp\<close>): the ownership record,
  whose generation fences earlier owners, and the planner, which derives one action from a failure
  record together with the alternatives it rejects.
\<close>

subsection \<open>Ownership\<close>

record RecoveryOwnership =
  ro_owner :: RecoveryOwner
  ro_generation :: RecoveryGeneration
  ro_boot :: WorkerBootId

definition new_ownership :: RecoveryOwnership where
  "new_ownership = \<lparr>ro_owner = RecoveryOwner.NONE, ro_generation = gen_zero, ro_boot = null_id\<rparr>"

definition is_unassigned :: "RecoveryOwnership \<Rightarrow> bool" where
  "is_unassigned o' \<longleftrightarrow> ro_owner o' = RecoveryOwner.NONE"

text \<open>
  The authority argument of \<open>adopt\<close> is inspected by a condition with an empty body: it has no
  influence on the result.
\<close>

definition adopt ::
  "RecoveryOwner \<Rightarrow> RecoveryGeneration \<Rightarrow> WorkerBootId \<Rightarrow> AuthorityEnvelope \<Rightarrow>
    RecoveryOwnership \<Rightarrow> bool \<times> RecoveryOwnership" where
  "adopt owner gen boot authority o' =
     (if owner = RecoveryOwner.NONE then (False, o')
      else if gen_is_unset gen then (False, o')
      else if ro_owner o' \<noteq> RecoveryOwner.NONE then (False, o')
      else (True, o'\<lparr>ro_owner := owner, ro_generation := gen, ro_boot := boot\<rparr>))"

definition transfer ::
  "RecoveryOwner \<Rightarrow> RecoveryGeneration \<Rightarrow> WorkerBootId \<Rightarrow> AuthorityEnvelope \<Rightarrow>
    RecoveryOwnership \<Rightarrow> bool \<times> RecoveryOwnership" where
  "transfer owner gen boot authority o' =
     (if owner = RecoveryOwner.NONE then (False, o')
      else if gen_is_unset gen then (False, o')
      else if ro_owner o' = RecoveryOwner.NONE then adopt owner gen boot authority o'
      else if \<not> ro_generation o' < gen then (False, o')
      else (True, o'\<lparr>ro_owner := owner, ro_generation := gen, ro_boot := boot\<rparr>))"

definition is_current :: "WorkerBootId \<Rightarrow> RecoveryGeneration \<Rightarrow> RecoveryOwnership \<Rightarrow> bool" where
  "is_current boot gen o' \<longleftrightarrow> boot = ro_boot o' \<and> gen = ro_generation o'"

subsection \<open>Runs of ownership calls\<close>

datatype own_event =
    Adopt RecoveryOwner RecoveryGeneration WorkerBootId AuthorityEnvelope
  | Transfer RecoveryOwner RecoveryGeneration WorkerBootId AuthorityEnvelope

fun own_apply :: "own_event \<Rightarrow> RecoveryOwnership \<Rightarrow> bool \<times> RecoveryOwnership" where
  "own_apply (Adopt w g b a) o' = adopt w g b a o'"
| "own_apply (Transfer w g b a) o' = transfer w g b a o'"

definition own_step :: "own_event \<Rightarrow> RecoveryOwnership \<Rightarrow> RecoveryOwnership" where
  "own_step e o' = snd (own_apply e o')"

text \<open>Ownership is unassigned exactly while its generation is the initial one.\<close>

definition own_inv :: "RecoveryOwnership \<Rightarrow> bool" where
  "own_inv o' \<longleftrightarrow> (ro_owner o' = RecoveryOwner.NONE \<longleftrightarrow> ro_generation o' = gen_zero)"

text \<open>Either nothing changes, or the generation strictly increases.\<close>

definition own_advances :: "RecoveryOwnership \<Rightarrow> RecoveryOwnership \<Rightarrow> bool" where
  "own_advances o' o'' \<longleftrightarrow> o'' = o' \<or> ro_generation o' < ro_generation o''"

lemma gen_zero_less: "gen_zero < g \<longleftrightarrow> g \<noteq> gen_zero"
  by (cases g) (auto simp: gen_order_defs gen_zero_def word_gt_0)

lemma new_ownership_inv [simp]: "own_inv new_ownership"
  by (simp add: own_inv_def new_ownership_def)

lemma own_apply_cases:
  "own_apply e o' = (False, o') \<or>
   (\<exists>w g b. own_apply e o' = (True, o'\<lparr>ro_owner := w, ro_generation := g, ro_boot := b\<rparr>) \<and>
      w \<noteq> RecoveryOwner.NONE \<and> g \<noteq> gen_zero \<and>
      (ro_owner o' = RecoveryOwner.NONE \<or> ro_generation o' < g))"
  by (cases e) (auto simp: adopt_def transfer_def gen_is_unset_iff)

lemma own_step_inv: "own_inv o' \<Longrightarrow> own_inv (own_step e o')"
  using own_apply_cases [of e o'] by (auto simp: own_step_def own_inv_def)

lemma own_apply_advances:
  "own_inv o' \<Longrightarrow> fst (own_apply e o') \<Longrightarrow> ro_generation o' < ro_generation (own_step e o')"
  using own_apply_cases [of e o'] by (auto simp: own_step_def own_inv_def gen_zero_less)

interpretation own: monotone_system own_step own_inv own_advances
proof unfold_locales
  show "own_inv s \<Longrightarrow> own_inv (own_step e s)" for s e by (rule own_step_inv)
  show "own_advances s s" for s by (simp add: own_advances_def)
  show "own_advances s t \<Longrightarrow> own_advances t u \<Longrightarrow> own_advances s u" for s t u
    by (auto simp: own_advances_def)
  show "own_inv s \<Longrightarrow> own_advances s (own_step e s)" for s e
    using own_apply_cases [of e s] own_apply_advances [of s e]
    by (auto simp: own_advances_def own_step_def)
qed

lemma own_run_generation:
  "own_inv s \<Longrightarrow> ro_generation s \<le> ro_generation (fold own_step es s)"
  using own.run_rel [of s es] by (auto simp: own_advances_def)

subsection \<open>Plans\<close>

record RecoveryPlan =
  rp_plan_id :: RecoveryPlanId
  rp_operation :: OperationId
  rp_generation :: RecoveryGeneration
  rp_owner :: RecoveryOwner
  rp_authority :: AuthorityEnvelope
  rp_action :: RecoveryAction
  rp_preconditions :: "string list"
  rp_rejected_alternatives :: "RecoveryAction list"
  rp_rejection_reasons :: "string list"
  rp_reason_factors :: "string list"
  rp_expected_preserved :: string
  rp_expected_discarded :: string

definition default_plan :: RecoveryPlan where
  "default_plan = \<lparr>rp_plan_id = null_id, rp_operation = null_id, rp_generation = gen_zero,
     rp_owner = RecoveryOwner.COORDINATOR, rp_authority = empty_envelope,
     rp_action = RecoveryAction.RETRY, rp_preconditions = [], rp_rejected_alternatives = [],
     rp_rejection_reasons = [], rp_reason_factors = [], rp_expected_preserved = [],
     rp_expected_discarded = []\<rparr>"

record PlanInput =
  pi_attempt_count :: u32
  pi_max_attempts :: u32
  pi_worker_healthy :: bool
  pi_device_healthy :: bool
  pi_idempotent_retry_possible :: bool
  pi_rollback_possible :: bool
  pi_compensation_possible :: bool
  pi_deadline_exceeded :: bool
  pi_externally_committed :: bool
  pi_dependency_ready :: bool

definition default_plan_input :: PlanInput where
  "default_plan_input = \<lparr>pi_attempt_count = 0, pi_max_attempts = 3, pi_worker_healthy = True,
     pi_device_healthy = True, pi_idempotent_retry_possible = False, pi_rollback_possible = False,
     pi_compensation_possible = False, pi_deadline_exceeded = False,
     pi_externally_committed = False, pi_dependency_ready = True\<rparr>"

definition reject :: "RecoveryAction \<Rightarrow> string \<Rightarrow> RecoveryPlan \<Rightarrow> RecoveryPlan" where
  "reject a why p = p\<lparr>rp_rejected_alternatives := rp_rejected_alternatives p @ [a],
     rp_rejection_reasons := rp_rejection_reasons p @ [why]\<rparr>"

definition factor :: "string \<Rightarrow> RecoveryPlan \<Rightarrow> RecoveryPlan" where
  "factor f p = p\<lparr>rp_reason_factors := rp_reason_factors p @ [f]\<rparr>"

text \<open>\<open>p.action = a\<close>, and \<open>p.action = a; p.preconditions.push_back(why)\<close>.\<close>

definition decide :: "RecoveryAction \<Rightarrow> RecoveryPlan \<Rightarrow> RecoveryPlan" where
  "decide a p = p\<lparr>rp_action := a\<rparr>"

definition decide_given :: "RecoveryAction \<Rightarrow> string \<Rightarrow> RecoveryPlan \<Rightarrow> RecoveryPlan" where
  "decide_given a why p = p\<lparr>rp_action := a, rp_preconditions := rp_preconditions p @ [why]\<rparr>"

text \<open>The plan before a rule has fired: identity, generation, owner and the five factors.\<close>

definition plan_start :: "RecoveryPlanId \<Rightarrow> FailureRecord \<Rightarrow> PlanInput \<Rightarrow> RecoveryPlan" where
  "plan_start pid fail inp =
    (let p = default_plan\<lparr>rp_operation := fr_operation fail, rp_authority := fr_authority fail,
           rp_generation := gen_next (ae_recovery_generation (fr_authority fail)),
           rp_plan_id := pid,
           rp_owner := (if fr_recovery_owner fail = RecoveryOwner.NONE then RecoveryOwner.COORDINATOR
                        else fr_recovery_owner fail)\<rparr>;
         p = factor (''failure_class='' @ FailureClass_to_string (fr_failure_class fail)) p;
         p = factor (''completion='' @ Ambiguity_to_string (fr_completion fail)) p;
         p = factor (''side_effects='' @ SideEffectState_to_string (fr_side_effect_state fail)) p;
         p = factor (''attempts='' @ show_word (pi_attempt_count inp) @ ''/'' @
               show_word (pi_max_attempts inp)) p;
         p = factor (''idempotent='' @ (if pi_idempotent_retry_possible inp then ''true'' else ''false'')) p
     in p)"

definition exhausted :: "PlanInput \<Rightarrow> bool" where
  "exhausted inp \<longleftrightarrow> pi_attempt_count inp \<ge> pi_max_attempts inp"

definition plan_ambiguous :: "FailureRecord \<Rightarrow> bool" where
  "plan_ambiguous fail \<longleftrightarrow>
     fr_completion fail = Ambiguity.AMBIGUOUS \<or> fr_completion fail = Ambiguity.UNKNOWN_OUTCOME"

definition plan_may_effect :: "FailureRecord \<Rightarrow> bool" where
  "plan_may_effect fail \<longleftrightarrow>
     fr_side_effect_state fail = SideEffectState.MAY_OCCURRED \<or>
     fr_side_effect_state fail = SideEffectState.UNKNOWN \<or>
     fr_side_effect_state fail = SideEffectState.KNOWN_OCCURRED"

text \<open>The five rules, in the order of the code.\<close>

definition plan_hardware_loss :: "FailureRecord \<Rightarrow> PlanInput \<Rightarrow> RecoveryPlan \<Rightarrow> RecoveryPlan" where
  "plan_hardware_loss fail inp p =
    (let p = (if fr_failure_class fail = FailureClass.LOST_DEVICE \<and> pi_device_healthy inp
              then reject RecoveryAction.RETRY ''device identity lost, retry in-place unsafe''
                (decide_given RecoveryAction.RESTART_DEVICE_CONTEXT ''device healthy; reinit context'' p)
              else if pi_worker_healthy inp
              then reject RecoveryAction.COMPENSATE ''restart recovers state without compensation''
                (decide_given RecoveryAction.RESTART_WORKER ''worker restart with fresh WorkerBootId'' p)
              else decide_given RecoveryAction.FAILOVER_REPLICA ''replica available'' p)
     in p\<lparr>rp_expected_preserved :=
            ''authority fenced to fresh boot; original worker state discarded'',
          rp_expected_discarded := ''stale worker boot authority''\<rparr>)"

definition plan_ambiguous_outcome :: "PlanInput \<Rightarrow> RecoveryPlan \<Rightarrow> RecoveryPlan" where
  "plan_ambiguous_outcome inp p =
    (if pi_idempotent_retry_possible inp \<and> \<not> exhausted inp
     then (reject RecoveryAction.COMPENSATE ''idempotent retry restores correctness directly''
            (reject RecoveryAction.ROLLBACK
              ''idempotent retry cannot double-apply; rollback unnecessary''
              (decide_given RecoveryAction.RETRY
                ''idempotency key valid; retry same key is deduplicated'' p)))
          \<lparr>rp_expected_preserved := ''prior result metadata preserved; no duplicate side effect'',
           rp_expected_discarded := ''unknown-side-effect uncertainty''\<rparr>
     else if pi_rollback_possible inp
     then (reject RecoveryAction.RETRY ''not idempotent-safe; retry would double-apply''
            (decide_given RecoveryAction.ROLLBACK ''side effects may have occurred; rollback first'' p))
          \<lparr>rp_expected_preserved := ''state reverted to pre-operation''\<rparr>
     else if pi_compensation_possible inp
     then (decide_given RecoveryAction.COMPENSATE ''side effect escaped; compensate logically'' p)
          \<lparr>rp_expected_preserved := ''logical equilibrium restored''\<rparr>
     else (decide_given RecoveryAction.MANUAL_RESOLUTION ''operator/external resolution required'' p)
          \<lparr>rp_expected_discarded := ''uncertain''\<rparr>)"

definition plan_known_effect :: "PlanInput \<Rightarrow> RecoveryPlan \<Rightarrow> RecoveryPlan" where
  "plan_known_effect inp p =
    (if pi_rollback_possible inp
     then reject RecoveryAction.RETRY ''would re-apply side effect''
       (decide_given RecoveryAction.ROLLBACK ''known side effect; rollback then recover'' p)
     else if pi_compensation_possible inp then decide RecoveryAction.COMPENSATE p
     else decide RecoveryAction.ESCALATE p)"

definition plan_bounded_retry :: "PlanInput \<Rightarrow> RecoveryPlan \<Rightarrow> RecoveryPlan" where
  "plan_bounded_retry inp p =
    (let p = (if \<not> pi_dependency_ready inp
              then decide_given RecoveryAction.RETRY ''dependency not ready; retry after dependency'' p
              else if \<not> pi_worker_healthy inp
              then decide_given RecoveryAction.RETRY_ELSEWHERE
                ''worker unhealthy; retry on another worker'' p
              else if pi_deadline_exceeded inp
              then decide_given RecoveryAction.ESCALATE ''deadline exceeded; escalate'' p
              else decide_given RecoveryAction.RETRY ''transient; retry under fresh attempt'' p)
     in p\<lparr>rp_expected_preserved := ''previous partial state if any'',
          rp_expected_discarded := ''failed attempt authority''\<rparr>)"

definition plan_terminal :: "FailureRecord \<Rightarrow> PlanInput \<Rightarrow> RecoveryPlan \<Rightarrow> RecoveryPlan" where
  "plan_terminal fail inp p =
    (if fr_side_effect_state fail \<noteq> SideEffectState.NONE_POSSIBLE \<and>
        fr_side_effect_state fail \<noteq> SideEffectState.KNOWN_NOT_OCCURRED \<and>
        pi_rollback_possible inp
     then decide_given RecoveryAction.ROLLBACK
       ''terminal failure with side effects; rollback required'' p
     else
       let p = (if pi_externally_committed inp
                then decide_given RecoveryAction.RECOMPUTE
                  ''externally committed; recompute canonical result'' p
                else if fr_failure_class fail = FailureClass.RESOURCE_EXHAUSTION \<and>
                        \<not> pi_worker_healthy inp
                then decide RecoveryAction.FAILOVER_REPLICA p
                else if fr_failure_class fail = FailureClass.RESOURCE_EXHAUSTION \<and>
                        pi_worker_healthy inp
                then decide_given RecoveryAction.RETRY_ELSEWHERE
                  ''resource exhaustion; retry on healthy worker'' p
                else reject RecoveryAction.RETRY ''policy exhausted or non-retryable''
                  (decide_given RecoveryAction.ABANDON
                    ''terminal/non-retryable; abandon after cleanup'' p))
       in p\<lparr>rp_expected_discarded := ''operation marked terminal''\<rparr>)"

definition hardware_loss :: "FailureRecord \<Rightarrow> bool" where
  "hardware_loss fail \<longleftrightarrow>
     fr_failure_class fail = FailureClass.LOST_DEVICE \<or>
     fr_failure_class fail = FailureClass.LOST_WORKER"

definition plan_retryable_class :: "FailureRecord \<Rightarrow> bool" where
  "plan_retryable_class fail \<longleftrightarrow>
     fr_retryability fail = Retryability.RETRYABLE \<or>
     fr_retryability fail = Retryability.CONDITIONALLY_RETRYABLE"

definition plan_rules :: "FailureRecord \<Rightarrow> PlanInput \<Rightarrow> RecoveryPlan \<Rightarrow> RecoveryPlan" where
  "plan_rules fail inp p =
    (if hardware_loss fail then plan_hardware_loss fail inp p
     else if plan_ambiguous fail then plan_ambiguous_outcome inp p
     else if plan_may_effect fail \<and> fr_side_effect_state fail = SideEffectState.KNOWN_OCCURRED \<and>
             \<not> pi_idempotent_retry_possible inp
     then plan_known_effect inp p
     else if plan_retryable_class fail \<and> \<not> exhausted inp \<and> pi_idempotent_retry_possible inp
     then plan_bounded_retry inp p
     else if \<not> plan_retryable_class fail \<or> exhausted inp then plan_terminal fail inp p
     else decide_given RecoveryAction.ESCALATE ''unclassified failure; escalate'' p)"

definition plan ::
  "('g \<Rightarrow> u64 \<times> 'g) \<Rightarrow> FailureRecord \<Rightarrow> PlanInput \<Rightarrow> 'g \<Rightarrow> RecoveryPlan \<times> 'g" where
  "plan draw fail inp g =
    (let (pid, g') = Id_generate draw g
     in (plan_rules fail inp (plan_start pid fail inp), g'))"

subsection \<open>Facts about plans\<close>

lemma plan_edit_sel [simp]:
  "rp_action (reject a w p) = rp_action p" "rp_action (factor f p) = rp_action p"
  "rp_action (decide a p) = a" "rp_action (decide_given a w p) = a"
  "rp_rejected_alternatives (reject a w p) = rp_rejected_alternatives p @ [a]"
  "rp_rejected_alternatives (factor f p) = rp_rejected_alternatives p"
  "rp_rejected_alternatives (decide a p) = rp_rejected_alternatives p"
  "rp_rejected_alternatives (decide_given a w p) = rp_rejected_alternatives p"
  "rp_rejection_reasons (reject a w p) = rp_rejection_reasons p @ [w]"
  "rp_rejection_reasons (factor f p) = rp_rejection_reasons p"
  "rp_rejection_reasons (decide a p) = rp_rejection_reasons p"
  "rp_rejection_reasons (decide_given a w p) = rp_rejection_reasons p"
  by (simp_all add: reject_def factor_def decide_def decide_given_def)

lemma plan_edit_identity [simp]:
  "rp_generation (reject a w p) = rp_generation p" "rp_generation (factor f p) = rp_generation p"
  "rp_generation (decide a p) = rp_generation p" "rp_generation (decide_given a w p) = rp_generation p"
  "rp_owner (reject a w p) = rp_owner p" "rp_owner (factor f p) = rp_owner p"
  "rp_owner (decide a p) = rp_owner p" "rp_owner (decide_given a w p) = rp_owner p"
  "rp_authority (reject a w p) = rp_authority p" "rp_authority (factor f p) = rp_authority p"
  "rp_authority (decide a p) = rp_authority p" "rp_authority (decide_given a w p) = rp_authority p"
  "rp_plan_id (reject a w p) = rp_plan_id p" "rp_plan_id (factor f p) = rp_plan_id p"
  "rp_plan_id (decide a p) = rp_plan_id p" "rp_plan_id (decide_given a w p) = rp_plan_id p"
  by (simp_all add: reject_def factor_def decide_def decide_given_def)

lemma plan_start_sel [simp]:
  "rp_rejected_alternatives (plan_start pid f i) = []"
  "rp_rejection_reasons (plan_start pid f i) = []"
  "rp_generation (plan_start pid f i) = gen_next (ae_recovery_generation (fr_authority f))"
  "rp_authority (plan_start pid f i) = fr_authority f"
  "rp_plan_id (plan_start pid f i) = pid"
  "rp_owner (plan_start pid f i) \<noteq> RecoveryOwner.NONE"
  by (simp_all add: plan_start_def default_plan_def Let_def)

text \<open>
  What every rule keeps of the plan it starts from, and what it promises of the explanation: one
  reason per rejected alternative, and the chosen action is not among the rejected ones.
\<close>

definition same_identity :: "RecoveryPlan \<Rightarrow> RecoveryPlan \<Rightarrow> bool" where
  "same_identity p q \<longleftrightarrow>
     rp_generation q = rp_generation p \<and> rp_owner q = rp_owner p \<and>
     rp_authority q = rp_authority p \<and> rp_plan_id q = rp_plan_id p"

definition explained :: "RecoveryPlan \<Rightarrow> bool" where
  "explained p \<longleftrightarrow>
     length (rp_rejected_alternatives p) = length (rp_rejection_reasons p) \<and>
     rp_action p \<notin> set (rp_rejected_alternatives p)"

definition undecided :: "RecoveryPlan \<Rightarrow> bool" where
  "undecided p \<longleftrightarrow> rp_rejected_alternatives p = [] \<and> rp_rejection_reasons p = []"

lemma plan_hardware_loss_ok: "same_identity p (plan_hardware_loss f i p) \<and> (undecided p \<longrightarrow> explained (plan_hardware_loss f i p))"
  by (simp add: plan_hardware_loss_def same_identity_def explained_def undecided_def Let_def)

lemma plan_ambiguous_outcome_ok: "same_identity p (plan_ambiguous_outcome i p) \<and> (undecided p \<longrightarrow> explained (plan_ambiguous_outcome i p))"
  by (simp add: plan_ambiguous_outcome_def same_identity_def explained_def undecided_def Let_def)

lemma plan_known_effect_ok: "same_identity p (plan_known_effect i p) \<and> (undecided p \<longrightarrow> explained (plan_known_effect i p))"
  by (simp add: plan_known_effect_def same_identity_def explained_def undecided_def Let_def)

lemma plan_bounded_retry_ok: "same_identity p (plan_bounded_retry i p) \<and> (undecided p \<longrightarrow> explained (plan_bounded_retry i p))"
  by (simp add: plan_bounded_retry_def same_identity_def explained_def undecided_def Let_def)

lemma plan_terminal_ok: "same_identity p (plan_terminal f i p) \<and> (undecided p \<longrightarrow> explained (plan_terminal f i p))"
  by (simp add: plan_terminal_def same_identity_def explained_def undecided_def Let_def)

lemma plan_rules_ok:
  "same_identity p (plan_rules f i p) \<and> (undecided p \<longrightarrow> explained (plan_rules f i p))"
  unfolding plan_rules_def
  using plan_hardware_loss_ok [of p f i] plan_ambiguous_outcome_ok [of p i]
    plan_known_effect_ok [of p i] plan_bounded_retry_ok [of p i] plan_terminal_ok [of p f i]
  by (simp add: same_identity_def explained_def undecided_def)

text \<open>The chosen action as a decision table, without the explanation that goes with it.\<close>

definition planned_action :: "FailureRecord \<Rightarrow> PlanInput \<Rightarrow> RecoveryAction" where
  "planned_action fail inp =
    (if hardware_loss fail
     then if fr_failure_class fail = FailureClass.LOST_DEVICE \<and> pi_device_healthy inp
          then RecoveryAction.RESTART_DEVICE_CONTEXT
          else if pi_worker_healthy inp then RecoveryAction.RESTART_WORKER
          else RecoveryAction.FAILOVER_REPLICA
     else if plan_ambiguous fail
     then if pi_idempotent_retry_possible inp \<and> \<not> exhausted inp then RecoveryAction.RETRY
          else if pi_rollback_possible inp then RecoveryAction.ROLLBACK
          else if pi_compensation_possible inp then RecoveryAction.COMPENSATE
          else RecoveryAction.MANUAL_RESOLUTION
     else if fr_side_effect_state fail = SideEffectState.KNOWN_OCCURRED \<and>
             \<not> pi_idempotent_retry_possible inp
     then if pi_rollback_possible inp then RecoveryAction.ROLLBACK
          else if pi_compensation_possible inp then RecoveryAction.COMPENSATE
          else RecoveryAction.ESCALATE
     else if plan_retryable_class fail \<and> \<not> exhausted inp
     then if \<not> pi_idempotent_retry_possible inp then RecoveryAction.ESCALATE
          else if \<not> pi_dependency_ready inp then RecoveryAction.RETRY
          else if \<not> pi_worker_healthy inp then RecoveryAction.RETRY_ELSEWHERE
          else if pi_deadline_exceeded inp then RecoveryAction.ESCALATE
          else RecoveryAction.RETRY
     else if fr_side_effect_state fail \<notin>
               {SideEffectState.NONE_POSSIBLE, SideEffectState.KNOWN_NOT_OCCURRED} \<and>
             pi_rollback_possible inp
     then RecoveryAction.ROLLBACK
     else if pi_externally_committed inp then RecoveryAction.RECOMPUTE
     else if fr_failure_class fail = FailureClass.RESOURCE_EXHAUSTION
     then if pi_worker_healthy inp then RecoveryAction.RETRY_ELSEWHERE
          else RecoveryAction.FAILOVER_REPLICA
     else RecoveryAction.ABANDON)"

lemma rule_actions:
  "rp_action (plan_hardware_loss f i p) =
    (if fr_failure_class f = FailureClass.LOST_DEVICE \<and> pi_device_healthy i
     then RecoveryAction.RESTART_DEVICE_CONTEXT
     else if pi_worker_healthy i then RecoveryAction.RESTART_WORKER
     else RecoveryAction.FAILOVER_REPLICA)"
  "rp_action (plan_ambiguous_outcome i p) =
    (if pi_idempotent_retry_possible i \<and> \<not> exhausted i then RecoveryAction.RETRY
     else if pi_rollback_possible i then RecoveryAction.ROLLBACK
     else if pi_compensation_possible i then RecoveryAction.COMPENSATE
     else RecoveryAction.MANUAL_RESOLUTION)"
  "rp_action (plan_known_effect i p) =
    (if pi_rollback_possible i then RecoveryAction.ROLLBACK
     else if pi_compensation_possible i then RecoveryAction.COMPENSATE
     else RecoveryAction.ESCALATE)"
  "rp_action (plan_bounded_retry i p) =
    (if \<not> pi_dependency_ready i then RecoveryAction.RETRY
     else if \<not> pi_worker_healthy i then RecoveryAction.RETRY_ELSEWHERE
     else if pi_deadline_exceeded i then RecoveryAction.ESCALATE
     else RecoveryAction.RETRY)"
  "rp_action (plan_terminal f i p) =
    (if fr_side_effect_state f \<notin>
          {SideEffectState.NONE_POSSIBLE, SideEffectState.KNOWN_NOT_OCCURRED} \<and>
        pi_rollback_possible i
     then RecoveryAction.ROLLBACK
     else if pi_externally_committed i then RecoveryAction.RECOMPUTE
     else if fr_failure_class f = FailureClass.RESOURCE_EXHAUSTION
     then if pi_worker_healthy i then RecoveryAction.RETRY_ELSEWHERE
          else RecoveryAction.FAILOVER_REPLICA
     else RecoveryAction.ABANDON)"
      apply (simp add: plan_hardware_loss_def Let_def)
     apply (simp add: plan_ambiguous_outcome_def)
    apply (simp add: plan_known_effect_def)
   apply (simp add: plan_bounded_retry_def Let_def)
  apply (simp add: plan_terminal_def Let_def)
  done

lemma plan_rules_action: "rp_action (plan_rules f i p) = planned_action f i"
  by (cases "hardware_loss f"; cases "plan_ambiguous f"; cases "plan_retryable_class f";
      cases "exhausted i"; cases "pi_idempotent_retry_possible i")
    (simp_all add: plan_rules_def planned_action_def rule_actions plan_may_effect_def)

lemma plan_action: "rp_action (fst (plan draw f i g)) = planned_action f i"
  by (simp add: plan_def plan_rules_action split: prod.split)

lemma planned_action_cases:
  "planned_action f i \<in> {RecoveryAction.RESTART_DEVICE_CONTEXT, RecoveryAction.RESTART_WORKER,
     RecoveryAction.FAILOVER_REPLICA, RecoveryAction.RETRY, RecoveryAction.RETRY_ELSEWHERE,
     RecoveryAction.ROLLBACK, RecoveryAction.COMPENSATE, RecoveryAction.MANUAL_RESOLUTION,
     RecoveryAction.ESCALATE, RecoveryAction.RECOMPUTE, RecoveryAction.ABANDON}"
  by (simp add: planned_action_def)

subsection \<open>Properties\<close>

text \<open>
  C23: A lost owner never comes back: once a call has replaced the owner that is current under a
  generation, that boot and generation are not current after any further sequence of calls.
\<close>

theorem replaced_owner_fenced:
  assumes "own_inv s" and "is_current boot gen s" and "fst (own_apply e s)"
  shows "\<not> is_current boot gen (fold own_step es (own_step e s))"
proof -
  have "ro_generation s < ro_generation (own_step e s)"
    using assms(1,3) by (rule own_apply_advances)
  also have "\<dots> \<le> ro_generation (fold own_step es (own_step e s))"
    using assms(1) by (intro own_run_generation own_step_inv)
  finally show ?thesis using assms(2) by (auto simp: is_current_def)
qed

theorem replaced_owner_fenced_witness:
  "\<not> is_current null_id (Generation 1)
    (fold own_step [Adopt RecoveryOwner.OPERATOR (Generation 1) null_id empty_envelope]
      (own_step (Transfer RecoveryOwner.REPLACEMENT_WORKER (Generation 2) null_id empty_envelope)
        \<lparr>ro_owner = RecoveryOwner.COORDINATOR, ro_generation = Generation 1, ro_boot = null_id\<rparr>))"
  by (rule replaced_owner_fenced)
    (simp_all add: own_inv_def gen_zero_def is_current_def transfer_def gen_is_unset_def
      gen_order_defs)

text \<open>
  The generation of an owner started from scratch never decreases over a run of calls, and the
  ownership is unassigned exactly while the generation is the initial one; a call that is refused
  changes nothing, and a call that is granted strictly increases the generation.
\<close>

lemma ownership_generation_monotone:
  "own_inv (fold own_step es new_ownership) \<and>
   ro_generation (fold own_step es new_ownership)
     \<le> ro_generation (fold own_step (es @ es') new_ownership) \<and>
   (if fst (own_apply e (fold own_step es new_ownership))
    then ro_generation (fold own_step es new_ownership)
           < ro_generation (own_step e (fold own_step es new_ownership))
    else own_step e (fold own_step es new_ownership) = fold own_step es new_ownership)"
proof -
  let ?s = "fold own_step es new_ownership"
  have inv: "own_inv ?s" by (rule own.run_inv) simp
  have "ro_generation ?s \<le> ro_generation (fold own_step (es @ es') new_ownership)"
    using own_run_generation [OF inv] by simp
  moreover have "\<not> fst (own_apply e ?s) \<Longrightarrow> own_step e ?s = ?s"
    using own_apply_cases [of e ?s] by (auto simp: own_step_def)
  ultimately show ?thesis using inv own_apply_advances [OF inv, of e] by simp
qed

text \<open>
  When the planner has the operation run again, independently of the order of its rules: under an
  idempotency key and below the attempt bound, for an ambiguous completion or for a retryable failure
  that has a reason to expect better of the next attempt; or, as the last resort of rule 5, away from
  the worker that ran out of resources. The last resort looks neither at the key nor at the bound.
\<close>

definition repeats_safely :: "FailureRecord \<Rightarrow> PlanInput \<Rightarrow> bool" where
  "repeats_safely f i \<longleftrightarrow> pi_idempotent_retry_possible i \<and> pi_attempt_count i < pi_max_attempts i \<and>
     (plan_ambiguous f \<or> plan_retryable_class f \<and>
        (\<not> pi_deadline_exceeded i \<or> \<not> pi_worker_healthy i \<or> \<not> pi_dependency_ready i))"

definition repeats_exhausted :: "FailureRecord \<Rightarrow> PlanInput \<Rightarrow> bool" where
  "repeats_exhausted f i \<longleftrightarrow> fr_failure_class f = FailureClass.RESOURCE_EXHAUSTION \<and> pi_worker_healthy i \<and>
     \<not> plan_ambiguous f \<and> \<not> pi_externally_committed i \<and>
     (plan_retryable_class f \<longrightarrow> pi_max_attempts i \<le> pi_attempt_count i) \<and>
     (fr_side_effect_state f = SideEffectState.KNOWN_OCCURRED \<longrightarrow> pi_idempotent_retry_possible i) \<and>
     (fr_side_effect_state f = SideEffectState.NONE_POSSIBLE \<or>
      fr_side_effect_state f = SideEffectState.KNOWN_NOT_OCCURRED \<or> \<not> pi_rollback_possible i)"

lemma planner_repeats_iff:
  assumes "\<not> hardware_loss f"
  shows "rp_action (fst (plan draw f i g)) \<in> {RecoveryAction.RETRY, RecoveryAction.RETRY_ELSEWHERE} \<longleftrightarrow>
    repeats_safely f i \<or> repeats_exhausted f i"
  using assms unfolding plan_action planned_action_def repeats_safely_def repeats_exhausted_def exhausted_def
  by (auto simp: not_le)

text \<open>The effect may have to be undone: it is unknown or known to have happened, and a repetition is not safe.\<close>

definition must_undo :: "FailureRecord \<Rightarrow> PlanInput \<Rightarrow> bool" where
  "must_undo f i \<longleftrightarrow>
     (if plan_ambiguous f then \<not> (pi_idempotent_retry_possible i \<and> pi_attempt_count i < pi_max_attempts i)
      else fr_side_effect_state f = SideEffectState.KNOWN_OCCURRED \<and> \<not> pi_idempotent_retry_possible i)"

text \<open>
  C24: When the planner repeats an operation and when it undoes it. After a failure other than the loss
  of a device or worker, the operation is run again exactly when a repetition is safe (under a key and
  below the attempt bound), or as the last resort after a resource exhaustion, which needs neither. An
  effect that may have to be undone is undone if that is possible: rolled back if it can be, else
  compensated, else handed to an operator or escalated, and never repeated. A rollback is proposed
  only where it is possible, and a compensation only where no rollback is.
\<close>

theorem planner_repeats_or_undoes:
  "\<not> hardware_loss f \<longrightarrow>
     (rp_action (fst (plan draw f i g)) \<in> {RecoveryAction.RETRY, RecoveryAction.RETRY_ELSEWHERE} \<longleftrightarrow>
        repeats_safely f i \<or> repeats_exhausted f i) \<and>
     (must_undo f i \<longrightarrow> rp_action (fst (plan draw f i g)) =
        (if pi_rollback_possible i then RecoveryAction.ROLLBACK
         else if pi_compensation_possible i then RecoveryAction.COMPENSATE
         else if plan_ambiguous f then RecoveryAction.MANUAL_RESOLUTION else RecoveryAction.ESCALATE)) \<and>
     (rp_action (fst (plan draw f i g)) = RecoveryAction.ROLLBACK \<longrightarrow> pi_rollback_possible i) \<and>
     (rp_action (fst (plan draw f i g)) = RecoveryAction.COMPENSATE \<longleftrightarrow>
        must_undo f i \<and> pi_compensation_possible i \<and> \<not> pi_rollback_possible i)"
  unfolding plan_action planned_action_def repeats_safely_def repeats_exhausted_def must_undo_def exhausted_def
  by (auto simp: not_le not_less)

theorem planner_repeats_or_undoes_witness:
  "rp_action (fst (plan (\<lambda>n. (n, n + 1))
      (default_record\<lparr>fr_failure_class := FailureClass.AMBIGUOUS, fr_completion := Ambiguity.AMBIGUOUS\<rparr>)
      (default_plan_input\<lparr>pi_compensation_possible := True\<rparr>) 0)) = RecoveryAction.COMPENSATE"
  using planner_repeats_or_undoes [of
      "default_record\<lparr>fr_failure_class := FailureClass.AMBIGUOUS, fr_completion := Ambiguity.AMBIGUOUS\<rparr>"
      "\<lambda>n. (n, n + 1)" "default_plan_input\<lparr>pi_compensation_possible := True\<rparr>" 0]
  by (simp add: hardware_loss_def default_record_def default_plan_input_def must_undo_def plan_ambiguous_def)

text \<open>
  Every plan explains itself consistently: it has one reason per rejected alternative, the action
  it takes is not one it rejects, its identity is fresh, it has an owner, and it is one recovery
  generation above the authority the failure was recorded under.
\<close>

lemma plan_explained:
  "explained (fst (plan draw f i g)) \<and> \<not> is_null (rp_plan_id (fst (plan draw f i g))) \<and>
   rp_owner (fst (plan draw f i g)) \<noteq> RecoveryOwner.NONE \<and>
   rp_authority (fst (plan draw f i g)) = fr_authority f \<and>
   rp_generation (fst (plan draw f i g)) = gen_next (ae_recovery_generation (fr_authority f))"
proof -
  obtain pid g' where gen: "Id_generate draw g = (pid :: RecoveryPlanId, g')" by fastforce
  have "\<not> is_null (fst (Id_generate draw g) :: RecoveryPlanId)" by (rule Id_generate_not_null)
  then have "\<not> is_null pid" by (simp add: gen)
  moreover have "undecided (plan_start pid f i)" by (simp add: undecided_def)
  ultimately show ?thesis
    using plan_rules_ok [of "plan_start pid f i" f i]
    by (simp add: plan_def gen same_identity_def)
qed

end
