(* ===== verification/FF_Store.thy ===== *)
theory FF_Store
  imports FF_Persistence FF_Registry FF_Recovery
begin

text \<open>
  The failure store (\<open>include/failure_fabric/store.hpp\<close>, \<open>src/store.cpp\<close>): the append-only log
  of failure records beside the operation registry, the idempotency store and the recovery
  ownership, and the snapshot that \<open>save\<close> writes and \<open>load\<close> reads. A snapshot is the list of bytes
  of the file; \<open>save_file\<close> says what becomes of the file when writing them fails, and \<open>load\<close> gets
  \<open>None\<close> when the file cannot be opened.
\<close>

subsection \<open>The store and its log\<close>

record FailureStore =
  fs_failures :: "(FailureId, FailureRecord) umap"
  fs_ops :: OperationRegistry
  fs_idem :: IdempotencyStore
  fs_ownership :: RecoveryOwnership

definition new_store :: FailureStore where
  "new_store = \<lparr>fs_failures = [], fs_ops = [], fs_idem = [], fs_ownership = new_ownership\<rparr>"

definition append_failure :: "FailureRecord \<Rightarrow> FailureStore \<Rightarrow> bool \<times> FailureStore" where
  "append_failure rec st =
     (if is_null (fr_failure_id rec) then (False, st)
      else if um_count (fr_failure_id rec) (fs_failures st) then (False, st)
      else if is_null (fr_operation rec) \<or> is_null (fr_attempt rec) then (False, st)
      else if \<not> validate_authority (fr_authority rec) then (False, st)
      else (True, st\<lparr>fs_failures := um_emplace (fr_failure_id rec) rec (fs_failures st)\<rparr>))"

definition has_failure :: "FailureId \<Rightarrow> FailureStore \<Rightarrow> bool" where
  "has_failure i st = um_count i (fs_failures st)"

definition find_failure :: "FailureId \<Rightarrow> FailureStore \<Rightarrow> FailureRecord option" where
  "find_failure i st = map_of (fs_failures st) i"

definition failure_count :: "FailureStore \<Rightarrow> nat" where
  "failure_count st = length (fs_failures st)"

definition failures :: "FailureStore \<Rightarrow> FailureRecord list" where
  "failures st = map snd (fs_failures st)"

definition store_clear :: "FailureStore \<Rightarrow> FailureStore" where
  "store_clear st = \<lparr>fs_failures = [], fs_ops = reg_clear (fs_ops st),
     fs_idem = idem_clear (fs_idem st), fs_ownership = new_ownership\<rparr>"

subsection \<open>Saving\<close>

definition K_FAIL :: byte where "K_FAIL = 1"
definition K_OP :: byte where "K_OP = 2"
definition K_ID :: byte where "K_ID = 3"
definition K_OWN :: byte where "K_OWN = 4"

definition enc_auth :: "AuthorityEnvelope \<Rightarrow> unit writer" where
  "enc_auth e = do {
     w_generation (ae_coordinator_epoch e); w_uuid (raw (ae_worker_boot e));
     w_uuid (raw (ae_attempt e)); w_uuid (raw (ae_dispatch e));
     w_generation (ae_attempt_generation e); w_generation (ae_operation_generation e);
     w_generation (ae_failure_generation e); w_generation (ae_recovery_generation e) }"

definition save_header :: "FailureStore \<Rightarrow> unit writer" where
  "save_header st = do {
     w_u32 kFFMagic; w_u16 kFFVersion;
     w_u32 (word_of_nat (length (fs_failures st)));
     w_u32 (word_of_nat (reg_size (fs_ops st)));
     w_u32 (word_of_nat (idem_size (fs_idem st))) }"

definition save_op :: "OperationId \<Rightarrow> OperationRuntime \<Rightarrow> unit writer" where
  "save_op op rt = do {
     w_uuid (raw op);
     w_enumv (OperationState_u32 (rt_state rt));
     w_u32 (rt_attempt_count rt);
     w_u8 (if rt_terminal_recorded rt then 1 else 0);
     w_str16 (rt_terminal_outcome rt);
     w_u8 (if rt_idempotent rt then 1 else 0);
     w_uuid (key_raw (rt_idem_key rt));
     enc_auth (rt_authority rt);
     enc_auth (rt_terminal rt) }"

definition save_entry :: "EntryView \<Rightarrow> unit writer" where
  "save_entry e = do {
     w_uuid (raw (ev_op e)); w_uuid (key_raw (ev_key e));
     w_u64 (ev_payload_hash e);
     w_enumv (IdempotencyState_u32 (ev_state e));
     w_str16 (ev_result_metadata e) }"

definition save_ownership :: "RecoveryOwnership \<Rightarrow> unit writer" where
  "save_ownership o' = do {
     w_enumv (enum_u32 RecoveryOwner_vals (ro_owner o'));
     w_generation (ro_generation o');
     w_uuid (raw (ro_boot o')) }"

definition write_frame :: "byte \<Rightarrow> byte list \<Rightarrow> byte list" where
  "write_frame kind payload = encode_frame kind payload"

text \<open>The bytes that \<open>save\<close> writes.\<close>

definition save :: "FailureStore \<Rightarrow> byte list" where
  "save st =
     write_frame 0 (buffer (save_header st)) @
     concat (map (\<lambda>kv. write_frame K_FAIL (buffer (encode_failure_record (snd kv)))) (fs_failures st)) @
     concat (map (\<lambda>op. case reg_find op (fs_ops st) of None \<Rightarrow> []
                       | Some rt \<Rightarrow> write_frame K_OP (buffer (save_op op rt)))
               (reg_operations (fs_ops st))) @
     concat (map (\<lambda>e. write_frame K_ID (buffer (save_entry e))) (idem_collect (fs_idem st))) @
     write_frame K_OWN (buffer (save_ownership (fs_ownership st)))"

text \<open>
  What can become of the writing: all bytes reach the file; the file cannot be opened and is as it
  was; or it was opened, and with that emptied, and only the first \<open>n\<close> bytes reach it. In the last case
  the stream is tested before its buffer is flushed and the file is closed, so it may still be \<open>good\<close>.
\<close>

datatype DiskWrite = Written | NotOpened | Cut nat bool

definition write_file :: "DiskWrite \<Rightarrow> byte list \<Rightarrow> byte list option \<Rightarrow> bool \<times> byte list option" where
  "write_file write data file =
     (case write of
        NotOpened \<Rightarrow> (False, file)
      | Cut n good \<Rightarrow> (good, Some (take n data))
      | Written \<Rightarrow> (True, Some data))"

text \<open>\<open>FailureStore::save\<close>: its result, and the file after it.\<close>

definition save_file :: "DiskWrite \<Rightarrow> FailureStore \<Rightarrow> byte list option \<Rightarrow> bool \<times> byte list option" where
  "save_file write st file = write_file write (save st) file"

subsection \<open>Loading\<close>

definition dec_auth :: "AuthorityEnvelope option reader" where
  "dec_auth = do {
     coordinator_epoch \<leftarrow> r_generation; worker_boot \<leftarrow> r_id; attempt \<leftarrow> r_id; dispatch \<leftarrow> r_id;
     attempt_generation \<leftarrow> r_generation; operation_generation \<leftarrow> r_generation;
     failure_generation \<leftarrow> r_generation; recovery_generation \<leftarrow> r_generation;
     ok \<leftarrow> r_ok;
     State_Monad.return (
       let e = \<lparr>ae_coordinator_epoch = coordinator_epoch, ae_worker_boot = worker_boot,
             ae_attempt = attempt, ae_attempt_generation = attempt_generation,
             ae_dispatch = dispatch, ae_operation_generation = operation_generation,
             ae_failure_generation = failure_generation,
             ae_recovery_generation = recovery_generation\<rparr>
       in if ok \<and> validate_authority e then Some e else None) }"

text \<open>What the loop of \<open>load\<close> accumulates.\<close>

record LoadState =
  ls_frs :: "FailureRecord list"
  ls_opids :: "OperationId list"
  ls_orts :: "OperationRuntime list"
  ls_idents :: "EntryView list"
  ls_nfail :: u32
  ls_nop :: u32
  ls_nid :: u32
  ls_first :: bool

definition load_start :: LoadState where
  "load_start = \<lparr>ls_frs = [], ls_opids = [], ls_orts = [], ls_idents = [], ls_nfail = 0,
     ls_nop = 0, ls_nid = 0, ls_first = True\<rparr>"

definition load_header :: "(u32 \<times> u32 \<times> u32) option reader" where
  "load_header = do {
     magic \<leftarrow> r_u32;
     if magic \<noteq> kFFMagic then State_Monad.return None else do {
     ver \<leftarrow> r_u16;
     if ver \<noteq> kFFVersion then State_Monad.return None else do {
     nfail \<leftarrow> r_u32; nop \<leftarrow> r_u32; nid \<leftarrow> r_u32;
     ok \<leftarrow> r_ok;
     State_Monad.return (if \<not> ok then None else Some (nfail, nop, nid)) }}}"

definition load_op :: "(OperationId \<times> OperationRuntime) option reader" where
  "load_op = do {
     ok \<leftarrow> r_ok;
     if \<not> ok then State_Monad.return None else do {
     op \<leftarrow> r_id;
     st \<leftarrow> r_enumv;
     attempt_count \<leftarrow> r_u32;
     terminal_recorded \<leftarrow> r_u8;
     terminal_outcome \<leftarrow> r_str16;
     idempotent \<leftarrow> r_u8;
     idem_key \<leftarrow> r_uuid;
     auth \<leftarrow> dec_auth;
     case auth of None \<Rightarrow> State_Monad.return None
     | Some authority \<Rightarrow> do {
     term \<leftarrow> dec_auth;
     case term of None \<Rightarrow> State_Monad.return None
     | Some terminal \<Rightarrow> do {
     ok \<leftarrow> r_ok;
     State_Monad.return (if \<not> ok then None
       else Some (op, \<lparr>rt_machine =
               snd (sm_reset (OperationStateMachine OperationState.CREATED) (OperationState_cast st)),
             rt_authority = authority, rt_terminal = terminal,
             rt_terminal_recorded = (terminal_recorded \<noteq> 0), rt_attempt_count = attempt_count,
             rt_terminal_outcome = terminal_outcome, rt_idempotent = (idempotent \<noteq> 0),
             rt_idem_key = IdempotencyKey idem_key\<rparr>)) }}}}"

definition load_entry :: "EntryView option reader" where
  "load_entry = do {
     op \<leftarrow> r_id;
     key \<leftarrow> r_uuid;
     payload_hash \<leftarrow> r_u64;
     st \<leftarrow> r_enumv;
     result_metadata \<leftarrow> r_str16;
     ok \<leftarrow> r_ok;
     State_Monad.return (if \<not> ok then None
       else Some \<lparr>ev_op = op, ev_key = IdempotencyKey key, ev_payload_hash = payload_hash,
              ev_state = IdempotencyState_cast st, ev_result_metadata = result_metadata\<rparr>) }"

definition load_ownership :: "(RecoveryOwner \<times> RecoveryGeneration \<times> WorkerBootId) option reader" where
  "load_ownership = do {
     owner \<leftarrow> r_enumv;
     ok \<leftarrow> r_ok;
     if \<not> ok \<or> owner \<ge> 9 then State_Monad.return None else do {
     g \<leftarrow> r_generation; boot \<leftarrow> r_id;
     ok \<leftarrow> r_ok;
     State_Monad.return (if \<not> ok then None else Some (enum_at RecoveryOwner_vals owner, g, boot)) }}"

text \<open>
  One frame of the loop. The ownership of the store is updated in place, as the loop runs; \<open>None\<close>
  is a return of false from the middle of the loop.
\<close>

definition load_frame ::
  "byte \<Rightarrow> byte list \<Rightarrow> LoadState \<Rightarrow> RecoveryOwnership \<Rightarrow> LoadState option \<times> RecoveryOwnership" where
  "load_frame kind payload ls own =
    (let r = new_reader payload in
     if ls_first ls
     then case fst (run_state load_header r) of None \<Rightarrow> (None, own)
       | Some (nfail, nop, nid) \<Rightarrow>
           (Some (ls\<lparr>ls_nfail := nfail, ls_nop := nop, ls_nid := nid, ls_first := False\<rparr>), own)
     else if kind = K_FAIL
     then case fst (run_state decode_failure_record r) of None \<Rightarrow> (None, own)
       | Some rec \<Rightarrow> (Some (ls\<lparr>ls_frs := ls_frs ls @ [rec]\<rparr>), own)
     else if kind = K_OP
     then case fst (run_state load_op r) of None \<Rightarrow> (None, own)
       | Some (op, rt) \<Rightarrow>
           (Some (ls\<lparr>ls_opids := ls_opids ls @ [op], ls_orts := ls_orts ls @ [rt]\<rparr>), own)
     else if kind = K_ID
     then case fst (run_state load_entry r) of None \<Rightarrow> (None, own)
       | Some ev \<Rightarrow> (Some (ls\<lparr>ls_idents := ls_idents ls @ [ev]\<rparr>), own)
     else if kind = K_OWN
     then case fst (run_state load_ownership r) of None \<Rightarrow> (None, own)
       | Some (owner, g, boot) \<Rightarrow> (Some ls, snd (adopt owner g boot empty_envelope own))
     else (None, own))"

function load_loop ::
  "byte list \<Rightarrow> nat \<Rightarrow> LoadState \<Rightarrow> RecoveryOwnership \<Rightarrow> LoadState option \<times> RecoveryOwnership" where
  "load_loop data off ls own =
    (if off < length data
     then case decode_frame data off of None \<Rightarrow> (None, own)
       | Some (h, next) \<Rightarrow>
           (case load_frame (fh_kind h) (fh_payload h) ls own of
              (None, own') \<Rightarrow> (None, own')
            | (Some ls', own') \<Rightarrow> load_loop data next ls' own')
     else (Some ls, own))"
  by auto

termination load_loop
proof (relation "measure (\<lambda>(data, off, ls, own). length data - off)")
  fix data :: "byte list" and off ls own x h "next" y ls' own'
  assume "off < length data" "decode_frame data off = Some x" "(h, next) = x"
  then have "off < next" "next \<le> length data" using decode_frame_progress by metis+
  then show "((data, next, ls', own'), data, off, ls, own)
      \<in> measure (\<lambda>(data, off, ls, own). length data - off)" by simp
qed simp

declare load_loop.simps [simp del]

text \<open>The checks after the loop: no failure id twice, no operation id twice.\<close>

fun new_failures ::
  "FailureRecord list \<Rightarrow> (FailureId, FailureRecord) umap \<Rightarrow> (FailureId, FailureRecord) umap option" where
  "new_failures [] m = Some m"
| "new_failures (rec # rest) m =
     (if um_count (fr_failure_id rec) m then None
      else new_failures rest (um_emplace (fr_failure_id rec) rec m))"

fun all_unseen :: "OperationId list \<Rightarrow> OperationId list \<Rightarrow> bool" where
  "all_unseen [] seen = True"
| "all_unseen (op # rest) seen = (if op \<in> set seen then False else all_unseen rest (op # seen))"

definition load_commit ::
  "LoadState \<Rightarrow> (FailureId, FailureRecord) umap \<Rightarrow> FailureStore \<Rightarrow> FailureStore" where
  "load_commit ls newfails st =
    (let st = store_clear st;
         fails = fold (\<lambda>kv m. um_emplace (fst kv) (snd kv) m) newfails (fs_failures st);
         ops = fold (\<lambda>p m. snd (reg_restore (fst p) (snd p) m)) (zip (ls_opids ls) (ls_orts ls)) (fs_ops st);
         idem = fold (\<lambda>ev m. idem_restore (ev_op ev) (ev_key ev) (ev_payload_hash ev) (ev_state ev)
                  (ev_result_metadata ev) m) (ls_idents ls) (fs_idem st)
     in st\<lparr>fs_failures := fails, fs_ops := ops, fs_idem := idem\<rparr>)"

definition load :: "byte list option \<Rightarrow> FailureStore \<Rightarrow> bool \<times> FailureStore" where
  "load file st =
    (case file of None \<Rightarrow> (False, st)
     | Some data \<Rightarrow>
         if data = [] then (False, st)
         else
           let (res, own) = load_loop data 0 load_start (fs_ownership st);
               st = st\<lparr>fs_ownership := own\<rparr>
           in case res of None \<Rightarrow> (False, st)
              | Some ls \<Rightarrow>
                  if length (ls_frs ls) \<noteq> unat (ls_nfail ls) \<or>
                     length (ls_orts ls) \<noteq> unat (ls_nop ls) \<or>
                     length (ls_idents ls) \<noteq> unat (ls_nid ls)
                  then (False, st)
                  else case new_failures (ls_frs ls) [] of None \<Rightarrow> (False, st)
                    | Some newfails \<Rightarrow>
                        if \<not> all_unseen (ls_opids ls) [] then (False, st)
                        else (True, load_commit ls newfails st))"

subsection \<open>Reading back what was saved\<close>

definition auth_bytes :: "AuthorityEnvelope \<Rightarrow> byte list" where
  "auth_bytes e = buffer (enc_auth e)"

lemma auth_codec:
  "writes (enc_auth e) (auth_bytes e) \<and>
   (validate_authority e \<longrightarrow> reads dec_auth (auth_bytes e) (Some e))"
proof -
  have "\<exists>bs. writes (enc_auth e) bs \<and> (validate_authority e \<longrightarrow> reads dec_auth bs (Some e))"
    unfolding enc_auth_def dec_auth_def
    apply (intro exI conjI impI)
     apply (rule writer_rules)+
    apply (rule reads_last [OF reads_generation] reader_rules)+
    apply (simp add: Let_def envelope_eta)
    done
  then show ?thesis by (auto simp: auth_bytes_def buffer_writes)
qed

lemma writes_auth [writer_rules]: "writes (enc_auth e) (auth_bytes e)"
  using auth_codec by blast

lemma reads_auth: "validate_authority e \<Longrightarrow> reads dec_auth (auth_bytes e) (Some e)"
  using auth_codec [of e] by blast

definition op_bytes :: "OperationId \<Rightarrow> OperationRuntime \<Rightarrow> byte list" where
  "op_bytes op rt = buffer (save_op op rt)"

definition entry_bytes :: "EntryView \<Rightarrow> byte list" where
  "entry_bytes e = buffer (save_entry e)"

definition ownership_bytes :: "RecoveryOwnership \<Rightarrow> byte list" where
  "ownership_bytes o' = buffer (save_ownership o')"

definition header_bytes :: "FailureStore \<Rightarrow> byte list" where
  "header_bytes st = buffer (save_header st)"

text \<open>What the snapshot format can carry of an operation and of an idempotency entry.\<close>

definition op_persistable :: "OperationRuntime \<Rightarrow> bool" where
  "op_persistable rt \<longleftrightarrow>
     castable (rt_state rt) \<and> length (rt_terminal_outcome rt) \<le> 0xFFFF \<and>
     validate_authority (rt_authority rt) \<and> validate_authority (rt_terminal rt)"

definition idem_castable :: "IdempotencyState \<Rightarrow> bool" where
  "idem_castable s \<longleftrightarrow> (case s of IdempotencyState.UNNAMED n \<Rightarrow> \<not> n < 4 | _ \<Rightarrow> True)"

definition entry_persistable :: "EntryView \<Rightarrow> bool" where
  "entry_persistable e \<longleftrightarrow> idem_castable (ev_state e) \<and> length (ev_result_metadata e) \<le> 0xFFFF"

lemma reads_case_some: "reads (f x) bs y \<Longrightarrow> reads (case Some x of None \<Rightarrow> m | Some x \<Rightarrow> f x) bs y"
  by simp

lemma reads_auth_last:
  "validate_authority e \<Longrightarrow> f e True = y \<Longrightarrow>
    reads (do { a \<leftarrow> dec_auth; case a of None \<Rightarrow> m
      | Some e \<Rightarrow> do { ok \<leftarrow> r_ok; State_Monad.return (f e ok) } }) (auth_bytes e) y"
  using reads_auth [of e] by (simp add: reads_def r_ok_def)

lemma reads_op:
  assumes "op_persistable rt"
  shows "reads load_op (op_bytes op rt) (Some (op, rt))"
proof -
  have p: "length (rt_terminal_outcome rt) \<le> 0xFFFF" "validate_authority (rt_authority rt)"
    "validate_authority (rt_terminal rt)" and c: "castable (rt_state rt)"
    using assms by (simp_all add: op_persistable_def)
  have m: "OperationStateMachine (rt_state rt) = rt_machine rt" by (cases "rt_machine rt") simp
  have "\<exists>bs. writes (save_op op rt) bs \<and> reads load_op bs (Some (op, rt))"
    unfolding save_op_def load_op_def
    apply (intro exI conjI)
     apply (rule writer_rules)+
    apply (rule reads_case_some reads_auth_last [OF p(3)] reader_rules
        reads_bind [OF reads_str16 [OF p(1)]] reads_bind [OF reads_auth [OF p(2)]])+
     apply (simp_all add: OperationState_cast_u32 [OF c] m)
    done
  then show ?thesis by (auto simp: op_bytes_def buffer_writes)
qed

lemma reads_entry:
  assumes "entry_persistable e"
  shows "reads load_entry (entry_bytes e) (Some e)"
proof -
  have p: "length (ev_result_metadata e) \<le> 0xFFFF" and c: "idem_castable (ev_state e)"
    using assms by (simp_all add: entry_persistable_def)
  then have "IdempotencyState_cast (IdempotencyState_u32 (ev_state e)) = ev_state e"
    by (intro IdempotencyState_cast_u32) (auto simp: idem_castable_def)
  moreover have "\<exists>bs. writes (save_entry e) bs \<and>
      reads load_entry bs (Some (e\<lparr>ev_state := IdempotencyState_cast (IdempotencyState_u32 (ev_state e))\<rparr>))"
    unfolding save_entry_def load_entry_def
    apply (intro exI conjI)
     apply (rule writer_rules)+
    apply (rule reads_last [OF reads_str16 [OF p]] reader_rules)+
    apply simp
    done
  ultimately show ?thesis by (auto simp: entry_bytes_def buffer_writes)
qed

lemma reads_ownership:
  "reads load_ownership (ownership_bytes o') (Some (ro_owner o', ro_generation o', ro_boot o'))"
proof -
  have "\<exists>bs. writes (save_ownership o') bs \<and>
      reads load_ownership bs (Some (ro_owner o', ro_generation o', ro_boot o'))"
    unfolding save_ownership_def load_ownership_def
    apply (intro exI conjI)
     apply (rule writer_rules)+
    apply (rule reads_last [OF reads_id] reader_rules)+
     apply (simp_all add: enum_u32_limits not_le)
    done
  then show ?thesis by (auto simp: ownership_bytes_def buffer_writes)
qed

lemma reads_header:
  "reads load_header (header_bytes st)
    (Some (word_of_nat (length (fs_failures st)), word_of_nat (reg_size (fs_ops st)),
       word_of_nat (idem_size (fs_idem st))))"
proof -
  have "\<exists>bs. writes (save_header st) bs \<and> reads load_header bs
    (Some (word_of_nat (length (fs_failures st)), word_of_nat (reg_size (fs_ops st)),
       word_of_nat (idem_size (fs_idem st))))"
    unfolding save_header_def load_header_def
    apply (intro exI conjI)
     apply (rule writer_rules)+
    apply (rule reads_last [OF reads_words(2)] reads_bind [OF reads_words(1)] reader_rules)+
      apply simp_all
    done
  then show ?thesis by (auto simp: header_bytes_def buffer_writes)
qed

lemma within_auth: "writes_within (enc_auth e) 88"
proof -
  have "writes_within (enc_auth e) (8 + (16 + (16 + (16 + (8 + (8 + (8 + 8)))))))"
    unfolding enc_auth_def by (rule within_bind within_basic)+
  then show ?thesis by simp
qed

text \<open>No payload comes near the 32-bit limit of the length field.\<close>

lemma small_payloads:
  "persistable r \<Longrightarrow> length (failure_record_bytes r) < 2 ^ 32"
  "length (op_bytes op rt) < 2 ^ 32" "length (entry_bytes e) < 2 ^ 32"
  "length (ownership_bytes o') < 2 ^ 32" "length (header_bytes st) < 2 ^ 32"
proof -
  assume "persistable r"
  then have d: "length (fr_dependencies r) \<le> 4096" by (simp add: persistable_def)
  show "length (failure_record_bytes r) < 2 ^ 32"
    unfolding failure_record_bytes_def encode_failure_record_def
    by (rule within_buffer, (rule within_bind within_basic within_deps [OF d])+) simp
next
  show "length (op_bytes op rt) < 2 ^ 32"
    unfolding op_bytes_def save_op_def
    by (rule within_buffer, (rule within_bind within_basic within_auth)+) simp
  show "length (entry_bytes e) < 2 ^ 32"
    unfolding entry_bytes_def save_entry_def
    by (rule within_buffer, (rule within_bind within_basic)+) simp
  show "length (ownership_bytes o') < 2 ^ 32"
    unfolding ownership_bytes_def save_ownership_def
    by (rule within_buffer, (rule within_bind within_basic)+) simp
  show "length (header_bytes st) < 2 ^ 32"
    unfolding header_bytes_def save_header_def
    by (rule within_buffer, (rule within_bind within_basic)+) simp
qed

text \<open>The loop of \<open>load\<close> over a file that is a sequence of encoded frames.\<close>

fun run_frames ::
  "(byte \<times> byte list) list \<Rightarrow> LoadState \<Rightarrow> RecoveryOwnership \<Rightarrow> LoadState option \<times> RecoveryOwnership" where
  "run_frames [] ls own = (Some ls, own)"
| "run_frames ((k, p) # fs) ls own =
     (case load_frame k p ls own of (None, own') \<Rightarrow> (None, own')
      | (Some ls', own') \<Rightarrow> run_frames fs ls' own')"

definition frames_bytes :: "(byte \<times> byte list) list \<Rightarrow> byte list" where
  "frames_bytes fs = concat (map (\<lambda>(k, p). encode_frame k p) fs)"

lemma frames_bytes_simps [simp]:
  "frames_bytes [] = []" "frames_bytes ((k, p) # fs) = encode_frame k p @ frames_bytes fs"
  "frames_bytes (fs @ gs) = frames_bytes fs @ frames_bytes gs"
  by (simp_all add: frames_bytes_def)

lemma encode_frame_not_Nil [simp]: "encode_frame k p \<noteq> []"
proof -
  have "length (encode_frame k p) \<noteq> 0" by simp
  then show ?thesis by (simp only: length_0_conv not_False_eq_True)
qed

lemma load_loop_frames:
  "\<forall>(k, p) \<in> set fs. length p < 2 ^ 32 \<Longrightarrow>
    load_loop (pre @ frames_bytes fs) (length pre) ls own = run_frames fs ls own"
proof (induction fs arbitrary: pre ls own)
  case Nil
  then show ?case by (subst load_loop.simps) simp
next
  case (Cons f fs)
  obtain k p where f: "f = (k, p)" by fastforce
  have p: "length p < 2 ^ 32" using Cons.prems f by simp
  have IH: "load_loop (pre @ encode_frame k p @ frames_bytes fs) (length pre + length (encode_frame k p)) ls' own'
      = run_frames fs ls' own'" for ls' own'
    using Cons.IH [of "pre @ encode_frame k p" ls' own'] Cons.prems by simp
  show ?case
    unfolding f frames_bytes_simps
    by (subst load_loop.simps)
      (simp add: decode_encode_frame [OF p] IH del: length_encode_frame split: prod.split option.split)
qed

lemma run_frames_append:
  "run_frames (fs @ gs) ls own =
    (case run_frames fs ls own of (None, own') \<Rightarrow> (None, own')
     | (Some ls', own') \<Rightarrow> run_frames gs ls' own')"
  by (induction fs ls own rule: run_frames.induct) (auto split: prod.splits option.splits)

lemma load_frame_read:
  "ls_first ls \<Longrightarrow> fst (run_state load_header (new_reader p)) = Some (a, b, c) \<Longrightarrow>
    load_frame k p ls own =
      (Some (ls\<lparr>ls_nfail := a, ls_nop := b, ls_nid := c, ls_first := False\<rparr>), own)"
  "\<not> ls_first ls \<Longrightarrow> fst (run_state decode_failure_record (new_reader p)) = Some r \<Longrightarrow>
    load_frame K_FAIL p ls own = (Some (ls\<lparr>ls_frs := ls_frs ls @ [r]\<rparr>), own)"
  "\<not> ls_first ls \<Longrightarrow> fst (run_state load_op (new_reader p)) = Some (op, rt) \<Longrightarrow>
    load_frame K_OP p ls own =
      (Some (ls\<lparr>ls_opids := ls_opids ls @ [op], ls_orts := ls_orts ls @ [rt]\<rparr>), own)"
  "\<not> ls_first ls \<Longrightarrow> fst (run_state load_entry (new_reader p)) = Some ev \<Longrightarrow>
    load_frame K_ID p ls own = (Some (ls\<lparr>ls_idents := ls_idents ls @ [ev]\<rparr>), own)"
  "\<not> ls_first ls \<Longrightarrow> fst (run_state load_ownership (new_reader p)) = Some (w, g, boot) \<Longrightarrow>
    load_frame K_OWN p ls own = (Some ls, snd (adopt w g boot empty_envelope own))"
  by (simp_all add: load_frame_def K_FAIL_def K_OP_def K_ID_def K_OWN_def)

lemma run_failures:
  "\<not> ls_first ls \<Longrightarrow> \<forall>r \<in> set rs. persistable r \<Longrightarrow>
    run_frames (map (\<lambda>r. (K_FAIL, failure_record_bytes r)) rs) ls own =
      (Some (ls\<lparr>ls_frs := ls_frs ls @ rs\<rparr>), own)"
proof (induction rs arbitrary: ls)
  case (Cons r rs)
  then have "fst (run_state decode_failure_record (new_reader (failure_record_bytes r))) = Some r"
    using reads_all [OF reads_failure_record] by simp
  then show ?case using Cons by (simp add: load_frame_read)
qed simp

lemma run_ops:
  "\<not> ls_first ls \<Longrightarrow> \<forall>(op, rt) \<in> set ps. op_persistable rt \<Longrightarrow>
    run_frames (map (\<lambda>(op, rt). (K_OP, op_bytes op rt)) ps) ls own =
      (Some (ls\<lparr>ls_opids := ls_opids ls @ map fst ps, ls_orts := ls_orts ls @ map snd ps\<rparr>), own)"
proof (induction ps arbitrary: ls)
  case (Cons p ps)
  obtain op rt where p: "p = (op, rt)" by fastforce
  have "fst (run_state load_op (new_reader (op_bytes op rt))) = Some (op, rt)"
    using reads_all [OF reads_op [of rt op]] Cons.prems p by simp
  then show ?case using Cons p by (simp add: load_frame_read)
qed simp

lemma run_entries:
  "\<not> ls_first ls \<Longrightarrow> \<forall>e \<in> set es. entry_persistable e \<Longrightarrow>
    run_frames (map (\<lambda>e. (K_ID, entry_bytes e)) es) ls own =
      (Some (ls\<lparr>ls_idents := ls_idents ls @ es\<rparr>), own)"
proof (induction es arbitrary: ls)
  case (Cons e es)
  have "fst (run_state load_entry (new_reader (entry_bytes e))) = Some e"
    using reads_all [OF reads_entry [of e]] Cons.prems by simp
  then show ?case using Cons by (simp add: load_frame_read)
qed simp

text \<open>The frames of a snapshot, and the stores a snapshot can carry.\<close>

definition snapshot_frames :: "FailureStore \<Rightarrow> (byte \<times> byte list) list" where
  "snapshot_frames st =
     [(0, header_bytes st)] @
     map (\<lambda>r. (K_FAIL, failure_record_bytes r)) (map snd (fs_failures st)) @
     map (\<lambda>(op, rt). (K_OP, op_bytes op rt)) (fs_ops st) @
     map (\<lambda>e. (K_ID, entry_bytes e)) (idem_collect (fs_idem st)) @
     [(K_OWN, ownership_bytes (fs_ownership st))]"

definition store_inv :: "FailureStore \<Rightarrow> bool" where
  "store_inv st \<longleftrightarrow>
     um_wf (fs_failures st) \<and> um_wf (fs_ops st) \<and> um_wf (fs_idem st) \<and>
     list_all (\<lambda>(i, r). i = fr_failure_id r \<and> validate_authority (fr_authority r)) (fs_failures st)"

definition snapshottable :: "FailureStore \<Rightarrow> bool" where
  "snapshottable st \<longleftrightarrow>
     store_inv st \<and>
     list_all persistable (map snd (fs_failures st)) \<and>
     list_all op_persistable (map snd (fs_ops st)) \<and>
     list_all entry_persistable (idem_collect (fs_idem st)) \<and>
     length (fs_failures st) < 2 ^ 32 \<and> length (fs_ops st) < 2 ^ 32 \<and> length (fs_idem st) < 2 ^ 32"

lemma save_frames: "um_wf (fs_ops st) \<Longrightarrow> save st = frames_bytes (snapshot_frames st)"
proof -
  assume wf: "um_wf (fs_ops st)"
  have "concat (map (\<lambda>op. case reg_find op m of None \<Rightarrow> []
            | Some rt \<Rightarrow> write_frame K_OP (buffer (save_op op rt))) (map fst ps)) =
      concat (map (\<lambda>(op, rt). encode_frame K_OP (op_bytes op rt)) ps)"
    if "\<forall>(op, rt) \<in> set ps. map_of m op = Some rt" for ps m
    using that by (induction ps) (auto simp: reg_find_def write_frame_def op_bytes_def)
  moreover have "\<forall>(op, rt) \<in> set (fs_ops st). map_of (fs_ops st) op = Some rt"
    using wf by (auto simp: um_wf_def)
  ultimately have "concat (map (\<lambda>op. case reg_find op (fs_ops st) of None \<Rightarrow> []
            | Some rt \<Rightarrow> write_frame K_OP (buffer (save_op op rt))) (reg_operations (fs_ops st))) =
      concat (map (\<lambda>(op, rt). encode_frame K_OP (op_bytes op rt)) (fs_ops st))"
    unfolding reg_operations_def by blast
  then show ?thesis
    by (simp add: save_def snapshot_frames_def frames_bytes_def write_frame_def header_bytes_def
        failure_record_bytes_def entry_bytes_def ownership_bytes_def comp_def case_prod_unfold)
qed

lemma run_snapshot:
  assumes "snapshottable st"
  shows "run_frames (snapshot_frames st) load_start own =
    (Some \<lparr>ls_frs = map snd (fs_failures st), ls_opids = map fst (fs_ops st),
       ls_orts = map snd (fs_ops st), ls_idents = idem_collect (fs_idem st),
       ls_nfail = word_of_nat (length (fs_failures st)), ls_nop = word_of_nat (length (fs_ops st)),
       ls_nid = word_of_nat (length (fs_idem st)), ls_first = False\<rparr>,
     snd (adopt (ro_owner (fs_ownership st)) (ro_generation (fs_ownership st))
       (ro_boot (fs_ownership st)) empty_envelope own))"
proof -
  have "fst (run_state load_header (new_reader (header_bytes st))) =
      Some (word_of_nat (length (fs_failures st)), word_of_nat (reg_size (fs_ops st)),
        word_of_nat (idem_size (fs_idem st)))"
    using reads_all [OF reads_header [of st]] by simp
  moreover have "fst (run_state load_ownership (new_reader (ownership_bytes (fs_ownership st)))) =
      Some (ro_owner (fs_ownership st), ro_generation (fs_ownership st), ro_boot (fs_ownership st))"
    using reads_all [OF reads_ownership [of "fs_ownership st"]] by simp
  moreover have "\<forall>r \<in> set (map snd (fs_failures st)). persistable r"
    "\<forall>(op, rt) \<in> set (fs_ops st). op_persistable rt"
    "\<forall>e \<in> set (idem_collect (fs_idem st)). entry_persistable e"
    using assms by (auto simp: snapshottable_def list_all_iff)
  ultimately show ?thesis
    unfolding snapshot_frames_def run_frames_append
    by (simp add: load_frame_read run_failures run_ops run_entries load_start_def reg_size_def idem_size_def
        del: map_map)
qed

lemma map_of_absent: "k \<notin> fst ` set m \<Longrightarrow> um_emplace k v m = (k, v) # m"
  by (simp add: um_emplace_def map_of_eq_None_iff)

lemma new_failures_fresh:
  "distinct (map fr_failure_id rs) \<Longrightarrow> fst ` set m \<inter> fr_failure_id ` set rs = {} \<Longrightarrow>
    new_failures rs m = Some (rev (map (\<lambda>r. (fr_failure_id r, r)) rs) @ m)"
proof (induction rs arbitrary: m)
  case (Cons r rs)
  then have "fr_failure_id r \<notin> fst ` set m" by auto
  then show ?case using Cons by (simp add: map_of_absent map_of_eq_None_iff image_iff)
qed simp

lemma new_failures_inv:
  "new_failures rs m = Some m' \<Longrightarrow> um_wf m \<Longrightarrow> list_all (\<lambda>(i, r). i = fr_failure_id r) m \<Longrightarrow>
    um_wf m' \<and> list_all (\<lambda>(i, r). i = fr_failure_id r) m' \<and> snd ` set m' = snd ` set m \<union> set rs"
proof (induction rs arbitrary: m)
  case (Cons r rs)
  then have absent: "map_of m (fr_failure_id r) = None"
    and rest: "new_failures rs ((fr_failure_id r, r) # m) = Some m'"
    by (auto simp: um_emplace_def split: if_splits)
  have "um_wf ((fr_failure_id r, r) # m)"
    using absent Cons.prems(2) by (simp add: um_wf_def map_of_eq_None_iff)
  then show ?case using Cons.IH [OF rest] Cons.prems(3) by auto
qed simp

lemma all_unseen_iff: "all_unseen ops seen \<longleftrightarrow> distinct ops \<and> set ops \<inter> set seen = {}"
  by (induction ops seen rule: all_unseen.induct) auto

lemma fold_emplace_fresh:
  "distinct (map fst kvs) \<Longrightarrow> fst ` set kvs \<inter> fst ` set m = {} \<Longrightarrow>
    fold (\<lambda>kv m. um_emplace (fst kv) (snd kv) m) kvs m = rev kvs @ m"
proof (induction kvs arbitrary: m)
  case (Cons kv kvs)
  then have "fst kv \<notin> fst ` set m" by auto
  then show ?case using Cons by (simp add: map_of_absent image_iff)
qed simp

lemma fold_restore_fresh:
  "distinct (map fst kvs) \<Longrightarrow> fst ` set kvs \<inter> fst ` set m = {} \<Longrightarrow>
    fold (\<lambda>p m. snd (reg_restore (fst p) (snd p) m)) kvs m = rev kvs @ m"
proof (induction kvs arbitrary: m)
  case (Cons kv kvs)
  then have "fst kv \<notin> fst ` set m" by auto
  then show ?case using Cons by (simp add: reg_restore_def map_of_absent map_of_eq_None_iff image_iff)
qed simp

lemma idem_restore_run:
  "map_of (fold (\<lambda>ev m. idem_restore (ev_op ev) (ev_key ev) (ev_payload_hash ev) (ev_state ev)
      (ev_result_metadata ev) m) evs m) k =
   (case find (\<lambda>ev. (ev_op ev, ev_key ev) = k) (rev evs) of
      None \<Rightarrow> map_of m k
    | Some ev \<Rightarrow> Some (default_entry\<lparr>ie_payload_hash := ev_payload_hash ev, ie_state := ev_state ev,
        ie_result_metadata := ev_result_metadata ev\<rparr>))"
  by (induction evs arbitrary: m rule: rev_induct) (auto simp: idem_restore_def)

lemma idem_restore_wf:
  "um_wf m \<Longrightarrow> um_wf (fold (\<lambda>ev m. idem_restore (ev_op ev) (ev_key ev) (ev_payload_hash ev)
      (ev_state ev) (ev_result_metadata ev) m) evs m)"
  by (induction evs arbitrary: m) (simp_all add: idem_restore_def um_wf_assign)

text \<open>An idempotency entry as a snapshot preserves it: everything but its authority.\<close>

definition forget_authority :: "Entry \<Rightarrow> Entry" where
  "forget_authority e = e\<lparr>ie_authority := empty_envelope\<rparr>"

lemma map_of_rev_wf: "um_wf m \<Longrightarrow> map_of (rev m) = map_of m"
  by (simp add: um_wf_def map_of_inject_set rev_map [symmetric])

lemma find_view:
  "distinct (map fst m) \<Longrightarrow>
    find (\<lambda>ev. (ev_op ev, ev_key ev) = k) (rev (map idem_view m)) =
      map_option (\<lambda>e. idem_view (k, e)) (map_of m k)"
proof -
  have view: "find (\<lambda>ev. (ev_op ev, ev_key ev) = k) (map idem_view m) =
      map_option (\<lambda>e. idem_view (k, e)) (map_of m k)" for m
    by (induction m) (auto simp: idem_view_def)
  assume "distinct (map fst m)"
  then have "map_of (rev m) = map_of m" by (simp add: map_of_rev_wf um_wf_def)
  then show ?thesis using view [of "rev m"] by (simp only: rev_map)
qed

lemma idem_restore_collected:
  "um_wf m \<Longrightarrow>
    map_of (fold (\<lambda>ev m. idem_restore (ev_op ev) (ev_key ev) (ev_payload_hash ev) (ev_state ev)
      (ev_result_metadata ev) m) (idem_collect m) []) = map_option forget_authority \<circ> map_of m"
proof
  fix k assume "um_wf m"
  then show "map_of (fold (\<lambda>ev m. idem_restore (ev_op ev) (ev_key ev) (ev_payload_hash ev) (ev_state ev)
      (ev_result_metadata ev) m) (idem_collect m) []) k = (map_option forget_authority \<circ> map_of m) k"
    unfolding idem_restore_run idem_collect_def
    by (cases "map_of m k")
      (simp_all add: um_wf_def find_view idem_view_def forget_authority_def default_entry_def)
qed

lemma load_saved:
  assumes "snapshottable st"
  shows "load (Some (save st)) st0 =
    (True, \<lparr>fs_failures = fs_failures st, fs_ops = rev (fs_ops st),
       fs_idem = fold (\<lambda>ev m. idem_restore (ev_op ev) (ev_key ev) (ev_payload_hash ev) (ev_state ev)
         (ev_result_metadata ev) m) (idem_collect (fs_idem st)) [],
       fs_ownership = new_ownership\<rparr>)"
proof -
  have wf: "um_wf (fs_failures st)" "um_wf (fs_ops st)"
    and keys: "list_all (\<lambda>(i, r). i = fr_failure_id r) (fs_failures st)"
    using assms by (auto simp: snapshottable_def store_inv_def list_all_iff)
  have ids: "map fr_failure_id (map snd (fs_failures st)) = map fst (fs_failures st)"
    "map (\<lambda>r. (fr_failure_id r, r)) (map snd (fs_failures st)) = fs_failures st"
    using keys by (auto simp: list_all_iff comp_def intro!: map_idI)
  have small: "\<forall>(k, p) \<in> set (snapshot_frames st). length p < 2 ^ 32"
    using assms small_payloads
    by (auto simp: snapshot_frames_def snapshottable_def list_all_iff)
  have ne: "save st \<noteq> []"
    by (simp add: save_def write_frame_def)
  have n: "unat (word_of_nat (length (fs_failures st)) :: u32) = length (fs_failures st)"
    "unat (word_of_nat (length (fs_ops st)) :: u32) = length (fs_ops st)"
    "unat (word_of_nat (length (fs_idem st)) :: u32) = length (fs_idem st)"
    using assms by (simp_all add: snapshottable_def unsigned_of_nat take_bit_nat_eq_self)
  have loop: "load_loop (save st) 0 load_start own = run_frames (snapshot_frames st) load_start own" for own
    using load_loop_frames [OF small, of "[]" load_start own] save_frames [OF wf(2)] by simp
  have "distinct (map fr_failure_id (map snd (fs_failures st)))"
    unfolding ids(1) using wf(1) by (simp add: um_wf_def)
  from new_failures_fresh [OF this, of "[]"]
  have nf: "new_failures (map snd (fs_failures st)) [] = Some (rev (fs_failures st))"
    unfolding ids(2) by simp
  have "fold (\<lambda>kv m. um_emplace (fst kv) (snd kv) m) (rev (fs_failures st)) [] = fs_failures st"
    using fold_emplace_fresh [of "rev (fs_failures st)" "[]"] wf(1) by (simp add: um_wf_def rev_map [symmetric])
  moreover have "fold (\<lambda>p m. snd (reg_restore (fst p) (snd p) m)) (fs_ops st) [] = rev (fs_ops st)"
    using fold_restore_fresh [of "fs_ops st" "[]"] wf(2) by (simp add: um_wf_def)
  moreover have "all_unseen (map fst (fs_ops st)) []" using wf(2) by (simp add: all_unseen_iff um_wf_def)
  ultimately show ?thesis
    by (simp add: load_def ne loop run_snapshot [OF assms] n nf load_commit_def store_clear_def
        reg_clear_def idem_clear_def zip_map_fst_snd idem_collect_def)
qed

subsection \<open>What a load can produce\<close>

text \<open>\<open>yields m P\<close>: whatever the input, the result of the reader satisfies \<open>P\<close>.\<close>

definition yields :: "'a reader \<Rightarrow> ('a \<Rightarrow> bool) \<Rightarrow> bool" where
  "yields m P \<longleftrightarrow> (\<forall>r. P (fst (run_state m r)))"

lemma yields_bind: "(\<And>x. yields (f x) P) \<Longrightarrow> yields (m \<bind> f) P"
  by (simp add: yields_def split: prod.split)

lemma yields_return: "P x \<Longrightarrow> yields (State_Monad.return x) P"
  by (simp add: yields_def)

lemma yields_if: "yields m P \<Longrightarrow> yields n P \<Longrightarrow> yields (if c then m else n) P"
  by simp

lemma yields_enum_below: "P None \<Longrightarrow> (\<And>v. yields (k v) P) \<Longrightarrow> yields (r_enum_below n k) P"
  unfolding r_enum_below_def by (intro yields_bind yields_if yields_return)

lemma decoded_authority:
  "yields decode_failure_record (\<lambda>x. case x of None \<Rightarrow> True | Some r \<Rightarrow> validate_authority (fr_authority r))"
  unfolding decode_failure_record_def
  by (intro yields_bind yields_if yields_enum_below yields_return) (simp_all add: Let_def)

lemma decoded_valid:
  "fst (run_state decode_failure_record r) = Some rec \<Longrightarrow> validate_authority (fr_authority rec)"
  using decoded_authority unfolding yields_def by (metis option.simps(5))

definition load_inv :: "LoadState \<Rightarrow> bool" where
  "load_inv ls \<longleftrightarrow>
     list_all (\<lambda>r. validate_authority (fr_authority r)) (ls_frs ls) \<and>
     length (ls_opids ls) = length (ls_orts ls)"

lemma load_frame_inv:
  assumes "load_inv ls" and "load_frame k p ls own = (Some ls', own')"
  shows "load_inv ls'"
  using assms decoded_valid
  by (auto simp: load_frame_def load_inv_def Let_def split: if_splits option.splits)

lemma load_loop_inv:
  "load_inv ls \<Longrightarrow> load_loop data off ls own = (Some ls', own') \<Longrightarrow> load_inv ls'"
proof (induction data off ls own rule: load_loop.induct)
  case (1 data off ls own)
  show ?case
  proof (cases "off < length data")
    case True
    then obtain h nxt ls1 own1 where d: "decode_frame data off = Some (h, nxt)"
      and f: "load_frame (fh_kind h) (fh_payload h) ls own = (Some ls1, own1)"
      and l: "load_loop data nxt ls1 own1 = (Some ls', own')"
      using "1.prems"(2)
      by (subst (asm) load_loop.simps) (auto split: option.splits prod.splits)
    show ?thesis
      using "1.IH" [OF True d refl f [symmetric] refl] load_frame_inv [OF "1.prems"(1) f] l by blast
  next
    case False
    then show ?thesis using 1 by (subst (asm) load_loop.simps) simp
  qed
qed

lemma load_true:
  assumes "fst (load file st)"
  obtains ls newfails own where "load_inv ls" "new_failures (ls_frs ls) [] = Some newfails"
    "distinct (ls_opids ls)" "snd (load file st) = load_commit ls newfails (st\<lparr>fs_ownership := own\<rparr>)"
proof -
  obtain data where img: "file = Some data" "data \<noteq> []"
    using assms by (auto simp: load_def split: option.splits if_splits)
  obtain res own where loop: "load_loop data 0 load_start (fs_ownership st) = (res, own)" by fastforce
  obtain ls newfails where l: "res = Some ls" "new_failures (ls_frs ls) [] = Some newfails"
    "all_unseen (ls_opids ls) []" "snd (load file st) = load_commit ls newfails (st\<lparr>fs_ownership := own\<rparr>)"
    using assms img loop by (auto simp: load_def Let_def split: option.splits if_splits)
  moreover have "load_inv load_start" by (simp add: load_inv_def load_start_def)
  then have "load_inv ls" using loop l(1) load_loop_inv by blast
  ultimately show ?thesis using that by (simp add: all_unseen_iff)
qed

lemma load_false:
  assumes "\<not> fst (load file st)"
  shows "\<exists>own. snd (load file st) = st\<lparr>fs_ownership := own\<rparr>"
proof -
  have "\<exists>own. st = st\<lparr>fs_ownership := own\<rparr>" by (rule exI [of _ "fs_ownership st"]) simp
  then show ?thesis
    using assms by (auto simp: load_def Let_def split: option.splits if_splits prod.splits)
qed

lemma commit_inv:
  assumes "load_inv ls" "new_failures (ls_frs ls) [] = Some nf" "distinct (ls_opids ls)"
  shows "store_inv (load_commit ls nf st)"
proof -
  have nf: "um_wf nf" "list_all (\<lambda>(i, r). i = fr_failure_id r) nf" "snd ` set nf = set (ls_frs ls)"
    using new_failures_inv [OF assms(2)] by simp_all
  then have "fold (\<lambda>kv m. um_emplace (fst kv) (snd kv) m) nf [] = rev nf"
    using fold_emplace_fresh [of nf "[]"] by (simp add: um_wf_def)
  moreover have "um_wf (rev nf)" using nf(1) by (simp add: um_wf_def rev_map [symmetric])
  moreover have "validate_authority (fr_authority r)" if "(i, r) \<in> set nf" for i r
  proof -
    have "r \<in> snd ` set nf" using that by force
    then show ?thesis using nf(3) assms(1) by (simp add: load_inv_def list_all_iff)
  qed
  then have "list_all (\<lambda>(i, r). i = fr_failure_id r \<and> validate_authority (fr_authority r)) nf"
    using nf(2) by (auto simp: list_all_iff)
  moreover have "fold (\<lambda>p m. snd (reg_restore (fst p) (snd p) m)) (zip (ls_opids ls) (ls_orts ls)) [] =
      rev (zip (ls_opids ls) (ls_orts ls))"
    using fold_restore_fresh [of "zip (ls_opids ls) (ls_orts ls)" "[]"] assms(1,3)
    by (simp add: load_inv_def)
  moreover have "um_wf (rev (zip (ls_opids ls) (ls_orts ls)))"
    using assms(1,3) by (simp add: um_wf_def rev_map [symmetric] load_inv_def)
  ultimately show ?thesis
    by (simp add: store_inv_def load_commit_def store_clear_def reg_clear_def idem_clear_def
        idem_restore_wf list_all_iff)
qed

subsection \<open>The log\<close>

definition append_step :: "FailureRecord \<Rightarrow> FailureStore \<Rightarrow> FailureStore" where
  "append_step rec st = snd (append_failure rec st)"

definition log_kept :: "FailureStore \<Rightarrow> FailureStore \<Rightarrow> bool" where
  "log_kept st st' \<longleftrightarrow> (\<forall>i r. find_failure i st = Some r \<longrightarrow> find_failure i st' = Some r)"

lemma append_failure_accepts:
  "fst (append_failure rec st) \<longleftrightarrow>
    \<not> is_null (fr_failure_id rec) \<and> \<not> has_failure (fr_failure_id rec) st \<and>
    \<not> is_null (fr_operation rec) \<and> \<not> is_null (fr_attempt rec) \<and> validate_authority (fr_authority rec)"
  by (auto simp: append_failure_def has_failure_def)

lemma append_step_cases:
  "append_step rec st = st \<or>
   map_of (fs_failures st) (fr_failure_id rec) = None \<and> validate_authority (fr_authority rec) \<and>
     append_step rec st = st\<lparr>fs_failures := (fr_failure_id rec, rec) # fs_failures st\<rparr>"
  by (auto simp: append_step_def append_failure_def um_emplace_def)

lemma append_step_inv: "store_inv st \<Longrightarrow> store_inv (append_step rec st)"
  using append_step_cases [of rec st]
  by (auto simp: store_inv_def um_wf_def map_of_eq_None_iff)

interpretation log: monotone_system append_step store_inv log_kept
proof unfold_locales
  show "store_inv s \<Longrightarrow> store_inv (append_step e s)" for s e by (rule append_step_inv)
  show "log_kept s s" for s by (simp add: log_kept_def)
  show "log_kept s t \<Longrightarrow> log_kept t u \<Longrightarrow> log_kept s u" for s t u by (simp add: log_kept_def)
  show "store_inv s \<Longrightarrow> log_kept s (append_step e s)" for s e
    using append_step_cases [of e s] by (auto simp: log_kept_def find_failure_def)
qed

text \<open>A small store with one entry of each kind.\<close>

definition sample_store :: FailureStore where
  "sample_store = \<lparr>fs_failures = [(null_id, default_record)], fs_ops = [(null_id, default_runtime)],
     fs_idem = [((null_id, IdempotencyKey uuid_zero), default_entry)],
     fs_ownership = \<lparr>ro_owner = RecoveryOwner.COORDINATOR, ro_generation = Generation 1,
       ro_boot = null_id\<rparr>\<rparr>"

lemma empty_envelope_valid: "validate_authority empty_envelope"
  by (simp add: validate_authority_def empty_envelope_def is_null_def null_id_def is_zero_def uuid_zero_def)

lemma sample_store_ok: "snapshottable sample_store"
  by (simp add: snapshottable_def store_inv_def sample_store_def um_wf_def persistable_def
      default_record_def op_persistable_def default_runtime_def castable_def entry_persistable_def
      idem_collect_def idem_view_def idem_castable_def default_entry_def empty_envelope_valid)

subsection \<open>Properties\<close>

text \<open>
  C7: A snapshot restores what it saved: loading the bytes a store saved, into any store, succeeds
  and gives back every failure record, every operation runtime and every idempotency entry (less
  the authority the entry was submitted under).
\<close>

theorem snapshot_roundtrip:
  assumes "snapshottable st"
  shows "fst (load (Some (save st)) st0) \<and>
    map_of (fs_failures (snd (load (Some (save st)) st0))) = map_of (fs_failures st) \<and>
    map_of (fs_ops (snd (load (Some (save st)) st0))) = map_of (fs_ops st) \<and>
    map_of (fs_idem (snd (load (Some (save st)) st0))) =
      map_option forget_authority \<circ> map_of (fs_idem st)"
proof -
  have "um_wf (fs_ops st)" "um_wf (fs_idem st)"
    using assms by (simp_all add: snapshottable_def store_inv_def)
  then show ?thesis by (simp add: load_saved [OF assms] map_of_rev_wf idem_restore_collected)
qed

theorem snapshot_roundtrip_witness:
  "fst (load (Some (save sample_store)) new_store) \<and>
   map_of (fs_failures (snd (load (Some (save sample_store)) new_store))) = map_of (fs_failures sample_store) \<and>
   map_of (fs_ops (snd (load (Some (save sample_store)) new_store))) = map_of (fs_ops sample_store) \<and>
   map_of (fs_idem (snd (load (Some (save sample_store)) new_store))) =
      map_option forget_authority \<circ> map_of (fs_idem sample_store)"
  by (rule snapshot_roundtrip [OF sample_store_ok])

text \<open>
  A load that fails leaves the failure log, the operations and the idempotency entries exactly
  as they were.
\<close>

lemma failed_load_keeps_data:
  assumes "\<not> fst (load file st)"
  shows "fs_failures (snd (load file st)) = fs_failures st \<and>
    fs_ops (snd (load file st)) = fs_ops st \<and> fs_idem (snd (load file st)) = fs_idem st"
  using load_false [OF assms] by auto

text \<open>Whether a file is accepted, and what the loop reads from it, does not depend on the ownership.\<close>

lemma load_frame_reads: "fst (load_frame k p ls own) = fst (load_frame k p ls own')"
  by (simp add: load_frame_def Let_def split: option.split prod.split)

lemma load_loop_reads: "fst (load_loop data off ls own) = fst (load_loop data off ls own')"
proof (induction "length data - off" arbitrary: off ls own own' rule: less_induct)
  case less
  show ?case
  proof (cases "off < length data")
    case True
    show ?thesis
    proof (cases "decode_frame data off")
      case None
      then show ?thesis by (simp add: load_loop.simps)
    next
      case (Some x)
      obtain h "next" where x: "x = (h, next)" by fastforce
      have p: "length data - next < length data - off"
        using decode_frame_progress [OF Some [unfolded x]] by linarith
      obtain res a b where f: "load_frame (fh_kind h) (fh_payload h) ls own = (res, a)"
        "load_frame (fh_kind h) (fh_payload h) ls own' = (res, b)"
        using load_frame_reads [of "fh_kind h" "fh_payload h" ls own own'] by (metis prod.collapse)
      show ?thesis
        using less.hyps [OF p] True Some x f
        by (subst (1 2) load_loop.simps) (auto split: option.split)
    qed
  qed (simp add: load_loop.simps)
qed

text \<open>The ownership is unassigned after a successful load, although the snapshot holds it.\<close>

lemma load_forgets_ownership:
  assumes "fst (load file st)"
  shows "fs_ownership (snd (load file st)) = new_ownership"
proof -
  obtain ls newfails own where "load_inv ls" "new_failures (ls_frs ls) [] = Some newfails"
    "distinct (ls_opids ls)" and eq: "snd (load file st) = load_commit ls newfails (st\<lparr>fs_ownership := own\<rparr>)"
    by (rule load_true [OF assms])
  then show ?thesis by (simp add: eq load_commit_def store_clear_def)
qed

text \<open>
  C28: A load that succeeds leaves a well-formed store, whatever the file held: every failure record
  is filed under its own id and carries a valid authority, and no key occurs twice. Whether it
  succeeds, and the failures, operations and idempotency entries it leaves, depend on the file
  alone: nothing of the store before it remains.
\<close>

theorem successful_load_wellformed:
  assumes "fst (load file st)"
  shows "store_inv (snd (load file st)) \<and>
    fst (load file st') \<and> fs_failures (snd (load file st')) = fs_failures (snd (load file st)) \<and>
    fs_ops (snd (load file st')) = fs_ops (snd (load file st)) \<and>
    fs_idem (snd (load file st')) = fs_idem (snd (load file st))"
proof -
  obtain ls newfails own where "load_inv ls" "new_failures (ls_frs ls) [] = Some newfails"
    "distinct (ls_opids ls)" and eq: "snd (load file st) = load_commit ls newfails (st\<lparr>fs_ownership := own\<rparr>)"
    by (rule load_true [OF assms])
  then have "store_inv (snd (load file st))" by (simp add: commit_inv)
  moreover have "fst (load file st') \<and> fs_failures (snd (load file st')) = fs_failures (snd (load file st)) \<and>
    fs_ops (snd (load file st')) = fs_ops (snd (load file st)) \<and>
    fs_idem (snd (load file st')) = fs_idem (snd (load file st))"
    using assms load_loop_reads [of _ 0 load_start "fs_ownership st'" "fs_ownership st"]
    by (auto simp: load_def Let_def case_prod_beta load_commit_def store_clear_def reg_clear_def idem_clear_def
        split: option.splits if_splits)
  ultimately show ?thesis by blast
qed

theorem successful_load_wellformed_witness:
  "store_inv (snd (load (Some (save sample_store)) new_store)) \<and>
   fst (load (Some (save sample_store)) sample_store)"
  using successful_load_wellformed [of "Some (save sample_store)" new_store sample_store]
  by (simp add: load_saved [OF sample_store_ok])

text \<open>
  A load that fails can still hand over the recovery ownership: a snapshot whose header announces
  failure records that do not follow is rejected, but an unassigned store has by then adopted the
  owner the snapshot names.
\<close>

lemma failed_load_changes_ownership:
  assumes "ro_owner (fs_ownership st) = RecoveryOwner.NONE"
    and "ro_owner own \<noteq> RecoveryOwner.NONE" and "ro_generation own \<noteq> gen_zero"
    and "fs_failures big \<noteq> []" and "length (fs_failures big) < 2 ^ 32"
  shows "load (Some (encode_frame 0 (buffer (save_header big)) @
      encode_frame K_OWN (buffer (save_ownership own)))) st = (False, st\<lparr>fs_ownership := own\<rparr>)"
proof -
  let ?fs = "[(0, header_bytes big), (K_OWN, ownership_bytes own)]"
  have loop: "load_loop (encode_frame 0 (header_bytes big) @ encode_frame K_OWN (ownership_bytes own))
      0 load_start o' = run_frames ?fs load_start o'" for o'
    using load_loop_frames [of ?fs "[]" load_start o'] small_payloads by simp
  have "fst (run_state load_header (new_reader (header_bytes big))) =
      Some (word_of_nat (length (fs_failures big)), word_of_nat (reg_size (fs_ops big)),
        word_of_nat (idem_size (fs_idem big)))"
    using reads_all [OF reads_header [of big]] by simp
  moreover have "fst (run_state load_ownership (new_reader (ownership_bytes own))) =
      Some (ro_owner own, ro_generation own, ro_boot own)"
    using reads_all [OF reads_ownership [of own]] by simp
  moreover have "snd (adopt (ro_owner own) (ro_generation own) (ro_boot own) empty_envelope
      (fs_ownership st)) = own"
    using assms(1-3) by (simp add: adopt_def gen_is_unset_iff)
  moreover have "unat (word_of_nat (length (fs_failures big)) :: u32) \<noteq> 0"
    using assms(4,5) by (simp add: unsigned_of_nat take_bit_nat_eq_self)
  moreover have "ls_first load_start" "ls_frs load_start = []" by (simp_all add: load_start_def)
  ultimately show ?thesis
    by (simp add: load_def loop load_frame_read header_bytes_def [symmetric]
        ownership_bytes_def [symmetric])
qed

text \<open>
  The failure log is append-only: no sequence of appends, accepted or refused, changes or removes
  a record that is in it, and the store stays well formed.
\<close>

lemma failure_log_append_only:
  assumes "store_inv st" and "find_failure i st = Some r"
  shows "find_failure i (fold append_step recs st) = Some r \<and> store_inv (fold append_step recs st)"
  using log.run_rel [OF assms(1), of recs] log.run_inv [OF assms(1), of recs] assms(2)
  by (simp add: log_kept_def)

text \<open>
  A record is appended exactly when it has an id that is not in the log yet, names an operation
  and an attempt, and carries a valid authority; it can then be found, and the same id is refused
  from then on.
\<close>

lemma append_failure_exact:
  "(fst (append_failure rec st) \<longleftrightarrow>
      \<not> is_null (fr_failure_id rec) \<and> \<not> has_failure (fr_failure_id rec) st \<and>
      \<not> is_null (fr_operation rec) \<and> \<not> is_null (fr_attempt rec) \<and>
      validate_authority (fr_authority rec)) \<and>
   (if fst (append_failure rec st)
    then find_failure (fr_failure_id rec) (append_step rec st) = Some rec \<and>
         \<not> fst (append_failure (rec'\<lparr>fr_failure_id := fr_failure_id rec\<rparr>) (append_step rec st))
    else append_step rec st = st)"
  by (auto simp: append_failure_def append_step_def has_failure_def find_failure_def)

end
