(* ===== verification/FF_Protocol.thy ===== *)
theory FF_Protocol
  imports FF_Persistence
begin

text \<open>
  The wire protocol (\<open>include/failure_fabric/protocol.hpp\<close>, \<open>src/protocol.cpp\<close>): messages, their
  encoding, and the framing over a TCP socket. The socket calls \<open>send\<close> and \<open>recv\<close> belong to the
  operating system and are parameters: functions on a socket state that return how much was sent,
  or the bytes that arrived (none for a closed connection or an error). What the code relies on of
  them are the locales \<open>byte_sink\<close>, \<open>byte_source\<close> and \<open>closing_source\<close>.
\<close>

subsection \<open>Messages\<close>

record WireMessage =
  wm_type :: ProtocolMessage
  wm_op :: OperationId
  wm_attempt :: AttemptId
  wm_worker :: WorkerId
  wm_boot :: WorkerBootId
  wm_authority :: AuthorityEnvelope
  wm_flag :: bool
  wm_text :: string
  wm_seq :: u64

definition default_message :: WireMessage where
  "default_message = \<lparr>wm_type = ProtocolMessage.HEARTBEAT, wm_op = null_id, wm_attempt = null_id,
     wm_worker = null_id, wm_boot = null_id, wm_authority = empty_envelope, wm_flag = False,
     wm_text = [], wm_seq = 0\<rparr>"

definition write_wire :: "WireMessage \<Rightarrow> unit writer" where
  "write_wire m = do {
     w_enumv (enum_u32 ProtocolMessage_vals (wm_type m));
     w_uuid (raw (wm_op m)); w_uuid (raw (wm_attempt m)); w_uuid (raw (wm_worker m));
     w_uuid (raw (wm_boot m));
     w_generation (ae_coordinator_epoch (wm_authority m));
     w_uuid (raw (ae_worker_boot (wm_authority m)));
     w_uuid (raw (ae_attempt (wm_authority m)));
     w_uuid (raw (ae_dispatch (wm_authority m)));
     w_generation (ae_attempt_generation (wm_authority m));
     w_generation (ae_operation_generation (wm_authority m));
     w_generation (ae_failure_generation (wm_authority m));
     w_generation (ae_recovery_generation (wm_authority m));
     w_u8 (if wm_flag m then 1 else 0);
     w_str16 (wm_text m);
     w_u64 (wm_seq m) }"

definition encode_wire :: "WireMessage \<Rightarrow> byte list" where
  "encode_wire m = buffer (write_wire m)"

definition read_wire :: "WireMessage option reader" where
  "read_wire = do {
     r_enum_below 16 (\<lambda>t. do {
     op \<leftarrow> r_id; attempt \<leftarrow> r_id; worker \<leftarrow> r_id; boot \<leftarrow> r_id;
     coordinator_epoch \<leftarrow> r_generation; worker_boot \<leftarrow> r_id; auth_attempt \<leftarrow> r_id;
     auth_dispatch \<leftarrow> r_id; attempt_generation \<leftarrow> r_generation;
     operation_generation \<leftarrow> r_generation; failure_generation \<leftarrow> r_generation;
     recovery_generation \<leftarrow> r_generation;
     flag \<leftarrow> r_u8;
     text \<leftarrow> r_str16;
     seq \<leftarrow> r_u64;
     ok \<leftarrow> r_ok;
     State_Monad.return (if \<not> ok then None
       else Some \<lparr>wm_type = enum_at ProtocolMessage_vals t, wm_op = op, wm_attempt = attempt,
         wm_worker = worker, wm_boot = boot,
         wm_authority = \<lparr>ae_coordinator_epoch = coordinator_epoch, ae_worker_boot = worker_boot,
             ae_attempt = auth_attempt, ae_attempt_generation = attempt_generation,
             ae_dispatch = auth_dispatch, ae_operation_generation = operation_generation,
             ae_failure_generation = failure_generation,
             ae_recovery_generation = recovery_generation\<rparr>,
         wm_flag = (flag \<noteq> 0), wm_text = text, wm_seq = seq\<rparr>) }) }"

definition decode_wire :: "byte list \<Rightarrow> WireMessage option" where
  "decode_wire data = fst (run_state read_wire (new_reader data))"

subsection \<open>Framing over a socket\<close>

definition INT_MAX :: nat where "INT_MAX = 2147483647"

text \<open>A system call with a buffer of \<open>n\<close> bytes asks for at most \<open>INT_MAX\<close> of them.\<close>

definition request :: "nat \<Rightarrow> nat" where
  "request n = (if n > INT_MAX then INT_MAX else n)"

type_synonym 's sys_send = "byte list \<Rightarrow> 's \<Rightarrow> nat \<times> 's"
type_synonym 's sys_recv = "nat \<Rightarrow> 's \<Rightarrow> byte list \<times> 's"

function send_all :: "'s sys_send \<Rightarrow> byte list \<Rightarrow> 's \<Rightarrow> bool \<times> 's" where
  "send_all sys_send p s =
     (if length p > 0
      then let (sent, s') = sys_send (take (request (length p)) p) s in
        if sent = 0 then (False, s') else send_all sys_send (drop sent p) s'
      else (True, s))"
  by auto

termination send_all
  by (relation "measure (\<lambda>(sys_send, p, s). length p)") auto

function recv_all :: "'s sys_recv \<Rightarrow> nat \<Rightarrow> 's \<Rightarrow> byte list option \<times> 's" where
  "recv_all sys_recv n s =
     (if n > 0
      then let (got, s') = sys_recv (request n) s in
        if got = [] then (None, s')
        else let (rest, s'') = recv_all sys_recv (n - length got) s' in (map_option ((@) got) rest, s'')
      else (Some [], s))"
  by auto

termination recv_all
  by (relation "measure (\<lambda>(sys_recv, n, s). n)") auto

declare send_all.simps [simp del] recv_all.simps [simp del]

definition INVALID_SOCKET :: u64 where "INVALID_SOCKET = - 1"

definition send_frame :: "'s sys_send \<Rightarrow> u64 \<Rightarrow> WireMessage \<Rightarrow> 's \<Rightarrow> bool \<times> 's" where
  "send_frame sys_send h m s =
     (if h = INVALID_SOCKET then (False, s)
      else let payload = encode_wire m;
               frame = encode_frame (ucast (enum_u32 ProtocolMessage_vals (wm_type m))) payload
           in send_all sys_send frame s)"

definition recv_frame :: "'s sys_recv \<Rightarrow> 's \<Rightarrow> WireMessage option \<times> 's" where
  "recv_frame sys_recv s =
     (case recv_all sys_recv 11 s of
        (None, s) \<Rightarrow> (None, s)
      | (Some hdr, s) \<Rightarrow>
          let (magic, hr) = run_state r_u32 (new_reader hdr) in
          if magic \<noteq> kFFMagic then (None, s)
          else let (ver, hr) = run_state r_u16 hr in
          if ver \<noteq> kFFVersion then (None, s)
          else let (kind, hr) = run_state r_u8 hr; (len, hr) = run_state r_u32 hr in
          if \<not> br_ok hr then (None, s)
          else if len > 32 * 1024 * 1024 then (None, s)
          else case recv_all sys_recv (unat (len + 8)) s of
              (None, s) \<Rightarrow> (None, s)
            | (Some body, s) \<Rightarrow>
                (case decode_frame (hdr @ body) 0 of None \<Rightarrow> (None, s)
                 | Some (fh, next) \<Rightarrow> (decode_wire (fh_payload fh), s)))"

text \<open>A series of messages, sent until the first failure, and received one after the other.\<close>

fun send_many :: "'s sys_send \<Rightarrow> u64 \<Rightarrow> WireMessage list \<Rightarrow> 's \<Rightarrow> bool \<times> 's" where
  "send_many sys_send h [] s = (True, s)"
| "send_many sys_send h (m # ms) s =
     (let (ok, s') = send_frame sys_send h m s
      in if ok then send_many sys_send h ms s' else (False, s'))"

fun recv_many :: "'s sys_recv \<Rightarrow> nat \<Rightarrow> 's \<Rightarrow> WireMessage option list \<times> 's" where
  "recv_many sys_recv 0 s = ([], s)"
| "recv_many sys_recv (Suc n) s =
     (let (m, s') = recv_frame sys_recv s; (ms, s'') = recv_many sys_recv n s' in (m # ms, s''))"

subsection \<open>The wire codec\<close>

definition wire_sendable :: "WireMessage \<Rightarrow> bool" where
  "wire_sendable m \<longleftrightarrow> length (wm_text m) \<le> 0xFFFF"

lemma reads_wire:
  assumes "wire_sendable m"
  shows "reads read_wire (encode_wire m) (Some m)"
proof -
  have t: "length (wm_text m) \<le> 0xFFFF" using assms by (simp add: wire_sendable_def)
  have lim: "enum_u32 ProtocolMessage_vals (wm_type m) < 16"
    using ProtocolMessage.u32_less [of "wm_type m"] by (simp add: word_less_nat_alt)
  have "\<exists>bs. writes (write_wire m) bs \<and> reads read_wire bs (Some m)"
    unfolding write_wire_def read_wire_def
    apply (intro exI conjI)
     apply (rule writer_rules)+
    apply (rule reads_last [OF reads_words(3)] reader_rules reads_bind [OF reads_str16 [OF t]])+
     apply (simp_all add: envelope_eta lim)
    done
  then show ?thesis by (auto simp: encode_wire_def buffer_writes)
qed

lemma decode_encode_wire: "wire_sendable m \<Longrightarrow> decode_wire (encode_wire m) = Some m"
  using reads_all [OF reads_wire] by (simp add: decode_wire_def)

lemma encode_wire_small: "length (encode_wire m) \<le> 65800"
proof -
  have "writes_within (write_wire m) (4 + (16 + (16 + (16 + (16 + (8 + (16 + (16 + (16 + (8 + (8 + (8 + (8 +
      (1 + (65537 + 8)))))))))))))))"
    unfolding write_wire_def by (rule within_bind within_basic)+
  then show ?thesis by (auto simp: encode_wire_def writes_within_def buffer_writes)
qed

definition wire_frame :: "WireMessage \<Rightarrow> byte list" where
  "wire_frame m = encode_frame (ucast (enum_u32 ProtocolMessage_vals (wm_type m))) (encode_wire m)"

subsection \<open>The contract of the system calls\<close>

text \<open>
  Sending: a call takes a prefix of the buffer, possibly shorter than asked and empty only when it
  fails, and puts it on the wire in order. \<open>sent\<close> is what the socket state has put on the wire.
\<close>

locale byte_sink =
  fixes sys_send :: "'s sys_send"
    and sent :: "'s \<Rightarrow> byte list"
  assumes sends_prefix: "bs \<noteq> [] \<Longrightarrow> sys_send bs s = (n, s') \<Longrightarrow>
      n \<le> length bs \<and> sent s' = sent s @ take n bs"
begin

lemma send_all_prefix:
  "send_all sys_send p s = (ok, s') \<Longrightarrow>
    \<exists>k \<le> length p. sent s' = sent s @ take k p \<and> (ok \<longrightarrow> k = length p)"
proof (induction "length p" arbitrary: p s rule: less_induct)
  case less
  show ?case
  proof (cases "p = []")
    case True
    then show ?thesis using less.prems by (auto simp: send_all.simps)
  next
    case False
    let ?q = "take (request (length p)) p"
    obtain n s1 where snd1: "sys_send ?q s = (n, s1)" by fastforce
    have "?q \<noteq> []" using False by (auto simp: request_def INT_MAX_def)
    from sends_prefix [OF this snd1]
    have "n \<le> length p" "n \<le> request (length p)" "sent s1 = sent s @ take n ?q" by simp_all
    then have n: "n \<le> length p" "sent s1 = sent s @ take n p" by (simp_all add: min_absorb1)
    show ?thesis
    proof (cases "n = 0")
      case True
      then show ?thesis using less.prems False snd1 n by (subst (asm) send_all.simps) auto
    next
      case nz: False
      then have rest: "send_all sys_send (drop n p) s1 = (ok, s')"
        using less.prems False snd1 by (subst (asm) send_all.simps) simp
      have "length (drop n p) < length p" using nz False by simp
      from less.hyps [OF this rest]
      obtain k where k: "k \<le> length (drop n p)" "sent s' = sent s1 @ take k (drop n p)"
        "ok \<longrightarrow> k = length (drop n p)" by blast
      then have "sent s' = sent s @ take (n + k) p" using n(2) by (simp add: take_add)
      then show ?thesis using k(1,3) n(1) by (intro exI [of _ "n + k"]) auto
    qed
  qed
qed

lemma send_all_complete: "send_all sys_send p s = (True, s') \<Longrightarrow> sent s' = sent s @ p"
  using send_all_prefix by fastforce

lemma send_frame_sent:
  "send_frame sys_send h m s = (True, s') \<Longrightarrow> sent s' = sent s @ wire_frame m"
  by (auto simp: send_frame_def wire_frame_def Let_def send_all_complete split: if_splits)

end

text \<open>
  Receiving: while bytes are still to arrive, a call returns some of them, at least one and at most
  as many as asked, in order. \<open>arriving\<close> is what the socket state will still deliver.
\<close>

locale byte_source =
  fixes sys_recv :: "'s sys_recv"
    and arriving :: "'s \<Rightarrow> byte list"
  assumes delivers_prefix: "arriving s \<noteq> [] \<Longrightarrow> 0 < n \<Longrightarrow> sys_recv n s = (got, s') \<Longrightarrow>
      got \<noteq> [] \<and> length got \<le> n \<and> arriving s = got @ arriving s'"
begin

lemma recv_all_exact:
  "n \<le> length (arriving s) \<Longrightarrow>
    \<exists>s'. recv_all sys_recv n s = (Some (take n (arriving s)), s') \<and> arriving s' = drop n (arriving s)"
proof (induction n arbitrary: s rule: less_induct)
  case (less n)
  show ?case
  proof (cases "n = 0")
    case True
    then show ?thesis by (simp add: recv_all.simps)
  next
    case False
    obtain got s1 where r: "sys_recv (request n) s = (got, s1)" by fastforce
    have q: "0 < request n" "request n \<le> n" using False by (auto simp: request_def INT_MAX_def)
    have "arriving s \<noteq> []" using less.prems False by auto
    from delivers_prefix [OF this q(1) r] q(2)
    have got: "got \<noteq> []" "length got \<le> n" "arriving s = got @ arriving s1" by auto
    then have m: "n - length got < n" "n - length got \<le> length (arriving s1)"
      using False less.prems by auto
    from less.IH [OF m]
    obtain s' where s': "recv_all sys_recv (n - length got) s1 = (Some (take (n - length got) (arriving s1)), s')"
      "arriving s' = drop (n - length got) (arriving s1)" by blast
    have "recv_all sys_recv n s = (Some (got @ take (n - length got) (arriving s1)), s')"
      using False r got(1) s'(1) by (subst recv_all.simps) simp
    then show ?thesis using s'(2) got by simp
  qed
qed

lemma recv_frame_message:
  assumes "wire_sendable m" and "arriving s = wire_frame m @ rest"
  shows "\<exists>s'. recv_frame sys_recv s = (Some m, s') \<and> arriving s' = rest"
proof -
  define k where "k = (ucast (enum_u32 ProtocolMessage_vals (wm_type m)) :: byte)"
  define p where "p = encode_wire m"
  let ?f = "encode_frame k p"
  have f: "arriving s = ?f @ rest" using assms(2) by (simp add: wire_frame_def k_def p_def)
  have lp: "length p \<le> 65800" by (simp add: p_def encode_wire_small)
  then have small: "length p < 2 ^ 32" by simp
  have n: "unat (word_of_nat (length p) :: u32) = length p"
    using small by (simp add: unsigned_of_nat take_bit_nat_eq_self)
  have n8: "unat ((word_of_nat (length p) :: u32) + 8) = length p + 8"
    using lp n by (simp add: unat_word_ariths(1))
  have lim: "\<not> (word_of_nat (length p) :: u32) > 32 * 1024 * 1024"
    using lp n by (simp add: word_less_nat_alt)
  obtain s1 where h: "recv_all sys_recv 11 s = (Some (take 11 ?f), s1)" "arriving s1 = drop 11 ?f @ rest"
    using recv_all_exact [of 11 s] f by auto
  obtain s2 where b: "recv_all sys_recv (length p + 8) s1 = (Some (drop 11 ?f), s2)" "arriving s2 = rest"
    using recv_all_exact [of "length p + 8" s1] h(2) by auto
  have 1: "run_state r_u32 (new_reader (take 11 ?f)) = (kFFMagic, at_input (take 4 ?f) (take 7 (drop 4 ?f)))"
    using run_fixed_at(3) [of "take 11 ?f" "[]"] frame_fields(1) [of k p "[]"]
    by (simp add: new_reader_at get_be32_def min_def drop_take)
  have 2: "run_state r_u16 (at_input (take 4 ?f) (take 7 (drop 4 ?f))) =
      (kFFVersion, at_input (take 6 ?f) (take 5 (drop 6 ?f)))"
    using run_fixed_at(2) [of "take 7 (drop 4 ?f)" "take 4 ?f"] frame_fields(2) [of k p "[]"]
    by (simp add: get_be16_def min_def drop_take take_add [of 4 2, simplified])
  have 3: "run_state r_u8 (at_input (take 6 ?f) (take 5 (drop 6 ?f))) =
      (k, at_input (take 7 ?f) (take 4 (drop 7 ?f)))"
    using run_fixed_at(1) [of "take 5 (drop 6 ?f)" "take 6 ?f"] frame_fields(3) [of k p "[]"]
    by (simp add: min_def drop_take take_add [of 6 1, simplified])
  have 4: "run_state r_u32 (at_input (take 7 ?f) (take 4 (drop 7 ?f))) =
      (word_of_nat (length p), at_input (take 11 ?f) [])"
    using run_fixed_at(3) [of "take 4 (drop 7 ?f)" "take 7 ?f"] frame_fields(4) [of k p "[]"]
    by (simp add: get_be32_def min_def take_add [of 7 4, simplified])
  have d: "decode_frame ?f 0 = Some (\<lparr>fh_kind = k, fh_payload = p, fh_checksum = fnv1a64 (frame_body k p)\<rparr>,
      length ?f)"
    using decode_encode_frame [OF small, of "[]" k "[]"] by simp
  show ?thesis
    using h(1) b decode_encode_wire [OF assms(1)]
    by (simp add: recv_frame_def 1 2 3 4 lim [simplified] n8 d p_def [symmetric])
qed

lemma recv_many_messages:
  "list_all wire_sendable ms \<Longrightarrow> arriving s = concat (map wire_frame ms) @ rest \<Longrightarrow>
    \<exists>s'. recv_many sys_recv (length ms) s = (map Some ms, s') \<and> arriving s' = rest"
proof (induction ms arbitrary: s)
  case (Cons m ms)
  then obtain s1 where s1: "recv_frame sys_recv s = (Some m, s1)"
    "arriving s1 = concat (map wire_frame ms) @ rest"
    using recv_frame_message [of m s "concat (map wire_frame ms) @ rest"] by auto
  then show ?case using Cons.IH [of s1] Cons.prems(1) by auto
qed simp

end

text \<open>A stream that ends: once everything has arrived, a call returns nothing.\<close>

locale closing_source = byte_source +
  assumes at_end: "arriving s = [] \<Longrightarrow> fst (sys_recv n s) = []"
begin

lemma recv_all_takes:
  "recv_all sys_recv n s = (Some bs, s') \<Longrightarrow> arriving s = bs @ arriving s' \<and> length bs = n"
proof (induction n arbitrary: s bs rule: less_induct)
  case (less n)
  show ?case
  proof (cases "n = 0")
    case True
    then show ?thesis using less.prems by (simp add: recv_all.simps)
  next
    case False
    obtain got s1 where r: "sys_recv (request n) s = (got, s1)" by fastforce
    have q: "0 < request n" "request n \<le> n" using False by (auto simp: request_def INT_MAX_def)
    have "got \<noteq> []" using less.prems False r by (subst (asm) recv_all.simps) auto
    then have "arriving s \<noteq> []" using at_end [of s "request n"] r by auto
    from delivers_prefix [OF this q(1) r] q(2)
    have got: "got \<noteq> []" "length got \<le> n" "arriving s = got @ arriving s1" by auto
    obtain bs' where bs': "recv_all sys_recv (n - length got) s1 = (Some bs', s')" "bs = got @ bs'"
      using less.prems False r got(1)
      by (subst (asm) recv_all.simps) (auto split: prod.splits)
    have "n - length got < n" using False got(1) by simp
    from less.IH [OF this bs'(1)] show ?thesis using got bs'(2) by auto
  qed
qed

text \<open>A message received has taken its bytes from the stream.\<close>

lemma recv_frame_consumes:
  assumes "recv_frame sys_recv s = (Some m, s')"
  shows "length (arriving s') < length (arriving s)"
proof -
  obtain hdr s1 where h: "recv_all sys_recv 11 s = (Some hdr, s1)"
    using assms by (auto simp: recv_frame_def split: prod.splits option.splits)
  obtain n body where b: "recv_all sys_recv n s1 = (Some body, s')"
    using assms h by (auto simp: recv_frame_def Let_def split: prod.splits option.splits if_splits)
  show ?thesis using recv_all_takes [OF h] recv_all_takes [OF b] by auto
qed

end

subsection \<open>A socket that cuts the stream into segments\<close>

text \<open>
  An instance of both contracts: every call moves as many bytes as the next number of a schedule
  says, at least one, so that frames are torn apart in an arbitrary way.
\<close>

record seg_socket =
  seg_in :: "byte list"
  seg_out :: "byte list"
  seg_schedule :: "nat list"

definition seg_amount :: "nat \<Rightarrow> seg_socket \<Rightarrow> nat" where
  "seg_amount n s = (case seg_schedule s of [] \<Rightarrow> n | c # cs \<Rightarrow> min n (Suc c))"

definition seg_send :: "seg_socket sys_send" where
  "seg_send bs s =
     (let k = seg_amount (length bs) s
      in (k, s\<lparr>seg_out := seg_out s @ take k bs, seg_schedule := tl (seg_schedule s)\<rparr>))"

definition seg_recv :: "seg_socket sys_recv" where
  "seg_recv n s =
     (let k = seg_amount n s
      in (take k (seg_in s), s\<lparr>seg_in := drop k (seg_in s), seg_schedule := tl (seg_schedule s)\<rparr>))"

lemma seg_amount_le: "seg_amount n s \<le> n" "seg_amount n s = 0 \<longleftrightarrow> n = 0"
  by (auto simp: seg_amount_def min_def split: list.split)

interpretation seg_sink: byte_sink seg_send seg_out
  by unfold_locales (auto simp: seg_send_def Let_def seg_amount_le)

interpretation seg_source: closing_source seg_recv seg_in
  by unfold_locales
    (auto simp: seg_recv_def Let_def min_le_iff_disj seg_amount_le)

subsection \<open>Properties\<close>

text \<open>
  C11: Messages arrive complete and in order: if sending a series of messages over a socket succeeds
  and the other end receives what was sent, then the same number of receives returns exactly these
  messages in this order and leaves nothing behind, however the system calls split the stream.
\<close>

theorem messages_arrive_in_order:
  assumes "byte_sink sys_send sent" and "byte_source sys_recv arriving"
    and "list_all wire_sendable ms"
    and "send_many sys_send h ms s = (True, s')" and "sent s = []" and "arriving r = sent s'"
  shows "\<exists>r'. recv_many sys_recv (length ms) r = (map Some ms, r') \<and> arriving r' = []"
proof -
  have "send_many sys_send h ms s = (True, s') \<Longrightarrow> sent s' = sent s @ concat (map wire_frame ms)" for s
  proof (induction ms arbitrary: s)
    case (Cons m ms)
    then show ?case
      using byte_sink.send_frame_sent [OF assms(1)]
      by (auto split: prod.splits if_splits)
  qed simp
  then have "arriving r = concat (map wire_frame ms) @ []" using assms(4-6) by simp
  from byte_source.recv_many_messages [OF assms(2,3) this] show ?thesis .
qed

theorem messages_arrive_in_order_witness:
  "\<exists>r'. recv_many seg_recv (length [default_message, default_message\<lparr>wm_text := ''ok''\<rparr>])
      \<lparr>seg_in = seg_out (snd (send_many seg_send 5 [default_message, default_message\<lparr>wm_text := ''ok''\<rparr>]
          \<lparr>seg_in = [], seg_out = [], seg_schedule = []\<rparr>)),
        seg_out = [], seg_schedule = [3, 0, 7]\<rparr> =
      (map Some [default_message, default_message\<lparr>wm_text := ''ok''\<rparr>], r') \<and> seg_in r' = []"
proof (rule messages_arrive_in_order)
  let ?ms = "[default_message, default_message\<lparr>wm_text := ''ok''\<rparr>]"
  let ?s = "\<lparr>seg_in = [], seg_out = [], seg_schedule = []\<rparr>"
  have all: "send_all seg_send p s = (True, s\<lparr>seg_out := seg_out s @ p\<rparr>)"
    if "seg_schedule s = []" "length p \<le> INT_MAX" for p s
    using that
    by (subst send_all.simps, subst send_all.simps)
      (auto simp: seg_send_def seg_amount_def request_def)
  have "length (wire_frame m) \<le> INT_MAX" for m
    using encode_wire_small [of m] by (simp add: wire_frame_def INT_MAX_def)
  then have frame: "send_frame seg_send 5 m s = (True, s\<lparr>seg_out := seg_out s @ wire_frame m\<rparr>)"
    if "seg_schedule s = []" for m s
    using all [OF that] by (simp add: send_frame_def INVALID_SOCKET_def wire_frame_def)
  show "send_many seg_send 5 ?ms ?s = (True, snd (send_many seg_send 5 ?ms ?s))"
    by (simp add: frame)
  show "list_all wire_sendable ?ms" by (simp add: wire_sendable_def default_message_def)
qed (simp_all add: seg_sink.byte_sink_axioms seg_source.byte_source_axioms)

end
