(* ===== verification/FF_Coordinator.thy ===== *)
theory FF_Coordinator
  imports FF_Store FF_Protocol
begin

text \<open>
  The coordinator and worker processes (\<open>src/coordinator.cpp\<close>,
  \<open>src/worker.cpp\<close>) as message handlers. The globals of the coordinator are a record;
  connections are numbered, and the messages sent on them and the last snapshot written are part of the
  state. A handler is one step here; the interleaving of the threads inside handlers is the subject of
  \<open>FF_Threads\<close>. Parameters are the random engine (\<open>draw\<close>), the clock, and the
  entry an \<open>unordered_map\<close> of workers lists first (\<open>pick\<close>), which the language
  leaves open.
\<close>

subsection \<open>State\<close>

type_synonym ConnId = nat

record Conn =
  cn_worker :: bool
  cn_wid :: WorkerId
  cn_boot :: WorkerBootId
  cn_running_op :: bool

definition new_conn :: Conn where
  "new_conn = \<lparr>cn_worker = False, cn_wid = null_id, cn_boot = null_id, cn_running_op = False\<rparr>"

record 'g Coord =
  co_store :: FailureStore
  co_workers :: "(WorkerId, ConnId) umap"
  co_reg_order :: "ConnId list"
  co_running :: "ConnId option"
  co_current_op :: OperationId
  co_finished :: bool
  co_conns :: "ConnId \<Rightarrow> Conn"
  co_sent :: "(ConnId \<times> WireMessage) list"
  co_saved :: "byte list option"
  co_disk :: "nat \<Rightarrow> DiskWrite"
  co_saves :: nat
  co_rng :: 'g

definition co_start :: "FailureStore \<Rightarrow> 'g \<Rightarrow> 'g Coord" where
  "co_start st g = \<lparr>co_store = st, co_workers = [], co_reg_order = [], co_running = None,
     co_current_op = null_id, co_finished = False, co_conns = (\<lambda>_. new_conn), co_sent = [],
     co_saved = None, co_disk = (\<lambda>_. Written), co_saves = 0, co_rng = g\<rparr>"

text \<open>
  \<open>co_sent\<close> lists the messages handed to \<open>send\<close>, whose result the code ignores. \<open>co_saved\<close> is the state
  file, \<open>co_saves\<close> the number of times it was written, and \<open>co_disk\<close> what becomes of each writing; it
  never changes, and a state with another disk is written \<open>c\<lparr>co_disk := disk\<rparr>\<close>.
\<close>

text \<open>\<open>main\<close>: the state file is loaded, as far as it can be, before the first connection.\<close>

definition co_boot :: "byte list option \<Rightarrow> 'g \<Rightarrow> 'g Coord" where
  "co_boot statefile g = (co_start (snd (load statefile new_store)) g)\<lparr>co_saved := statefile\<rparr>"

definition send_msg :: "ConnId \<Rightarrow> WireMessage \<Rightarrow> 'g Coord \<Rightarrow> 'g Coord" where
  "send_msg cn m c = c\<lparr>co_sent := co_sent c @ [(cn, m)]\<rparr>"

text \<open>The result of \<open>save\<close> is ignored.\<close>

definition save_state :: "'g Coord \<Rightarrow> 'g Coord" where
  "save_state c =
     (let (ok, file) = save_file (co_disk c (co_saves c)) (co_store c) (co_saved c)
      in c\<lparr>co_saved := file, co_saves := Suc (co_saves c)\<rparr>)"

text \<open>A registry call of the coordinator: its result and the state with the registry it leaves.\<close>

definition co_reg ::
  "(OperationRegistry \<Rightarrow> ApplyResult \<times> OperationRegistry) \<Rightarrow> 'g Coord \<Rightarrow> ApplyResult \<times> 'g Coord" where
  "co_reg call c =
     (let (res, ops) = call (fs_ops (co_store c))
      in (res, c\<lparr>co_store := (co_store c)\<lparr>fs_ops := ops\<rparr>\<rparr>))"

definition fresh_id :: "('g \<Rightarrow> u64 \<times> 'g) \<Rightarrow> 'g Coord \<Rightarrow> 'tag Id \<times> 'g Coord" where
  "fresh_id draw c = (let (i, g) = Id_generate draw (co_rng c) in (i, c\<lparr>co_rng := g\<rparr>))"

definition new_attempt ::
  "('g \<Rightarrow> u64 \<times> 'g) \<Rightarrow> AuthorityEnvelope \<Rightarrow> 'g Coord \<Rightarrow> AuthorityEnvelope \<times> 'g Coord" where
  "new_attempt draw fresh c =
     (let (att, c) = fresh_id draw c
      in (fresh\<lparr>ae_attempt := att,
            ae_attempt_generation := gen_next (ae_attempt_generation fresh),
            ae_operation_generation := gen_next (ae_operation_generation fresh),
            ae_failure_generation := gen_next (ae_failure_generation fresh),
            ae_recovery_generation := gen_next (ae_recovery_generation fresh)\<rparr>, c))"

definition dispatch_to :: "ConnId \<Rightarrow> OperationId \<Rightarrow> AuthorityEnvelope \<Rightarrow> 'g Coord \<Rightarrow> 'g Coord" where
  "dispatch_to cn op authority c =
     (let run = default_message\<lparr>wm_type := ProtocolMessage.DISPATCH, wm_op := op,
            wm_attempt := ae_attempt authority, wm_authority := authority,
            wm_worker := cn_wid (co_conns c cn)\<rparr>;
          c = send_msg cn run c
      in c\<lparr>co_conns := (co_conns c)(cn := (co_conns c cn)\<lparr>cn_running_op := True\<rparr>),
           co_running := Some cn, co_current_op := op\<rparr>)"

subsection \<open>Messages\<close>

definition on_register :: "('g \<Rightarrow> u64 \<times> 'g) \<Rightarrow> ConnId \<Rightarrow> WireMessage \<Rightarrow> 'g Coord \<Rightarrow> 'g Coord" where
  "on_register draw cn m c =
     (let (wid, c) = (if is_null (wm_worker m) then fresh_id draw c else (wm_worker m, c));
          c = c\<lparr>co_conns := (co_conns c)(cn := (co_conns c cn)\<lparr>cn_worker := True, cn_wid := wid,
                  cn_boot := wm_boot m\<rparr>),
                co_workers := um_assign wid cn (co_workers c),
                co_reg_order := co_reg_order c @ [cn]\<rparr>
      in send_msg cn (default_message\<lparr>wm_type := ProtocolMessage.REGISTER_ACK, wm_worker := wid\<rparr>) c)"

definition on_dispatch ::
  "('g \<Rightarrow> u64 \<times> 'g) \<Rightarrow> ((WorkerId, ConnId) umap \<Rightarrow> ConnId) \<Rightarrow> WireMessage \<Rightarrow> 'g Coord \<Rightarrow> 'g Coord" where
  "on_dispatch draw pick m c =
     (let op = wm_op m;
          (att, c) = fresh_id draw c;
          auth = empty_envelope\<lparr>ae_coordinator_epoch := Generation 1, ae_attempt := att,
            ae_attempt_generation := Generation 1, ae_operation_generation := Generation 1,
            ae_worker_boot := (if co_workers c = [] then null_id
              else cn_boot (co_conns c (pick (co_workers c))))\<rparr>
      in if co_workers c = [] then c
         else let target = pick (co_workers c);
                  c = snd (co_reg (reg_create op auth) c);
                  c = snd (co_reg (reg_dispatch op auth) c);
                  c = dispatch_to target op auth c
              in snd (co_reg (reg_run op auth) c))"

definition on_running :: "WireMessage \<Rightarrow> 'g Coord \<Rightarrow> 'g Coord" where
  "on_running m c = snd (co_reg (reg_run (wm_op m) (wm_authority m)) c)"

text \<open>
  A completion: the registry call, and the rest of the handler for its result. No lock of the
  coordinator is held over the two, so other threads may run in between.
\<close>

definition complete_report :: "WireMessage \<Rightarrow> 'g Coord \<Rightarrow> ApplyResult \<times> 'g Coord" where
  "complete_report m c = co_reg (reg_report_completion (wm_op m) (wm_authority m) False) c"

definition complete_reply :: "ConnId \<Rightarrow> WireMessage \<Rightarrow> ApplyResult \<Rightarrow> 'g Coord \<Rightarrow> 'g Coord" where
  "complete_reply cn m fr c =
     (if fr = ApplyResult.OK
      then let c = snd (co_reg (reg_confirm_completion (wm_op m) (wm_authority m)) c);
               c = send_msg cn (default_message\<lparr>wm_type := ProtocolMessage.ACK, wm_flag := True,
                     wm_op := wm_op m\<rparr>) c;
               c = c\<lparr>co_finished := True\<rparr>
           in save_state c
      else send_msg cn (default_message\<lparr>wm_type := ProtocolMessage.FENCE, wm_flag := False,
             wm_op := wm_op m, wm_text := ''stale completion rejected''\<rparr>) c)"

definition on_complete :: "ConnId \<Rightarrow> WireMessage \<Rightarrow> 'g Coord \<Rightarrow> 'g Coord" where
  "on_complete cn m c = (let (fr, c) = complete_report m c in complete_reply cn m fr c)"

definition on_failure :: "WireMessage \<Rightarrow> 'g Coord \<Rightarrow> 'g Coord" where
  "on_failure m c = snd (co_reg (reg_report_failure (wm_op m) (wm_authority m) (wm_flag m)) c)"

definition handle_message ::
  "('g \<Rightarrow> u64 \<times> 'g) \<Rightarrow> ((WorkerId, ConnId) umap \<Rightarrow> ConnId) \<Rightarrow> ConnId \<Rightarrow> WireMessage \<Rightarrow> 'g Coord \<Rightarrow> 'g Coord" where
  "handle_message draw pick cn m c =
     (case wm_type m of
        ProtocolMessage.REGISTER \<Rightarrow> on_register draw cn m c
      | ProtocolMessage.DISPATCH \<Rightarrow> on_dispatch draw pick m c
      | ProtocolMessage.RUNNING \<Rightarrow> on_running m c
      | ProtocolMessage.COMPLETE \<Rightarrow> on_complete cn m c
      | ProtocolMessage.FAILURE \<Rightarrow> on_failure m c
      | _ \<Rightarrow> c)"

subsection \<open>Loss of a worker\<close>

text \<open>The record of the lost attempt, as the builder makes it.\<close>

definition lost_record :: "OperationId \<Rightarrow> AuthorityEnvelope \<Rightarrow> u64 \<Rightarrow> FailureRecordBuilder" where
  "lost_record op cur now =
     b_timestamp now (b_authority cur (b_unknown_side_effects 1
       (b_side_effect_state SideEffectState.MAY_OCCURRED (b_completion Ambiguity.AMBIGUOUS
         (b_phase FailurePhase.ACK (b_origin FailureOrigin.WORKER
           (b_attempt (ae_attempt cur) (b_operation op
             (b_failure_class FailureClass.AMBIGUOUS new_builder)))))))))"

text \<open>The replacement: the first registered connection if it still is a worker, else any worker.\<close>

definition choose_replacement ::
  "((WorkerId, ConnId) umap \<Rightarrow> ConnId) \<Rightarrow> 'g Coord \<Rightarrow> ConnId option" where
  "choose_replacement pick c =
     (let replacement = (if co_workers c = [] then None
            else case co_reg_order c of [] \<Rightarrow> None | cn # _ \<Rightarrow> Some cn)
      in case replacement of None \<Rightarrow> None
         | Some cn \<Rightarrow>
             if \<not> um_count (cn_wid (co_conns c cn)) (co_workers c)
             then if co_workers c = [] then None else Some (pick (co_workers c))
             else Some cn)"

definition record_loss :: "('g \<Rightarrow> u64 \<times> 'g) \<Rightarrow> AuthorityEnvelope \<Rightarrow> u64 \<Rightarrow> 'g Coord \<Rightarrow> 'g Coord" where
  "record_loss draw cur now c =
     (let op = co_current_op c;
          (boot, c) = fresh_id draw c;
          c = c\<lparr>co_store := (co_store c)\<lparr>fs_ownership :=
                snd (transfer RecoveryOwner.REPLACEMENT_WORKER (gen_next (ae_recovery_generation cur))
                  boot cur (fs_ownership (co_store c)))\<rparr>\<rparr>;
          (rec, g) = build draw (lost_record op cur now) (co_rng c);
          c = c\<lparr>co_rng := g, co_store := snd (append_failure rec (co_store c))\<rparr>
      in snd (co_reg (reg_report_failure op cur True) c))"

definition redispatch ::
  "('g \<Rightarrow> u64 \<times> 'g) \<Rightarrow> ((WorkerId, ConnId) umap \<Rightarrow> ConnId) \<Rightarrow> AuthorityEnvelope \<Rightarrow> 'g Coord \<Rightarrow> 'g Coord" where
  "redispatch draw pick cur c =
     (let op = co_current_op c;
          (fresh, c) = new_attempt draw cur c;
          replacement = choose_replacement pick c;
          c = (case replacement of None \<Rightarrow> c | Some cn \<Rightarrow> snd (co_reg (reg_dispatch op fresh) c))
      in case replacement of None \<Rightarrow> c
         | Some cn \<Rightarrow>
             if \<not> is_terminal (reg_state op (fs_ops (co_store c)))
             then dispatch_to cn op fresh c else c)"

definition recover_operation ::
  "('g \<Rightarrow> u64 \<times> 'g) \<Rightarrow> ((WorkerId, ConnId) umap \<Rightarrow> ConnId) \<Rightarrow> u64 \<Rightarrow> 'g Coord \<Rightarrow> 'g Coord" where
  "recover_operation draw pick now c =
     (let cur = reg_current_authority (co_current_op c) (fs_ops (co_store c))
      in redispatch draw pick cur (record_loss draw cur now c))"

definition connection_lost ::
  "('g \<Rightarrow> u64 \<times> 'g) \<Rightarrow> ((WorkerId, ConnId) umap \<Rightarrow> ConnId) \<Rightarrow> ConnId \<Rightarrow> u64 \<Rightarrow> 'g Coord \<Rightarrow> 'g Coord" where
  "connection_lost draw pick cn now c =
     (let was_running = (co_running c = Some cn);
          c = (if was_running
               then c\<lparr>co_workers := um_erase (cn_wid (co_conns c cn)) (co_workers c),
                      co_running := None\<rparr>
               else c)
      in if was_running \<and> \<not> co_finished c then recover_operation draw pick now c else c)"

subsection \<open>The worker\<close>

text \<open>
  One received message of the worker's loop: the messages it sends, the marker line it appends to a
  file (its side effect) and whether the process ends. The marker names the attempt generation.
\<close>

record WorkerReply =
  wr_sends :: "WireMessage list"
  wr_marker :: "string option"
  wr_exit :: bool

definition worker_register :: "WorkerId \<Rightarrow> WorkerBootId \<Rightarrow> string \<Rightarrow> WireMessage" where
  "worker_register wid boot workdir =
     default_message\<lparr>wm_type := ProtocolMessage.REGISTER, wm_worker := wid, wm_boot := boot,
       wm_text := workdir\<rparr>"

definition worker_on :: "WireMessage \<Rightarrow> string \<Rightarrow> WireMessage \<Rightarrow> WorkerReply" where
  "worker_on reg mode m =
     (if wm_type m = ProtocolMessage.DISPATCH
      then let base = default_message\<lparr>wm_op := wm_op m, wm_attempt := wm_attempt m,
                 wm_worker := wm_worker reg, wm_boot := wm_boot reg, wm_authority := wm_authority m\<rparr>;
               run = base\<lparr>wm_type := ProtocolMessage.RUNNING\<rparr>;
               marker = ''worker_'' @ mode @ ''_attempt_'' @
                 show_word (gen_value (ae_attempt_generation (wm_authority m))) @ '' marker''
           in if mode = ''fail''
              then \<lparr>wr_sends = [run, base\<lparr>wm_type := ProtocolMessage.FAILURE, wm_flag := False,
                      wm_text := ''known no-side-effect failure''\<rparr>],
                    wr_marker = Some marker, wr_exit = True\<rparr>
              else \<lparr>wr_sends = [run, base\<lparr>wm_type := ProtocolMessage.COMPLETE,
                      wm_text := ''result=done''\<rparr>],
                    wr_marker = Some marker, wr_exit = True\<rparr>
      else if wm_type m = ProtocolMessage.SHUTDOWN
      then \<lparr>wr_sends = [], wr_marker = None, wr_exit = True\<rparr>
      else \<lparr>wr_sends = [], wr_marker = None, wr_exit = False\<rparr>)"

subsection \<open>Runs\<close>

text \<open>What the threads of the coordinator react to: a message read, or a connection that ended.\<close>

datatype co_event = Message ConnId WireMessage | Lost ConnId u64

fun co_step ::
  "('g \<Rightarrow> u64 \<times> 'g) \<Rightarrow> ((WorkerId, ConnId) umap \<Rightarrow> ConnId) \<Rightarrow> co_event \<Rightarrow> 'g Coord \<Rightarrow> 'g Coord" where
  "co_step draw pick (Message cn m) c = handle_message draw pick cn m c"
| "co_step draw pick (Lost cn now) c = connection_lost draw pick cn now c"

abbreviation co_ops :: "'g Coord \<Rightarrow> OperationRegistry" where
  "co_ops c \<equiv> fs_ops (co_store c)"

lemmas complete_defs = on_complete_def complete_report_def complete_reply_def

subsection \<open>What each helper leaves alone\<close>

lemma send_msg_simps [simp]:
  "co_store (send_msg cn m c) = co_store c" "co_sent (send_msg cn m c) = co_sent c @ [(cn, m)]"
  "co_saved (send_msg cn m c) = co_saved c" "co_running (send_msg cn m c) = co_running c"
  "co_workers (send_msg cn m c) = co_workers c" "co_finished (send_msg cn m c) = co_finished c"
  "co_conns (send_msg cn m c) = co_conns c" "co_current_op (send_msg cn m c) = co_current_op c"
  "co_reg_order (send_msg cn m c) = co_reg_order c" "co_disk (send_msg cn m c) = co_disk c"
  "co_saves (send_msg cn m c) = co_saves c"
  by (simp_all add: send_msg_def)

lemma save_state_simps [simp]:
  "co_store (save_state c) = co_store c" "co_sent (save_state c) = co_sent c"
  "co_running (save_state c) = co_running c" "co_workers (save_state c) = co_workers c"
  "co_finished (save_state c) = co_finished c" "co_conns (save_state c) = co_conns c"
  "co_current_op (save_state c) = co_current_op c" "co_reg_order (save_state c) = co_reg_order c"
  "co_disk (save_state c) = co_disk c" "co_saves (save_state c) = Suc (co_saves c)"
  "co_saved (save_state c) = snd (save_file (co_disk c (co_saves c)) (co_store c) (co_saved c))"
  by (simp_all add: save_state_def case_prod_beta Let_def)

lemma save_file_written [simp]: "save_file Written st file = (True, Some (save st))"
  by (simp add: save_file_def write_file_def)

lemma co_reg_simps [simp]:
  "fst (co_reg call c) = fst (call (co_ops c))" "co_ops (snd (co_reg call c)) = snd (call (co_ops c))"
  "fs_failures (co_store (snd (co_reg call c))) = fs_failures (co_store c)"
  "co_sent (snd (co_reg call c)) = co_sent c" "co_saved (snd (co_reg call c)) = co_saved c"
  "co_running (snd (co_reg call c)) = co_running c" "co_workers (snd (co_reg call c)) = co_workers c"
  "co_finished (snd (co_reg call c)) = co_finished c" "co_conns (snd (co_reg call c)) = co_conns c"
  "co_current_op (snd (co_reg call c)) = co_current_op c"
  "co_reg_order (snd (co_reg call c)) = co_reg_order c" "co_disk (snd (co_reg call c)) = co_disk c"
  "co_saves (snd (co_reg call c)) = co_saves c"
  by (simp_all add: co_reg_def case_prod_beta)

lemma fresh_id_simps [simp]:
  "co_store (snd (fresh_id draw c)) = co_store c" "co_sent (snd (fresh_id draw c)) = co_sent c"
  "co_saved (snd (fresh_id draw c)) = co_saved c" "co_running (snd (fresh_id draw c)) = co_running c"
  "co_workers (snd (fresh_id draw c)) = co_workers c" "co_finished (snd (fresh_id draw c)) = co_finished c"
  "co_conns (snd (fresh_id draw c)) = co_conns c" "co_current_op (snd (fresh_id draw c)) = co_current_op c"
  "co_reg_order (snd (fresh_id draw c)) = co_reg_order c" "co_disk (snd (fresh_id draw c)) = co_disk c"
  "co_saves (snd (fresh_id draw c)) = co_saves c"
  by (simp_all add: fresh_id_def case_prod_beta Let_def)

definition dispatch_message :: "WorkerId \<Rightarrow> OperationId \<Rightarrow> AuthorityEnvelope \<Rightarrow> WireMessage" where
  "dispatch_message wid op a = default_message\<lparr>wm_type := ProtocolMessage.DISPATCH, wm_op := op,
     wm_attempt := ae_attempt a, wm_authority := a, wm_worker := wid\<rparr>"

lemma dispatch_to_simps [simp]:
  "co_store (dispatch_to cn op a c) = co_store c"
  "co_sent (dispatch_to cn op a c) =
     co_sent c @ [(cn, dispatch_message (cn_wid (co_conns c cn)) op a)]"
  "co_saved (dispatch_to cn op a c) = co_saved c" "co_running (dispatch_to cn op a c) = Some cn"
  "co_workers (dispatch_to cn op a c) = co_workers c" "co_finished (dispatch_to cn op a c) = co_finished c"
  "co_current_op (dispatch_to cn op a c) = op" "co_reg_order (dispatch_to cn op a c) = co_reg_order c"
  "co_disk (dispatch_to cn op a c) = co_disk c" "co_saves (dispatch_to cn op a c) = co_saves c"
  "cn_wid (co_conns (dispatch_to cn op a c) cn') = cn_wid (co_conns c cn')"
  by (simp_all add: dispatch_to_def dispatch_message_def Let_def)

subsection \<open>The registry under the coordinator\<close>

text \<open>
  The registry calls the coordinator makes, and the relation between two of its states whose
  registries are connected by such calls, none of them rebinding an operation outside \<open>D\<close>.
\<close>

fun co_call :: "reg_event \<Rightarrow> bool" where
  "co_call (Transition op to a) = False"
| "co_call (RecordTerminal op a out) = False"
| "co_call _ = True"

definition by_calls :: "OperationId set \<Rightarrow> 'g Coord \<Rightarrow> 'g Coord \<Rightarrow> bool" where
  "by_calls D c c' \<longleftrightarrow> (\<exists>es. co_ops c' = fold reg_step es (co_ops c) \<and>
     (\<forall>e \<in> set es. co_call e) \<and> (\<forall>op. op \<notin> D \<longrightarrow> (\<forall>e \<in> set es. \<not> rebinds op e)))"

lemma by_calls_same: "co_ops c' = co_ops c \<Longrightarrow> by_calls D c c'"
  unfolding by_calls_def by (rule exI [of _ "[]"]) simp

lemma by_calls_refl: "by_calls D c c"
  by (rule by_calls_same) simp

lemma by_calls_trans: "by_calls D c c' \<Longrightarrow> by_calls D c' c'' \<Longrightarrow> by_calls D c c''"
  unfolding by_calls_def
proof (elim exE conjE)
  fix es fs
  assume "co_ops c' = fold reg_step es (co_ops c)" "\<forall>e \<in> set es. co_call e"
    "\<forall>op. op \<notin> D \<longrightarrow> (\<forall>e \<in> set es. \<not> rebinds op e)"
    "co_ops c'' = fold reg_step fs (co_ops c')" "\<forall>e \<in> set fs. co_call e"
    "\<forall>op. op \<notin> D \<longrightarrow> (\<forall>e \<in> set fs. \<not> rebinds op e)"
  then show "\<exists>es. co_ops c'' = fold reg_step es (co_ops c) \<and> (\<forall>e \<in> set es. co_call e) \<and>
      (\<forall>op. op \<notin> D \<longrightarrow> (\<forall>e \<in> set es. \<not> rebinds op e))"
    by (intro exI [of _ "es @ fs"]) auto
qed

lemma by_calls_mono: "by_calls D c c' \<Longrightarrow> D \<subseteq> D' \<Longrightarrow> by_calls D' c c'"
  unfolding by_calls_def by blast

lemma by_call:
  assumes "co_ops c' = reg_step e (co_ops c)" "co_call e" "\<And>op. rebinds op e \<Longrightarrow> op \<in> D"
  shows "by_calls D c c'"
  unfolding by_calls_def using assms by (intro exI [of _ "[e]"]) auto

lemmas reg_step_calls = reg_step_def reg_apply.simps

lemma by_co_reg:
  "by_calls D c (snd (co_reg (reg_create op a) c))" "by_calls D c (snd (co_reg (reg_run op a) c))"
  "op \<in> D \<Longrightarrow> by_calls D c (snd (co_reg (reg_dispatch op a) c))"
  "by_calls D c (snd (co_reg (reg_report_completion op a p) c))"
  "by_calls D c (snd (co_reg (reg_confirm_completion op a) c))"
  "by_calls D c (snd (co_reg (reg_report_failure op a p) c))"
proof -
  show "by_calls D c (snd (co_reg (reg_create op a) c))"
    by (rule by_call [where e = "Create op a"]) (simp_all add: reg_step_calls)
  show "by_calls D c (snd (co_reg (reg_run op a) c))"
    by (rule by_call [where e = "Run op a"]) (simp_all add: reg_step_calls)
  show "op \<in> D \<Longrightarrow> by_calls D c (snd (co_reg (reg_dispatch op a) c))"
    by (rule by_call [where e = "Dispatch op a"]) (simp_all add: reg_step_calls)
  show "by_calls D c (snd (co_reg (reg_report_completion op a p) c))"
    by (rule by_call [where e = "ReportCompletion op a p"]) (simp_all add: reg_step_calls)
  show "by_calls D c (snd (co_reg (reg_confirm_completion op a) c))"
    by (rule by_call [where e = "ConfirmCompletion op a"]) (simp_all add: reg_step_calls)
  show "by_calls D c (snd (co_reg (reg_report_failure op a p) c))"
    by (rule by_call [where e = "ReportFailure op a p"]) (simp_all add: reg_step_calls)
qed

lemma on_register_calls: "by_calls D c (on_register draw cn m c)"
  by (rule by_calls_same) (simp add: on_register_def Let_def case_prod_beta)

lemma on_complete_calls: "by_calls D c (on_complete cn m c)"
proof -
  let ?c1 = "snd (co_reg (reg_report_completion (wm_op m) (wm_authority m) False) c)"
  let ?c2 = "snd (co_reg (reg_confirm_completion (wm_op m) (wm_authority m)) ?c1)"
  have 1: "by_calls D c ?c1" "by_calls D ?c1 ?c2" by (rule by_co_reg)+
  have "by_calls D ?c1 (on_complete cn m c) \<or> by_calls D ?c2 (on_complete cn m c)"
    by (cases "fst (co_reg (reg_report_completion (wm_op m) (wm_authority m) False) c) = ApplyResult.OK")
      (auto simp: complete_defs case_prod_beta Let_def save_state_def intro!: by_calls_same)
  then show ?thesis using 1 by (blast intro: by_calls_trans)
qed

text \<open>The envelope of a first dispatch, and the state in which it is handed to the registry.\<close>

definition drawn_attempt :: "('g \<Rightarrow> u64 \<times> 'g) \<Rightarrow> 'g Coord \<Rightarrow> AttemptId \<times> 'g Coord" where
  "drawn_attempt draw c = fresh_id draw c"

definition first_authority ::
  "('g \<Rightarrow> u64 \<times> 'g) \<Rightarrow> ((WorkerId, ConnId) umap \<Rightarrow> ConnId) \<Rightarrow> 'g Coord \<Rightarrow> AuthorityEnvelope" where
  "first_authority draw pick c = empty_envelope\<lparr>ae_coordinator_epoch := Generation 1,
    ae_attempt := fst (drawn_attempt draw c), ae_attempt_generation := Generation 1,
    ae_operation_generation := Generation 1,
    ae_worker_boot := cn_boot (co_conns c (pick (co_workers c)))\<rparr>"

lemma on_dispatch_eq:
  assumes "co_workers c \<noteq> []"
  shows "on_dispatch draw pick m c =
    snd (co_reg (reg_run (wm_op m) (first_authority draw pick c))
      (dispatch_to (pick (co_workers c)) (wm_op m) (first_authority draw pick c)
        (snd (co_reg (reg_dispatch (wm_op m) (first_authority draw pick c))
          (snd (co_reg (reg_create (wm_op m) (first_authority draw pick c))
            (snd (drawn_attempt draw c))))))))"
  using assms
  by (simp add: on_dispatch_def Let_def case_prod_beta first_authority_def drawn_attempt_def)

lemma on_dispatch_calls:
  assumes "wm_op m \<in> D"
  shows "by_calls D c (on_dispatch draw pick m c)"
proof (cases "co_workers c = []")
  case True
  then show ?thesis by (intro by_calls_same) (simp add: on_dispatch_def Let_def case_prod_beta)
next
  case False
  let ?a = "first_authority draw pick c"
  define c0 where "c0 = snd (drawn_attempt draw c)"
  define c1 where "c1 = snd (co_reg (reg_create (wm_op m) ?a) c0)"
  define c2 where "c2 = snd (co_reg (reg_dispatch (wm_op m) ?a) c1)"
  define c3 where "c3 = dispatch_to (pick (co_workers c)) (wm_op m) ?a c2"
  have "on_dispatch draw pick m c = snd (co_reg (reg_run (wm_op m) ?a) c3)"
    unfolding on_dispatch_eq [OF False] c0_def c1_def c2_def c3_def ..
  moreover have "by_calls D c c0" "by_calls D c2 c3"
    by (simp_all add: by_calls_same c0_def c3_def drawn_attempt_def)
  moreover have "by_calls D c0 c1" "by_calls D c1 c2" using assms by (simp_all add: c1_def c2_def by_co_reg)
  ultimately show ?thesis using by_co_reg(2) [of D c3] by (metis by_calls_trans)
qed

lemma message_calls:
  assumes "wm_type m = ProtocolMessage.DISPATCH \<Longrightarrow> wm_op m \<in> D"
  shows "by_calls D c (handle_message draw pick cn m c)"
  using assms
  by (cases "wm_type m")
    (simp_all add: handle_message_def on_running_def on_failure_def on_register_calls
      on_complete_calls on_dispatch_calls by_co_reg by_calls_refl)

lemma append_failure_ops [simp]: "fs_ops (snd (append_failure rec st)) = fs_ops st"
  by (simp add: append_failure_def)

lemma record_loss_simps [simp]:
  "co_ops (record_loss draw cur now c) =
     snd (reg_report_failure (co_current_op c) cur True (co_ops c))"
  "co_sent (record_loss draw cur now c) = co_sent c" "co_saved (record_loss draw cur now c) = co_saved c"
  "co_running (record_loss draw cur now c) = co_running c"
  "co_workers (record_loss draw cur now c) = co_workers c"
  "co_finished (record_loss draw cur now c) = co_finished c"
  "co_conns (record_loss draw cur now c) = co_conns c"
  "co_current_op (record_loss draw cur now c) = co_current_op c"
  "co_reg_order (record_loss draw cur now c) = co_reg_order c"
  "co_disk (record_loss draw cur now c) = co_disk c" "co_saves (record_loss draw cur now c) = co_saves c"
  by (simp_all add: record_loss_def Let_def case_prod_beta)

definition fresh_authority :: "('g \<Rightarrow> u64 \<times> 'g) \<Rightarrow> AuthorityEnvelope \<Rightarrow> 'g Coord \<Rightarrow> AuthorityEnvelope" where
  "fresh_authority draw cur c = fst (new_attempt draw cur c)"

lemma new_attempt_simps [simp]:
  "co_store (snd (new_attempt draw a c)) = co_store c" "co_sent (snd (new_attempt draw a c)) = co_sent c"
  "co_saved (snd (new_attempt draw a c)) = co_saved c" "co_running (snd (new_attempt draw a c)) = co_running c"
  "co_workers (snd (new_attempt draw a c)) = co_workers c"
  "co_finished (snd (new_attempt draw a c)) = co_finished c"
  "co_conns (snd (new_attempt draw a c)) = co_conns c"
  "co_current_op (snd (new_attempt draw a c)) = co_current_op c"
  "co_reg_order (snd (new_attempt draw a c)) = co_reg_order c" "co_disk (snd (new_attempt draw a c)) = co_disk c"
  "co_saves (snd (new_attempt draw a c)) = co_saves c"
  by (simp_all add: new_attempt_def Let_def case_prod_beta)

lemma choose_replacement_cong:
  "co_workers c = co_workers c' \<Longrightarrow> co_reg_order c = co_reg_order c' \<Longrightarrow>
    (\<And>cn. cn_wid (co_conns c cn) = cn_wid (co_conns c' cn)) \<Longrightarrow>
    choose_replacement pick c = choose_replacement pick c'"
  unfolding choose_replacement_def by (simp only:)

lemma redispatch_none:
  "choose_replacement pick c = None \<Longrightarrow> redispatch draw pick cur c = snd (new_attempt draw cur c)"
  using choose_replacement_cong [of "snd (new_attempt draw cur c)" c pick]
  by (simp add: redispatch_def Let_def case_prod_beta)

lemma redispatch_some:
  assumes "choose_replacement pick c = Some cn"
  shows "redispatch draw pick cur c =
    (let c' = snd (co_reg (reg_dispatch (co_current_op c) (fresh_authority draw cur c))
               (snd (new_attempt draw cur c)))
     in if is_terminal (reg_state (co_current_op c) (co_ops c')) then c'
        else dispatch_to cn (co_current_op c) (fresh_authority draw cur c) c')"
  using assms choose_replacement_cong [of "snd (new_attempt draw cur c)" c pick]
  by (simp add: redispatch_def Let_def case_prod_beta fresh_authority_def)

lemma recover_calls:
  assumes "co_current_op c \<in> D"
  shows "by_calls D c (recover_operation draw pick now c)"
proof -
  define cur where "cur = reg_current_authority (co_current_op c) (co_ops c)"
  define c1 where "c1 = record_loss draw cur now c"
  have eq: "recover_operation draw pick now c = redispatch draw pick cur c1"
    by (simp add: recover_operation_def Let_def cur_def c1_def)
  have op: "co_current_op c1 = co_current_op c" by (simp add: c1_def)
  have 1: "by_calls D c c1"
    by (rule by_call [where e = "ReportFailure (co_current_op c) cur True"])
      (simp_all add: c1_def reg_step_calls)
  have 2: "by_calls D c1 (redispatch draw pick cur c1)"
  proof (cases "choose_replacement pick c1")
    case None
    then show ?thesis by (simp add: redispatch_none by_calls_same)
  next
    case (Some cn)
    then show ?thesis using assms op
      by (intro by_call [where e = "Dispatch (co_current_op c) (fresh_authority draw cur c1)"])
        (simp_all add: redispatch_some Let_def reg_step_calls)
  qed
  show ?thesis unfolding eq using 1 2 by (rule by_calls_trans)
qed

lemma lost_calls:
  assumes "co_current_op c \<in> D"
  shows "by_calls D c (connection_lost draw pick cn now c)"
proof (cases "co_running c = Some cn \<and> \<not> co_finished c")
  case True
  let ?c = "c\<lparr>co_workers := um_erase (cn_wid (co_conns c cn)) (co_workers c), co_running := None\<rparr>"
  have "connection_lost draw pick cn now c = recover_operation draw pick now ?c"
    using True by (simp add: connection_lost_def Let_def)
  moreover have "by_calls D c ?c" by (rule by_calls_same) simp
  ultimately show ?thesis using recover_calls [of ?c D draw pick now] assms by (auto intro: by_calls_trans)
next
  case False
  then show ?thesis by (intro by_calls_same) (auto simp: connection_lost_def Let_def)
qed

lemma step_calls: "by_calls UNIV c (co_step draw pick e c)"
  by (cases e) (simp_all add: message_calls lost_calls)

lemma run_calls: "by_calls UNIV c (fold (co_step draw pick) es c)"
  by (induction es arbitrary: c) (auto intro: by_calls_refl by_calls_trans step_calls)

subsection \<open>Acknowledged completions\<close>

definition acks :: "OperationId \<Rightarrow> 'g Coord \<Rightarrow> (ConnId \<times> WireMessage) list" where
  "acks op c = filter (\<lambda>s. wm_type (snd s) = ProtocolMessage.ACK \<and> wm_op (snd s) = op) (co_sent c)"

definition ack_message :: "OperationId \<Rightarrow> WireMessage" where
  "ack_message op = default_message\<lparr>wm_type := ProtocolMessage.ACK, wm_flag := True, wm_op := op\<rparr>"

definition fence_message :: "OperationId \<Rightarrow> WireMessage" where
  "fence_message op = default_message\<lparr>wm_type := ProtocolMessage.FENCE, wm_flag := False,
     wm_op := op, wm_text := ''stale completion rejected''\<rparr>"

definition accepts :: "co_event \<Rightarrow> 'g Coord \<Rightarrow> bool" where
  "accepts e c \<longleftrightarrow> (case e of
      Message cn m \<Rightarrow> wm_type m = ProtocolMessage.COMPLETE \<and>
        fst (reg_report_completion (wm_op m) (wm_authority m) False (co_ops c)) = ApplyResult.OK
    | Lost cn now \<Rightarrow> False)"

lemma report_then_confirm:
  assumes "fst (reg_report_completion op a False reg) = ApplyResult.OK"
  shows "fst (reg_confirm_completion op a (snd (reg_report_completion op a False reg))) = ApplyResult.OK"
    and "has_outcome op ''COMPLETED''
      (snd (reg_confirm_completion op a (snd (reg_report_completion op a False reg))))"
proof -
  obtain r where r: "map_of reg op = Some r"
    using assms by (auto simp: reg_report_completion_def on_op_def split: option.splits)
  then have ok: "fst (rt_report_completion a False r) = ApplyResult.OK"
    using assms by (simp add: reg_report_completion_def on_op_def case_prod_beta)
  then have f: "\<not> rt_terminal_recorded r" "fence_accepted (fence_completion a (rt_authority r) (rt_terminal r))"
    and s: "snd (rt_report_completion a False r) =
      r\<lparr>rt_machine := OperationStateMachine OperationState.COMPLETION_REPORTED\<rparr>"
    by (auto simp: rt_report_completion_def sm_transition_pair split: if_splits)
  have "is_allowed OperationState.COMPLETION_REPORTED OperationState.COMPLETION_CONFIRMED"
    by (simp add: is_allowed_iff named_def)
  then show ok2: "fst (reg_confirm_completion op a (snd (reg_report_completion op a False reg))) = ApplyResult.OK"
    using r f by (simp add: reg_report_completion_def reg_confirm_completion_def on_op_def case_prod_beta s
        rt_confirm_completion_def sm_transition_pair)
  then show "has_outcome op ''COMPLETED''
      (snd (reg_confirm_completion op a (snd (reg_report_completion op a False reg))))"
    using claim_recorded [of op "ConfirmCompletion op a" "''COMPLETED''"] by (simp add: reg_step_def)
qed

lemma complete_accepted:
  assumes "accepts (Message cn m) c"
  shows "co_sent (handle_message draw pick cn m c) = co_sent c @ [(cn, ack_message (wm_op m))]"
    and "has_outcome (wm_op m) ''COMPLETED'' (co_ops (handle_message draw pick cn m c))"
    and "co_saved (handle_message draw pick cn m c) =
      snd (save_file (co_disk c (co_saves c)) (co_store (handle_message draw pick cn m c)) (co_saved c))"
    and "co_finished (handle_message draw pick cn m c)"
    and "co_saves (handle_message draw pick cn m c) = Suc (co_saves c)"
  using assms report_then_confirm(2)
  by (simp_all add: accepts_def handle_message_def complete_defs Let_def case_prod_beta ack_message_def)

lemma recover_sent:
  "acks op (recover_operation draw pick now c) = acks op c"
  "co_saved (recover_operation draw pick now c) = co_saved c"
  "co_saves (recover_operation draw pick now c) = co_saves c"
proof -
  define cur where "cur = reg_current_authority (co_current_op c) (co_ops c)"
  define c1 where "c1 = record_loss draw cur now c"
  have eq: "recover_operation draw pick now c = redispatch draw pick cur c1"
    by (simp add: recover_operation_def Let_def cur_def c1_def)
  have c1: "co_sent c1 = co_sent c" "co_saved c1 = co_saved c" "co_saves c1 = co_saves c" by (simp_all add: c1_def)
  show "acks op (recover_operation draw pick now c) = acks op c"
    "co_saved (recover_operation draw pick now c) = co_saved c"
    "co_saves (recover_operation draw pick now c) = co_saves c"
    unfolding eq
    by (cases "choose_replacement pick c1";
        simp add: redispatch_none redispatch_some Let_def acks_def c1 dispatch_message_def)+
qed

lemma step_not_accepting:
  assumes "\<not> accepts e c"
  shows "acks op (co_step draw pick e c) = acks op c" "co_saved (co_step draw pick e c) = co_saved c"
    "co_saves (co_step draw pick e c) = co_saves c"
proof -
  let ?same = "\<lambda>c'. acks op c' = acks op c \<and> co_saved c' = co_saved c \<and> co_saves c' = co_saves c"
  have "?same (co_step draw pick e c)"
  proof (cases e)
    case (Message cn m)
    have "?same (on_dispatch draw pick m c)"
    proof (cases "co_workers c = []")
      case True
      then show ?thesis by (simp add: on_dispatch_def Let_def case_prod_beta acks_def)
    next
      case False
      then show ?thesis by (simp add: on_dispatch_eq acks_def dispatch_message_def drawn_attempt_def)
    qed
    then show ?thesis using assms Message
      by (cases "wm_type m") (simp_all add: accepts_def handle_message_def acks_def on_register_def
          on_running_def complete_defs on_failure_def Let_def case_prod_beta)
  next
    case (Lost cn now)
    then show ?thesis by (auto simp: connection_lost_def Let_def recover_sent) (simp_all add: acks_def)
  qed
  then show "acks op (co_step draw pick e c) = acks op c" "co_saved (co_step draw pick e c) = co_saved c"
    "co_saves (co_step draw pick e c) = co_saves c" by simp_all
qed

lemma accepting_step:
  assumes "accepts e c"
  shows "co_saves (co_step draw pick e c) = Suc (co_saves c)"
    and "co_saved (co_step draw pick e c) =
      snd (save_file (co_disk c (co_saves c)) (co_store (co_step draw pick e c)) (co_saved c))"
  using assms complete_accepted [of _ _ c draw pick] by (cases e; simp add: accepts_def)+

lemma loss_saves [simp]:
  "co_saved (connection_lost draw pick cn now c) = co_saved c"
  "co_saves (connection_lost draw pick cn now c) = co_saves c"
  using step_not_accepting(2,3) [of "Lost cn now" c draw pick] by (simp_all add: accepts_def)

lemma other_message_saves:
  assumes "wm_type m \<noteq> ProtocolMessage.COMPLETE"
  shows "co_saved (handle_message draw pick cn m c) = co_saved c"
    and "co_saves (handle_message draw pick cn m c) = co_saves c"
  using assms step_not_accepting(2,3) [of "Message cn m" c draw pick] by (simp_all add: accepts_def)

text \<open>No step changes what will become of the writings.\<close>

lemma recover_disk: "co_disk (recover_operation draw pick now c) = co_disk c"
proof -
  define cur where "cur = reg_current_authority (co_current_op c) (co_ops c)"
  define c1 where "c1 = record_loss draw cur now c"
  have "recover_operation draw pick now c = redispatch draw pick cur c1"
    by (simp add: recover_operation_def Let_def cur_def c1_def)
  moreover have "co_disk c1 = co_disk c" by (simp add: c1_def)
  ultimately show ?thesis
    by (cases "choose_replacement pick c1") (simp_all add: redispatch_none redispatch_some Let_def)
qed

lemma message_disk [simp]: "co_disk (handle_message draw pick cn m c) = co_disk c"
proof -
  have "co_disk (on_dispatch draw pick m c) = co_disk c"
    by (cases "co_workers c = []") (simp_all add: on_dispatch_eq on_dispatch_def Let_def case_prod_beta drawn_attempt_def)
  then show ?thesis
    by (cases "wm_type m") (simp_all add: handle_message_def on_register_def on_running_def
        complete_defs on_failure_def Let_def case_prod_beta)
qed

lemma lost_disk [simp]: "co_disk (connection_lost draw pick cn now c) = co_disk c"
  by (simp add: connection_lost_def Let_def recover_disk)

lemma step_disk [simp]: "co_disk (co_step draw pick e c) = co_disk c"
  by (cases e) simp_all

lemma run_disk [simp]: "co_disk (fold (co_step draw pick) es c) = co_disk c"
  by (induction es arbitrary: c) (simp_all del: co_step.simps)

lemma by_calls_outcome: "by_calls D c c' \<Longrightarrow> has_outcome op out (co_ops c) \<Longrightarrow> has_outcome op out (co_ops c')"
proof -
  assume "by_calls D c c'" "has_outcome op out (co_ops c)"
  moreover have "has_outcome op out reg \<Longrightarrow> has_outcome op out (fold reg_step es reg)" for es reg
    by (induction es arbitrary: reg) (auto intro: has_outcome_kept)
  ultimately show ?thesis by (auto simp: by_calls_def)
qed

lemma recorded_not_accepted:
  "has_outcome (wm_op m) out (co_ops c) \<Longrightarrow> \<not> accepts (Message cn m) c"
  by (auto simp: accepts_def has_outcome_def reg_report_completion_def on_op_def case_prod_beta
      rt_report_completion_def)

text \<open>At most one acknowledgement per operation, and only of a recorded completion.\<close>

definition ack_inv :: "'g Coord \<Rightarrow> bool" where
  "ack_inv c \<longleftrightarrow> (\<forall>op. length (acks op c) \<le> 1 \<and>
     (acks op c \<noteq> [] \<longrightarrow> has_outcome op ''COMPLETED'' (co_ops c)))"

lemma ack_inv_step: "ack_inv c \<Longrightarrow> ack_inv (co_step draw pick e c)"
proof (cases "accepts e c")
  case True
  assume i: "ack_inv c"
  obtain cn m where e: "e = Message cn m" using True by (cases e) (auto simp: accepts_def)
  let ?c = "handle_message draw pick cn m c"
  have a: "acks op ?c = acks op c @ (if op = wm_op m then [(cn, ack_message op)] else [])" for op
    using complete_accepted(1) [OF True [unfolded e], of draw pick]
    by (simp add: acks_def ack_message_def)
  have none: "acks (wm_op m) c = []"
    using recorded_not_accepted [of m "''COMPLETED''" c cn] True i by (auto simp: ack_inv_def e)
  have "length (acks op ?c) \<le> 1 \<and> (acks op ?c \<noteq> [] \<longrightarrow> has_outcome op ''COMPLETED'' (co_ops ?c))" for op
  proof (cases "op = wm_op m")
    case True
    then show ?thesis using a none complete_accepted(2) [OF \<open>accepts e c\<close> [unfolded e]] by simp
  next
    case False
    then show ?thesis
      using a i by_calls_outcome [OF step_calls [of c draw pick e]] by (simp add: ack_inv_def e)
  qed
  then show ?thesis by (simp add: ack_inv_def e)
next
  case False
  assume "ack_inv c"
  then show ?thesis using by_calls_outcome [OF step_calls [of c draw pick e]]
    by (simp add: ack_inv_def step_not_accepting [OF False])
qed

interpretation coord: event_system "co_step draw pick" ack_inv for draw pick
  by unfold_locales (rule ack_inv_step)

subsection \<open>Crash and restart\<close>

text \<open>
  Every acknowledged completion is in the state file, which can be read back, provided the last
  writing of it succeeded.
\<close>

definition durable :: "'g Coord \<Rightarrow> bool" where
  "durable c \<longleftrightarrow> (\<forall>op. acks op c \<noteq> [] \<longrightarrow> co_saves c \<noteq> 0 \<and>
     (co_disk c (co_saves c - 1) = Written \<longrightarrow>
     (\<exists>st. co_saved c = Some (save st) \<and> snapshottable st \<and> has_outcome op ''COMPLETED'' (fs_ops st))))"

lemma durable_step:
  assumes "durable c" "ack_inv c" "snapshottable (co_store (co_step draw pick e c))"
  shows "durable (co_step draw pick e c)"
proof (cases "accepts e c")
  case True
  then show ?thesis using assms(3) ack_inv_step [OF assms(2), of draw pick e]
    by (auto simp: durable_def ack_inv_def accepting_step simp del: co_step.simps)
next
  case False
  then show ?thesis using assms(1) by (simp add: durable_def step_not_accepting del: co_step.simps)
qed

lemma start_inv:
  "ack_inv ((co_start st g)\<lparr>co_saved := saved, co_disk := disk\<rparr>)"
  "durable ((co_start st g)\<lparr>co_saved := saved, co_disk := disk\<rparr>)"
  by (simp_all add: ack_inv_def durable_def acks_def co_start_def)

lemma boot_outcome:
  assumes "snapshottable st" "has_outcome op out (fs_ops st)"
  shows "has_outcome op out (co_ops (co_boot (Some (save st)) g))"
proof -
  have "um_wf (fs_ops st)" using assms(1) by (simp add: snapshottable_def store_inv_def)
  then show ?thesis using assms(2)
    by (simp add: co_boot_def co_start_def load_saved [OF assms(1)] has_outcome_def map_of_rev_wf)
qed

lemma run_recorded_no_acks:
  "has_outcome op out (co_ops c) \<Longrightarrow> acks op (fold (co_step draw pick) es c) = acks op c"
proof (induction es arbitrary: c)
  case (Cons e es)
  have "acks op (co_step draw pick e c) = acks op c"
  proof (cases "accepts e c")
    case True
    then obtain cn m where e: "e = Message cn m" by (cases e) (auto simp: accepts_def)
    then have "wm_op m \<noteq> op" using True Cons.prems recorded_not_accepted by blast
    then show ?thesis using complete_accepted(1) [OF True [unfolded e], of draw pick]
      by (simp add: e acks_def ack_message_def)
  qed (rule step_not_accepting)
  then show ?case
    using Cons.IH [of "co_step draw pick e c"] by_calls_outcome [OF step_calls Cons.prems] by simp
qed simp

subsection \<open>Properties\<close>

text \<open>
  C3: one acknowledgement per operation. In any run of the coordinator's handlers, one after the
  other and each to its end, whatever messages arrive on whatever connections, whichever workers are
  lost and whatever becomes of the state file, an operation is acknowledged at most once, and only
  when the registry holds \<open>COMPLETED\<close> as its recorded outcome.
\<close>

theorem acknowledged_at_most_once:
  "let c = fold (co_step draw pick) es ((co_start st g)\<lparr>co_saved := saved, co_disk := disk\<rparr>) in
   length (acks op c) \<le> (if has_outcome op ''COMPLETED'' (co_ops c) then 1 else 0)"
  using coord.run_inv [OF start_inv(1) [where st = st and g = g and saved = saved and disk = disk], of draw pick es]
  by (auto simp: Let_def ack_inv_def)

definition running_store :: FailureStore where
  "running_store = new_store\<lparr>fs_ops := [(sample_id 7, default_runtime\<lparr>
     rt_machine := OperationStateMachine OperationState.RUNNING, rt_authority := sample_env 1\<rparr>)]\<rparr>"

definition sample_complete :: WireMessage where
  "sample_complete = default_message\<lparr>wm_type := ProtocolMessage.COMPLETE, wm_op := sample_id 7,
     wm_authority := sample_env 1\<rparr>"

lemma running_store_step:
  "co_step draw pick (Message 3 sample_complete) (co_start running_store g) =
    (co_start (running_store\<lparr>fs_ops := [(sample_id 7, finished_runtime\<lparr>rt_authority := sample_env 1\<rparr>)]\<rparr>) g)
      \<lparr>co_sent := [(3, ack_message (sample_id 7))], co_finished := True,
       co_saved := Some (save (running_store\<lparr>fs_ops := [(sample_id 7, finished_runtime\<lparr>rt_authority := sample_env 1\<rparr>)]\<rparr>)),
       co_saves := 1\<rparr>"
proof -
  have "fence_accepted (fence_completion (sample_env 1) (sample_env 1) empty_envelope)"
    by (simp add: completion_fence.accepts_current)
  then show ?thesis
    by (simp add: sample_complete_def handle_message_def complete_defs co_reg_def
        reg_report_completion_def reg_confirm_completion_def on_op_def rt_report_completion_def
        rt_confirm_completion_def sm_transition_pair is_allowed_iff named_def running_store_def
        default_runtime_def finished_runtime_def co_start_def send_msg_def save_state_def
        ack_message_def)
qed

text \<open>
  The coordinator refines the registry. Over any run, the registry it keeps changes exactly as by
  a sequence of registry calls, none of them the unrestricted \<open>transition\<close> or \<open>record_terminal\<close>;
  what is proved of every sequence of registry calls therefore holds of the coordinator.
\<close>

lemma coordinator_refines_registry:
  "\<exists>calls. co_ops (fold (co_step draw pick) es c) = fold reg_step calls (co_ops c) \<and>
     list_all co_call calls"
  using run_calls [of c draw pick es] by (auto simp: by_calls_def list_all_iff)

subsection \<open>Fencing after a loss\<close>

text \<open>An operation whose outcome is recorded, or whose authority has moved past a generation.\<close>

definition moved_past :: "AttemptGeneration \<Rightarrow> OperationId \<Rightarrow> OperationRegistry \<Rightarrow> bool" where
  "moved_past gen op reg \<longleftrightarrow>
     (\<exists>r. map_of reg op = Some r \<and> (rt_terminal_recorded r \<or> gen < ae_attempt_generation (rt_authority r)))"

lemma moved_past_refused:
  assumes "moved_past gen op reg" "ae_attempt_generation a \<le> gen"
  shows "fst (reg_report_completion op a p reg) \<noteq> ApplyResult.OK"
    and "map_of (snd (reg_report_completion op a p reg)) = map_of reg"
proof -
  obtain r where r: "map_of reg op = Some r"
    "rt_terminal_recorded r \<or> gen < ae_attempt_generation (rt_authority r)"
    using assms(1) by (auto simp: moved_past_def)
  have "rt_report_completion a p r = (ApplyResult.ALREADY_TERMINAL, r) \<or>
    rt_report_completion a p r = (ApplyResult.STALE_REJECTED, r)"
  proof (cases "rt_terminal_recorded r")
    case True
    then show ?thesis by (simp add: rt_report_completion_def)
  next
    case False
    then have "\<not> fence_accepted (fence_failure a (rt_authority r))"
      using r(2) assms(2) by (intro failure_fence.fences_older_generation) simp
    then show ?thesis using False fence_completion_implies_failure by (auto simp: rt_report_completion_def)
  qed
  then show "fst (reg_report_completion op a p reg) \<noteq> ApplyResult.OK"
    "map_of (snd (reg_report_completion op a p reg)) = map_of reg"
    using r(1) by (auto simp: reg_report_completion_def on_op_def)
qed

lemma moved_past_run:
  assumes "moved_past gen op reg" "\<forall>e \<in> set es. \<not> rebinds op e"
  shows "moved_past gen op (fold reg_step es reg)"
proof -
  obtain r where r: "map_of reg op = Some r"
    "rt_terminal_recorded r \<or> gen < ae_attempt_generation (rt_authority r)"
    using assms(1) by (auto simp: moved_past_def)
  have kept: "outcome_kept reg (fold reg_step es reg)" for es
  proof (induction es arbitrary: reg)
    case (Cons e es)
    then show ?case using reg_step_kept [of reg e] reg.rel_trans by fastforce
  qed (simp add: reg.rel_refl)
  show ?thesis
    using r(2) run_authority [OF r(1) assms(2)] kept [of es] r(1)
    by (auto simp: moved_past_def outcome_kept_def)
qed

lemma by_calls_moved_past:
  "by_calls (- {op}) c c' \<Longrightarrow> moved_past gen op (co_ops c) \<Longrightarrow> moved_past gen op (co_ops c')"
  unfolding by_calls_def using moved_past_run by auto

text \<open>Messages that do not ask for a dispatch of the operation.\<close>

definition no_dispatch :: "OperationId \<Rightarrow> ConnId \<times> WireMessage \<Rightarrow> bool" where
  "no_dispatch op s \<longleftrightarrow> \<not> (wm_type (snd s) = ProtocolMessage.DISPATCH \<and> wm_op (snd s) = op)"

lemma messages_moved_past:
  "moved_past gen op (co_ops c) \<Longrightarrow> list_all (no_dispatch op) ms \<Longrightarrow>
    moved_past gen op (co_ops (fold (\<lambda>(cn, m). handle_message draw pick cn m) ms c))"
proof (induction ms arbitrary: c)
  case (Cons s ms)
  obtain cn m where s: "s = (cn, m)" by fastforce
  have "by_calls (- {op}) c (handle_message draw pick cn m c)"
    using Cons.prems(2) by (intro message_calls) (auto simp: s no_dispatch_def)
  then have "moved_past gen op (co_ops (handle_message draw pick cn m c))"
    using Cons.prems(1) by (rule by_calls_moved_past)
  then show ?case using Cons by (simp add: s)
qed simp

lemma complete_fenced:
  assumes "moved_past gen op (co_ops c)" "wm_type m = ProtocolMessage.COMPLETE" "wm_op m = op"
    "ae_attempt_generation (wm_authority m) \<le> gen"
  shows "co_sent (handle_message draw pick cn m c) = co_sent c @ [(cn, fence_message op)]"
    and "map_of (co_ops (handle_message draw pick cn m c)) = map_of (co_ops c)"
  using moved_past_refused [OF assms(1,4), of False] assms(2,3)
  by (simp_all add: handle_message_def complete_defs Let_def case_prod_beta fence_message_def)

lemma loss_moves_past:
  assumes "co_running c = Some cn" "\<not> co_finished c" "map_of (co_ops c) (co_current_op c) = Some r"
    and "choose_replacement pick (c\<lparr>co_workers := um_erase (cn_wid (co_conns c cn)) (co_workers c)\<rparr>) = Some cn'"
    and "ae_attempt_generation (rt_authority r) < gen_next (ae_attempt_generation (rt_authority r))"
  shows "moved_past (ae_attempt_generation (rt_authority r)) (co_current_op c)
    (co_ops (connection_lost draw pick cn now c))"
proof -
  let ?op = "co_current_op c"
  let ?c0 = "c\<lparr>co_workers := um_erase (cn_wid (co_conns c cn)) (co_workers c), co_running := None\<rparr>"
  define c1 where "c1 = record_loss draw (rt_authority r) now ?c0"
  define fresh where "fresh = fresh_authority draw (rt_authority r) c1"
  have eq: "connection_lost draw pick cn now c = redispatch draw pick (rt_authority r) c1"
    using assms(1-3) by (simp add: connection_lost_def Let_def recover_operation_def c1_def
        reg_current_authority_def)
  have rep: "choose_replacement pick c1 = Some cn'"
    using assms(4) choose_replacement_cong [of c1 "c\<lparr>co_workers := um_erase (cn_wid (co_conns c cn)) (co_workers c)\<rparr>" pick]
    by (simp add: c1_def)
  have ops1: "co_ops c1 = snd (reg_report_failure ?op (rt_authority r) True (co_ops c))"
    and op1: "co_current_op c1 = ?op" by (simp_all add: c1_def)
  have r1: "map_of (co_ops c1) ?op = Some (snd (rt_report_failure (rt_authority r) True r))"
    using assms(3) by (simp add: ops1 reg_report_failure_def on_op_def case_prod_beta)
  have ops2: "co_ops (connection_lost draw pick cn now c) = snd (reg_dispatch ?op fresh (co_ops c1))"
    by (simp add: eq redispatch_some [OF rep] op1 fresh_def Let_def)
  have "ae_attempt_generation fresh = gen_next (ae_attempt_generation (rt_authority r))"
    by (simp add: fresh_def fresh_authority_def new_attempt_def Let_def case_prod_beta)
  then show ?thesis using r1 assms(5)
    by (auto simp: moved_past_def ops2 reg_dispatch_def on_op_def case_prod_beta rt_dispatch_def Let_def)
qed

subsection \<open>Dispatch, loss and completion\<close>

lemma first_authority_set: "first_authority draw pick c \<noteq> empty_envelope"
  by (simp add: first_authority_def empty_envelope_def gen_zero_def)

lemma first_dispatch_state:
  assumes "co_workers c \<noteq> []" "map_of (co_ops c) (wm_op m) = None"
  shows "map_of (co_ops (on_dispatch draw pick m c)) (wm_op m) =
    Some (default_runtime\<lparr>rt_authority := first_authority draw pick c,
      rt_machine := OperationStateMachine OperationState.RUNNING, rt_attempt_count := 1\<rparr>)"
proof -
  let ?a = "first_authority draw pick c"
  have "?a \<noteq> empty_envelope" by (rule first_authority_set)
  then have "fence_accepted (fence_failure ?a ?a)" by (rule failure_fence.accepts_current)
  then show ?thesis using assms(2)
    by (simp add: on_dispatch_eq [OF assms(1)] drawn_attempt_def reg_create_def reg_dispatch_def reg_run_def
        on_op_def rt_dispatch_def rt_run_def default_runtime_def is_terminal_def sm_transition_pair
        is_allowed_iff named_def)
qed

lemma redispatch_state:
  fixes draw :: "'g \<Rightarrow> u64 \<times> 'g" and cur :: AuthorityEnvelope
  assumes "map_of (co_ops c) (co_current_op c) = Some r" "\<not> rt_terminal_recorded r"
    "\<not> is_terminal (rt_state r)" "choose_replacement pick c = Some cn"
  defines "a \<equiv> fresh_authority draw cur c"
  shows "co_sent (redispatch draw pick cur c) =
      co_sent c @ [(cn, dispatch_message (cn_wid (co_conns c cn)) (co_current_op c) a)]"
    and "map_of (co_ops (redispatch draw pick cur c)) (co_current_op c) =
      Some (r\<lparr>rt_authority := a, rt_machine := OperationStateMachine OperationState.DISPATCHED,
        rt_attempt_count := rt_attempt_count r + 1\<rparr>)"
proof -
  have d: "rt_dispatch a r = (ApplyResult.OK, r\<lparr>rt_authority := a,
      rt_machine := OperationStateMachine OperationState.DISPATCHED, rt_attempt_count := rt_attempt_count r + 1\<rparr>)"
    using assms(2,3) by (cases r, cases "rt_machine r") (auto simp: rt_dispatch_def Let_def)
  then show "co_sent (redispatch draw pick cur c) =
      co_sent c @ [(cn, dispatch_message (cn_wid (co_conns c cn)) (co_current_op c) a)]"
    "map_of (co_ops (redispatch draw pick cur c)) (co_current_op c) =
      Some (r\<lparr>rt_authority := a, rt_machine := OperationStateMachine OperationState.DISPATCHED,
        rt_attempt_count := rt_attempt_count r + 1\<rparr>)"
    using assms(1,4)
    by (simp_all add: redispatch_some a_def [symmetric] Let_def reg_dispatch_def on_op_def reg_state_def
        is_terminal_def)
qed

lemma worker_replies:
  assumes "mode \<noteq> ''fail''"
  shows "\<exists>run comp. wr_sends (worker_on reg mode (dispatch_message wid op a)) = [run, comp] \<and>
    wm_type run = ProtocolMessage.RUNNING \<and> wm_type comp = ProtocolMessage.COMPLETE \<and>
    wm_op run = op \<and> wm_op comp = op \<and> wm_authority run = a \<and> wm_authority comp = a"
  using assms by (simp add: worker_on_def dispatch_message_def Let_def default_message_def)

lemma worker_completes:
  fixes draw :: "'g \<Rightarrow> u64 \<times> 'g" and reg :: WireMessage and wid :: WorkerId and cn :: ConnId
    and pick :: "(WorkerId, ConnId) umap \<Rightarrow> ConnId"
  assumes "map_of (co_ops c) op = Some r" "\<not> rt_terminal_recorded r" "rt_terminal r = empty_envelope"
    "rt_state r = OperationState.DISPATCHED \<or> rt_state r = OperationState.RUNNING"
    "rt_authority r \<noteq> empty_envelope" "mode \<noteq> ''fail''"
  defines "replies \<equiv> wr_sends (worker_on reg mode (dispatch_message wid op (rt_authority r)))"
  defines "c' \<equiv> fold (handle_message draw pick cn) replies c"
  shows "co_sent c' = co_sent c @ [(cn, ack_message op)]"
    and "has_outcome op ''COMPLETED'' (co_ops c')"
    and "co_saved c' = snd (save_file (co_disk c (co_saves c)) (co_store c') (co_saved c))"
    and "co_finished c'" and "co_saves c' = Suc (co_saves c)"
proof -
  obtain run comp where rs: "replies = [run, comp]" and t: "wm_type run = ProtocolMessage.RUNNING"
    "wm_type comp = ProtocolMessage.COMPLETE" "wm_op run = op" "wm_op comp = op"
    "wm_authority run = rt_authority r" "wm_authority comp = rt_authority r"
    unfolding replies_def using worker_replies [OF assms(6)] by blast
  define c1 where "c1 = handle_message draw pick cn run c"
  have f: "fence_accepted (fence_failure (rt_authority r) (rt_authority r))"
    "fence_accepted (fence_completion (rt_authority r) (rt_authority r) empty_envelope)"
    using assms(5) by (simp_all add: failure_fence.accepts_current completion_fence.accepts_current)
  have sent: "co_sent c1 = co_sent c" "co_saved c1 = co_saved c" "co_saves c1 = co_saves c" "co_disk c1 = co_disk c"
    by (simp_all add: c1_def handle_message_def t on_running_def)
  have "map_of (co_ops c1) op = Some (r\<lparr>rt_machine := OperationStateMachine OperationState.RUNNING\<rparr>)"
    using assms(1,2,4) f(1) by (cases "rt_machine r") (auto simp: c1_def handle_message_def t on_running_def reg_run_def
        on_op_def rt_run_def sm_transition_pair is_allowed_iff named_def)
  then have acc: "accepts (Message cn comp) c1"
    using assms(2,3) f(2) by (simp add: accepts_def t reg_report_completion_def on_op_def
        rt_report_completion_def sm_transition_pair is_allowed_iff named_def)
  have c': "c' = handle_message draw pick cn comp c1" by (simp add: c'_def rs c1_def)
  show "co_sent c' = co_sent c @ [(cn, ack_message op)]" "has_outcome op ''COMPLETED'' (co_ops c')"
    "co_saved c' = snd (save_file (co_disk c (co_saves c)) (co_store c') (co_saved c))"
    "co_finished c'" "co_saves c' = Suc (co_saves c)"
    using complete_accepted [OF acc, of draw pick] by (simp_all add: c' t sent)
qed

text \<open>
  C12: a lost attempt stays fenced. When the worker running an operation is lost and another takes
  over, then after any further messages other than a request to dispatch the operation anew, a
  completion that carries the lost attempt's generation or an older one is answered with a fence,
  and the registry is as before (unless the attempt generation was the largest 64-bit number).
\<close>

theorem lost_attempt_fenced:
  assumes "co_running c = Some cn" "\<not> co_finished c" "map_of (co_ops c) (co_current_op c) = Some r"
    and "choose_replacement pick (c\<lparr>co_workers := um_erase (cn_wid (co_conns c cn)) (co_workers c)\<rparr>) = Some cn'"
    and "gen_value (ae_attempt_generation (rt_authority r)) \<noteq> - 1"
    and "list_all (no_dispatch (co_current_op c)) ms"
    and "wm_type m = ProtocolMessage.COMPLETE" "wm_op m = co_current_op c"
    and "ae_attempt_generation (wm_authority m) \<le> ae_attempt_generation (rt_authority r)"
  shows "let c' = fold (\<lambda>(cn, m). handle_message draw pick cn m) ms (connection_lost draw pick cn now c);
             c'' = handle_message draw pick late m c' in
    co_sent c'' = co_sent c' @ [(late, fence_message (co_current_op c))] \<and>
    map_of (co_ops c'') = map_of (co_ops c')"
proof -
  define c' where "c' = fold (\<lambda>(cn, m). handle_message draw pick cn m) ms (connection_lost draw pick cn now c)"
  have "moved_past (ae_attempt_generation (rt_authority r)) (co_current_op c) (co_ops c')"
    unfolding c'_def using loss_moves_past [OF assms(1-4) gen_less_next [OF assms(5)]] assms(6)
    by (rule messages_moved_past)
  then show ?thesis
    unfolding Let_def c'_def [symmetric]
    by (intro conjI complete_fenced(1) [OF _ assms(7-9)] complete_fenced(2) [OF _ assms(7-9)])
qed

lemma dispatch_then_loss:
  fixes draw :: "'g \<Rightarrow> u64 \<times> 'g" and c :: "'g Coord" and client :: ConnId and now :: u64
  assumes "wm_type m = ProtocolMessage.DISPATCH" "co_workers c \<noteq> []"
    and "map_of (co_ops c) (wm_op m) = None" "\<not> co_finished c"
    and "a = pick (co_workers c)"
    and "choose_replacement pick (c\<lparr>co_workers := um_erase (cn_wid (co_conns c a)) (co_workers c)\<rparr>) = Some b"
  defines "A \<equiv> first_authority draw pick c" and "c1 \<equiv> handle_message draw pick client m c"
  defines "c2 \<equiv> connection_lost draw pick a now c1"
  shows "\<exists>wid. co_sent c1 = co_sent c @ [(a, dispatch_message wid (wm_op m) A)]"
    and "\<exists>wid B r. co_sent c2 = co_sent c1 @ [(b, dispatch_message wid (wm_op m) B)] \<and>
      map_of (co_ops c2) (wm_op m) = Some r \<and> rt_authority r = B \<and> B \<noteq> empty_envelope \<and>
      rt_state r = OperationState.DISPATCHED \<and> \<not> rt_terminal_recorded r \<and> rt_terminal r = empty_envelope"
proof -
  let ?op = "wm_op m"
  let ?r = "default_runtime\<lparr>rt_authority := A,
    rt_machine := OperationStateMachine OperationState.RUNNING, rt_attempt_count := 1\<rparr>"
  have c1: "c1 = on_dispatch draw pick m c" by (simp add: c1_def handle_message_def assms(1))
  have r1: "map_of (co_ops c1) ?op = Some ?r"
    unfolding c1 A_def by (rule first_dispatch_state [OF assms(2,3)])
  have f1: "co_running c1 = Some a" "\<not> co_finished c1" "co_current_op c1 = ?op"
    "co_sent c1 = co_sent c @ [(a, dispatch_message (cn_wid (co_conns c a)) ?op A)]"
    "co_workers c1 = co_workers c" "co_reg_order c1 = co_reg_order c"
    "\<And>cn. cn_wid (co_conns c1 cn) = cn_wid (co_conns c cn)"
    using assms(4) by (simp_all add: c1 on_dispatch_eq [OF assms(2)] assms(5) A_def drawn_attempt_def)
  have rep: "choose_replacement pick (c1\<lparr>co_workers := um_erase (cn_wid (co_conns c1 a)) (co_workers c1)\<rparr>) = Some b"
    using assms(6) f1(5-7)
    by (subst choose_replacement_cong [where c' = "c\<lparr>co_workers := um_erase (cn_wid (co_conns c a)) (co_workers c)\<rparr>"]) simp_all
  define d where "d = record_loss draw A now
    (c1\<lparr>co_workers := um_erase (cn_wid (co_conns c1 a)) (co_workers c1), co_running := None\<rparr>)"
  let ?rd = "?r\<lparr>rt_machine := OperationStateMachine OperationState.FAILED_AMBIGUOUS\<rparr>"
  have c2: "c2 = redispatch draw pick A d"
    using f1 r1 by (simp add: c2_def connection_lost_def Let_def recover_operation_def d_def
        reg_current_authority_def)
  have d_op: "co_current_op d = ?op" by (simp add: d_def f1)
  have "fence_accepted (fence_failure A A)"
    unfolding A_def by (rule failure_fence.accepts_current [OF first_authority_set])
  then have rd: "map_of (co_ops d) ?op = Some ?rd"
    using r1 by (simp add: d_def f1 reg_report_failure_def on_op_def rt_report_failure_def
        default_runtime_def sm_transition_pair is_allowed_iff named_def)
  have rep_d: "choose_replacement pick d = Some b"
    using rep by (subst choose_replacement_cong
        [where c' = "c1\<lparr>co_workers := um_erase (cn_wid (co_conns c1 a)) (co_workers c1)\<rparr>"]) (simp_all add: d_def)
  define B where "B = fresh_authority draw A d"
  have t: "\<not> rt_terminal_recorded ?rd" "\<not> is_terminal (rt_state ?rd)"
    by (simp_all add: default_runtime_def is_terminal_def)
  have s2: "co_sent c2 = co_sent d @ [(b, dispatch_message (cn_wid (co_conns d b)) ?op B)]"
    and r2: "map_of (co_ops c2) ?op = Some (?rd\<lparr>rt_authority := B,
      rt_machine := OperationStateMachine OperationState.DISPATCHED, rt_attempt_count := 2\<rparr>)"
    using redispatch_state [OF rd [folded d_op] t rep_d, where draw = draw and cur = A]
    by (simp_all add: c2 B_def d_op)
  have "ae_attempt_generation B = Generation 2"
    by (simp add: B_def fresh_authority_def new_attempt_def Let_def case_prod_beta A_def
        first_authority_def gen_next_def)
  then have b: "B \<noteq> empty_envelope" by (auto simp: empty_envelope_def gen_zero_def)
  show "\<exists>wid. co_sent c1 = co_sent c @ [(a, dispatch_message wid ?op A)]" using f1(4) by blast
  have "co_sent d = co_sent c1" by (simp add: d_def)
  then show "\<exists>wid B r. co_sent c2 = co_sent c1 @ [(b, dispatch_message wid ?op B)] \<and>
      map_of (co_ops c2) ?op = Some r \<and> rt_authority r = B \<and> B \<noteq> empty_envelope \<and>
      rt_state r = OperationState.DISPATCHED \<and> \<not> rt_terminal_recorded r \<and> rt_terminal r = empty_envelope"
    using s2 r2 b t(1) by (auto simp: default_runtime_def)
qed

lemma outcome_moved_past: "has_outcome op out reg \<Longrightarrow> moved_past gen op reg"
  by (auto simp: has_outcome_def moved_past_def)

text \<open>
  C4: the operation of a lost worker is completed once, by its replacement. While the coordinator has
  accepted no completion yet (\<open>g_finished\<close> is never reset, and with it set no loss is recovered), a
  client asks for the dispatch of a new operation; the worker it is sent to is lost before its
  completion arrives; a replacement is registered. Then the operation is dispatched to the
  replacement, whose replies (not in mode \<open>fail\<close>) lead to the recorded outcome \<open>COMPLETED\<close> and one
  acknowledgement, and, if the writing succeeds, to a state file that holds it; and the completion the
  lost worker may still deliver is fenced and changes nothing. The handlers run one after the other.
\<close>

theorem replacement_completes_once:
  assumes "wm_type m = ProtocolMessage.DISPATCH" "co_workers c \<noteq> []"
    and "map_of (co_ops c) (wm_op m) = None" "\<not> co_finished c"
    and "a = pick (co_workers c)"
    and "choose_replacement pick (c\<lparr>co_workers := um_erase (cn_wid (co_conns c a)) (co_workers c)\<rparr>) = Some b"
    and "mode_a \<noteq> ''fail''" "mode_b \<noteq> ''fail''"
  shows "let c1 = handle_message draw pick client m c;
             c2 = connection_lost draw pick a now c1;
             c3 = fold (handle_message draw pick b) (wr_sends (worker_on reg_b mode_b (snd (last (co_sent c2))))) c2;
             late = last (wr_sends (worker_on reg_a mode_a (snd (last (co_sent c1)))));
             c4 = handle_message draw pick a late c3 in
    fst (last (co_sent c1)) = a \<and> fst (last (co_sent c2)) = b \<and>
    has_outcome (wm_op m) ''COMPLETED'' (co_ops c3) \<and>
    co_sent c3 = co_sent c2 @ [(b, ack_message (wm_op m))] \<and>
    co_saves c3 = Suc (co_saves c) \<and>
    (co_disk c (co_saves c) = Written \<longrightarrow> co_saved c3 = Some (save (co_store c3))) \<and>
    co_sent c4 = co_sent c3 @ [(a, fence_message (wm_op m))] \<and>
    map_of (co_ops c4) = map_of (co_ops c3)"
proof -
  define c1 where "c1 = handle_message draw pick client m c"
  define c2 where "c2 = connection_lost draw pick a now c1"
  define c3 where "c3 = fold (handle_message draw pick b)
    (wr_sends (worker_on reg_b mode_b (snd (last (co_sent c2))))) c2"
  define late where "late = last (wr_sends (worker_on reg_a mode_a (snd (last (co_sent c1)))))"
  note loss = dispatch_then_loss(1) [OF assms(1-6), where draw = draw and client = client, folded c1_def]
    dispatch_then_loss(2) [OF assms(1-6), where draw = draw and client = client and now = now, folded c1_def, folded c2_def]
  obtain wa where s1: "co_sent c1 = co_sent c @ [(a, dispatch_message wa (wm_op m) (first_authority draw pick c))]"
    using loss(1) by blast
  obtain wb r where s2: "co_sent c2 = co_sent c1 @ [(b, dispatch_message wb (wm_op m) (rt_authority r))]"
    and r: "map_of (co_ops c2) (wm_op m) = Some r" "\<not> rt_terminal_recorded r" "rt_terminal r = empty_envelope"
      "rt_state r = OperationState.DISPATCHED" "rt_authority r \<noteq> empty_envelope"
    using loss(2) by blast
  have c3: "c3 = fold (handle_message draw pick b)
      (wr_sends (worker_on reg_b mode_b (dispatch_message wb (wm_op m) (rt_authority r)))) c2"
    by (simp add: c3_def s2)
  note completed = worker_completes [OF r(1-3) disjI1 [OF r(4)] r(5) assms(8), of draw pick b reg_b wb, folded c3]
  have l: "wm_type late = ProtocolMessage.COMPLETE" "wm_op late = wm_op m"
    using worker_replies [OF assms(7), of reg_a wa "wm_op m" "first_authority draw pick c"]
    by (auto simp: late_def s1)
  note fenced = complete_fenced [OF outcome_moved_past [OF completed(2)] l order_refl, of draw pick a]
  have d: "co_disk c2 = co_disk c" "co_saves c2 = co_saves c"
    using other_message_saves [of m draw pick client c] assms(1) by (simp_all add: c2_def c1_def)
  show ?thesis
    unfolding Let_def c1_def [symmetric] c2_def [symmetric] c3_def [symmetric] late_def [symmetric]
    using completed fenced by (simp add: s1 s2 d)
qed

text \<open>Two registered workers, and one of them running the sample operation.\<close>

definition two_workers :: "unit Coord" where
  "two_workers = (co_start new_store ())\<lparr>co_workers := [(sample_id 1, 1), (sample_id 2, 2)],
     co_reg_order := [1, 2],
     co_conns := (\<lambda>cn. if cn = 1 then \<lparr>cn_worker = True, cn_wid = sample_id 1, cn_boot = sample_id 1, cn_running_op = False\<rparr>
       else if cn = 2 then \<lparr>cn_worker = True, cn_wid = sample_id 2, cn_boot = sample_id 2, cn_running_op = False\<rparr>
       else new_conn)\<rparr>"

definition one_running :: "unit Coord" where
  "one_running = two_workers\<lparr>co_store := running_store, co_running := Some 1, co_current_op := sample_id 7\<rparr>"

lemma two_workers_replacement:
  "choose_replacement (snd \<circ> hd) (two_workers\<lparr>co_workers := um_erase (cn_wid (co_conns two_workers 1)) (co_workers two_workers)\<rparr>) = Some 2"
  by (simp add: choose_replacement_def two_workers_def um_erase_def)

theorem lost_attempt_fenced_witness:
  "let c' = fold (\<lambda>(cn, m). handle_message (\<lambda>g. (5, g)) (snd \<circ> hd) cn m)
         [(2, default_message\<lparr>wm_type := ProtocolMessage.REGISTER, wm_worker := sample_id 9\<rparr>)]
         (connection_lost (\<lambda>g. (5, g)) (snd \<circ> hd) 1 0 one_running);
       c'' = handle_message (\<lambda>g. (5, g)) (snd \<circ> hd) 1 sample_complete c' in
   co_sent c'' = co_sent c' @ [(1, fence_message (co_current_op one_running))] \<and>
   map_of (co_ops c'') = map_of (co_ops c')"
proof (rule lost_attempt_fenced)
  show "map_of (co_ops one_running) (co_current_op one_running) = Some (default_runtime\<lparr>
     rt_machine := OperationStateMachine OperationState.RUNNING, rt_authority := sample_env 1\<rparr>)"
    by (simp add: one_running_def running_store_def)
  show "choose_replacement (snd \<circ> hd) (one_running\<lparr>co_workers := um_erase (cn_wid (co_conns one_running 1)) (co_workers one_running)\<rparr>) = Some 2"
    by (simp add: choose_replacement_def one_running_def two_workers_def um_erase_def)
qed (simp_all add: one_running_def two_workers_def co_start_def sample_complete_def no_dispatch_def
    sample_env_def default_message_def default_runtime_def)

theorem replacement_completes_once_witness:
  "let m = default_message\<lparr>wm_type := ProtocolMessage.DISPATCH, wm_op := sample_id 7\<rparr>;
       c1 = handle_message (\<lambda>g. (5, g)) (snd \<circ> hd) 0 m two_workers;
       c2 = connection_lost (\<lambda>g. (5, g)) (snd \<circ> hd) 1 0 c1;
       c3 = fold (handle_message (\<lambda>g. (5, g)) (snd \<circ> hd) 2)
         (wr_sends (worker_on default_message ''normal'' (snd (last (co_sent c2))))) c2 in
   fst (last (co_sent c2)) = 2 \<and> has_outcome (sample_id 7) ''COMPLETED'' (co_ops c3) \<and>
   co_sent c3 = co_sent c2 @ [(2, ack_message (sample_id 7))] \<and> co_saved c3 = Some (save (co_store c3))"
proof -
  let ?m = "default_message\<lparr>wm_type := ProtocolMessage.DISPATCH, wm_op := sample_id 7\<rparr>"
  have h: "wm_type ?m = ProtocolMessage.DISPATCH" "co_workers two_workers \<noteq> []"
    "map_of (co_ops two_workers) (wm_op ?m) = None" "\<not> co_finished two_workers"
    "1 = (snd \<circ> hd) (co_workers two_workers)" "''slow'' \<noteq> ''fail''" "''normal'' \<noteq> ''fail''"
    by (simp_all add: two_workers_def co_start_def new_store_def)
  show ?thesis
    using replacement_completes_once [OF h(1-5) two_workers_replacement h(6,7), where draw = "\<lambda>g. (5, g)"
        and client = 0 and now = 0 and reg_b = default_message and reg_a = default_message]
    by (simp add: Let_def) (simp add: two_workers_def co_start_def)
qed

text \<open>
  A completion can be acknowledged without being recorded. The two registry calls of the
  completion handler are not under one lock. If a client's request to dispatch the operation again
  is handled in between, with a drawn attempt that is not null and not the reported one, the
  confirmation is refused as stale, and the worker gets its acknowledgement all the same: the
  operation is open, and the coordinator counts the run as finished.
\<close>

lemma unlocked_completion_race:
  assumes "complete_report m c = (ApplyResult.OK, c1)"
    and "wm_type d = ProtocolMessage.DISPATCH" "wm_op d = wm_op m" "co_workers c \<noteq> []"
    and "\<not> is_null (fst (drawn_attempt draw c1))" "fst (drawn_attempt draw c1) \<noteq> ae_attempt (wm_authority m)"
    and "c3 = complete_reply cn m ApplyResult.OK (handle_message draw pick client d c1)"
  shows "last (co_sent c3) = (cn, ack_message (wm_op m)) \<and> co_finished c3 \<and>
    \<not> rt_terminal_recorded (the (map_of (co_ops c3) (wm_op m)))"
proof -
  let ?op = "wm_op m" and ?F = "first_authority draw pick c1"
  define c2 where "c2 = handle_message draw pick client d c1"
  have rep: "fst (reg_report_completion ?op (wm_authority m) False (co_ops c)) = ApplyResult.OK"
    and ops1: "co_ops c1 = snd (reg_report_completion ?op (wm_authority m) False (co_ops c))"
    and w1: "co_workers c1 = co_workers c"
    using assms(1) co_reg_simps [of "reg_report_completion ?op (wm_authority m) False" c]
    by (simp_all add: complete_report_def)
  obtain r where r: "map_of (co_ops c) ?op = Some r"
    using rep by (auto simp: reg_report_completion_def on_op_def split: option.splits)
  then have nr: "\<not> rt_terminal_recorded r"
    and r1: "map_of (co_ops c1) ?op =
      Some (r\<lparr>rt_machine := OperationStateMachine OperationState.COMPLETION_REPORTED\<rparr>)"
    using rep by (auto simp: ops1 reg_report_completion_def on_op_def case_prod_beta rt_report_completion_def
        sm_transition_pair split: if_splits)
  have c2: "c2 = on_dispatch draw pick d c1" by (simp add: c2_def handle_message_def assms(2))
  have "\<exists>r2. map_of (co_ops c2) ?op = Some r2 \<and> rt_authority r2 = ?F \<and> \<not> rt_terminal_recorded r2"
    using r1 nr assms(4) w1
    by (simp add: c2 on_dispatch_eq assms(3) drawn_attempt_def reg_create_def reg_dispatch_def reg_run_def
        on_op_def case_prod_beta rt_dispatch_def rt_run_def is_terminal_def sm_transition_pair)
  then obtain r2 where r2: "map_of (co_ops c2) ?op = Some r2" "rt_authority r2 = ?F" "\<not> rt_terminal_recorded r2"
    by blast
  have "\<not> fence_accepted (fence_failure (wm_authority m) ?F)"
    using assms(5,6) by (intro failure_fence.fences_other_attempt) (simp_all add: first_authority_def)
  then have "\<not> fence_accepted (fence_completion (wm_authority m) ?F (rt_terminal r2))"
    using fence_completion_implies_failure by blast
  then have "map_of (snd (reg_confirm_completion ?op (wm_authority m) (co_ops c2))) ?op = Some r2"
    using r2 by (simp add: reg_confirm_completion_def on_op_def rt_confirm_completion_def)
  then show ?thesis
    using r2(3) by (simp add: assms(7) c2_def [symmetric] complete_reply_def Let_def ack_message_def)
qed

end
