(* ===== verification/FF_Threads.thy ===== *)
theory FF_Threads
  imports FF_Coordinator
begin

text \<open>
  The threads of the coordinator (\<open>src/coordinator.cpp\<close>), at the grain at which they interleave. Each
  connection has a thread; its code is a sequence of atomic actions on the shared state. Every mutex
  the code takes is modelled: \<open>g_mu\<close>, the one of the failure store, the one of the registry (around
  each registry call) and the one of each socket (around each \<open>send\<close>). A \<open>send\<close> returns only when the
  peer takes data or the connection is broken; until then its thread waits, with the mutexes it holds.
  Reads of globals outside \<open>g_mu\<close> are atomic actions here; in C++ they are data races. The theory
  relates this system to the whole handlers of \<open>FF_Coordinator\<close> and shows what holds under every
  interleaving: nothing recorded is undone, the mutexes cannot deadlock, and completions are not
  acknowledged more often than the operation was dispatched.
\<close>

subsection \<open>Code of a thread\<close>

text \<open>\<open>mu_\<close> of the store, \<open>mu_\<close> of the registry, and \<open>wmu_\<close> of a connection's socket.\<close>

datatype mutex = G_mu | Log_mu | Reg_mu | Write_mu ConnId

text \<open>
  \<open>Call e k\<close> is the body of a registry call; \<open>k\<close> goes on with its result. \<open>Send cn m k\<close> is the body of
  \<open>TcpSocket::send\<close>.
\<close>

datatype 'g code =
    Done
  | Lock mutex "'g code"
  | Unlock mutex "'g code"
  | Act "'g Coord \<Rightarrow> 'g Coord \<times> 'g code"
  | Call "'g Coord \<Rightarrow> reg_event" "ApplyResult \<Rightarrow> 'g code"
  | Send ConnId WireMessage "'g code"

text \<open>Code run to its end by a thread that is not interrupted.\<close>

primrec exec :: "'g code \<Rightarrow> 'g Coord \<Rightarrow> 'g Coord" where
  "exec Done = (\<lambda>c. c)"
| "exec (Lock m k) = exec k"
| "exec (Unlock m k) = exec k"
| "exec (Act f) = (\<lambda>c. case map_prod id exec (f c) of (c', e) \<Rightarrow> e c')"
| "exec (Call e k) = (\<lambda>c. exec (k (fst (co_reg (reg_apply (e c)) c))) (snd (co_reg (reg_apply (e c)) c)))"
| "exec (Send cn m k) = (\<lambda>c. exec k (send_msg cn m c))"

subsection \<open>Handlers\<close>

definition reg_code :: "('g Coord \<Rightarrow> reg_event) \<Rightarrow> (ApplyResult \<Rightarrow> 'g code) \<Rightarrow> 'g code" where
  "reg_code e k = Lock Reg_mu (Call e (\<lambda>res. Unlock Reg_mu (k res)))"

definition send_code :: "ConnId \<Rightarrow> WireMessage \<Rightarrow> 'g code \<Rightarrow> 'g code" where
  "send_code cn m k = Lock (Write_mu cn) (Send cn m (Unlock (Write_mu cn) k))"

text \<open>
  \<open>save\<close> holds the mutex of the store, but takes the one of the registry for \<open>operations\<close> and for each
  \<open>find\<close> only: another thread may change the registry in between. A runtime is read after \<open>find\<close> has
  released the mutex, through the pointer it returned.
\<close>

primrec save_ops_code :: "OperationId list \<Rightarrow> byte list \<Rightarrow> (byte list \<Rightarrow> 'g code) \<Rightarrow> 'g code" where
  "save_ops_code [] = (\<lambda>data k. k data)"
| "save_ops_code (op # ops) = (\<lambda>data k.
     Lock Reg_mu (Act (\<lambda>c. (c, Unlock Reg_mu (case reg_find op (co_ops c) of
         None \<Rightarrow> save_ops_code ops data k
       | Some _ \<Rightarrow>
     Act (\<lambda>c. (c, save_ops_code ops (data @ (case reg_find op (co_ops c) of None \<Rightarrow> []
         | Some rt \<Rightarrow> write_frame K_OP (buffer (save_op op rt)))) k)))))))"

definition save_code :: "'g code \<Rightarrow> 'g code" where
  "save_code k =
     Lock Log_mu (Act (\<lambda>c.
       if co_disk c (co_saves c) = NotOpened then (c\<lparr>co_saves := Suc (co_saves c)\<rparr>, Unlock Log_mu k)
       else let data = write_frame 0 (buffer (save_header (co_store c))) @
         concat (map (\<lambda>kv. write_frame K_FAIL (buffer (encode_failure_record (snd kv))))
           (fs_failures (co_store c))) in (c,
     Lock Reg_mu (Act (\<lambda>c. (c, Unlock Reg_mu (save_ops_code (reg_operations (co_ops c)) data (\<lambda>data.
     Act (\<lambda>c. let data = data @
         concat (map (\<lambda>e. write_frame K_ID (buffer (save_entry e))) (idem_collect (fs_idem (co_store c)))) @
         write_frame K_OWN (buffer (save_ownership (fs_ownership (co_store c)))) in
       (c\<lparr>co_saved := snd (write_file (co_disk c (co_saves c)) data (co_saved c)),
          co_saves := Suc (co_saves c)\<rparr>,
     Unlock Log_mu k))))))))))"

text \<open>
  \<open>dispatch_to\<close> takes the operation by reference: \<open>op\<close> is how it is read at the time it is used.
\<close>

definition dispatch_code ::
  "ConnId \<Rightarrow> ('g Coord \<Rightarrow> OperationId) \<Rightarrow> AuthorityEnvelope \<Rightarrow> 'g code \<Rightarrow> 'g code" where
  "dispatch_code cn op authority k =
     Act (\<lambda>c. (c, send_code cn (default_message\<lparr>wm_type := ProtocolMessage.DISPATCH, wm_op := op c,
                 wm_attempt := ae_attempt authority, wm_authority := authority,
                 wm_worker := cn_wid (co_conns c cn)\<rparr>) (
     Lock G_mu (Act (\<lambda>c. (c\<lparr>co_conns := (co_conns c)(cn := (co_conns c cn)\<lparr>cn_running_op := True\<rparr>),
                 co_running := Some cn, co_current_op := op c\<rparr>,
     Unlock G_mu k))))))"

text \<open>The acknowledgement of a registration is sent with \<open>g_mu\<close> held.\<close>

definition register_code :: "('g \<Rightarrow> u64 \<times> 'g) \<Rightarrow> ConnId \<Rightarrow> WireMessage \<Rightarrow> 'g code" where
  "register_code draw cn m =
     Lock G_mu (Act (\<lambda>c.
       let (wid, c) = (if is_null (wm_worker m) then fresh_id draw c else (wm_worker m, c)) in
       (c\<lparr>co_conns := (co_conns c)(cn := (co_conns c cn)\<lparr>cn_worker := True, cn_wid := wid,
            cn_boot := wm_boot m\<rparr>),
          co_workers := um_assign wid cn (co_workers c),
          co_reg_order := co_reg_order c @ [cn]\<rparr>,
     send_code cn (default_message\<lparr>wm_type := ProtocolMessage.REGISTER_ACK, wm_worker := wid\<rparr>) (
     Unlock G_mu Done))))"

definition dispatch_request_code ::
  "('g \<Rightarrow> u64 \<times> 'g) \<Rightarrow> ((WorkerId, ConnId) umap \<Rightarrow> ConnId) \<Rightarrow> WireMessage \<Rightarrow> 'g code" where
  "dispatch_request_code draw pick m =
     Act (\<lambda>c. let (att, c) = fresh_id draw c;
                  auth = empty_envelope\<lparr>ae_coordinator_epoch := Generation 1, ae_attempt := att,
                    ae_attempt_generation := Generation 1, ae_operation_generation := Generation 1,
                    ae_worker_boot := (if co_workers c = [] then null_id
                      else cn_boot (co_conns c (pick (co_workers c))))\<rparr> in (c,
     Lock G_mu (Act (\<lambda>c. (c, if co_workers c = [] then Unlock G_mu Done
       else let target = pick (co_workers c) in
     reg_code (\<lambda>_. Create (wm_op m) auth) (\<lambda>_.
     reg_code (\<lambda>_. Dispatch (wm_op m) auth) (\<lambda>_.
     Unlock G_mu (dispatch_code target (\<lambda>_. wm_op m) auth (
     reg_code (\<lambda>_. Run (wm_op m) auth) (\<lambda>_. Done))))))))))"

definition running_code :: "WireMessage \<Rightarrow> 'g code" where
  "running_code m =
     Lock G_mu (reg_code (\<lambda>_. Run (wm_op m) (wm_authority m)) (\<lambda>_. Unlock G_mu Done))"

definition complete_code :: "ConnId \<Rightarrow> WireMessage \<Rightarrow> 'g code" where
  "complete_code cn m =
     reg_code (\<lambda>_. ReportCompletion (wm_op m) (wm_authority m) False) (\<lambda>fr.
       if fr = ApplyResult.OK then
     reg_code (\<lambda>_. ConfirmCompletion (wm_op m) (wm_authority m)) (\<lambda>_.
     send_code cn (ack_message (wm_op m)) (
     Lock G_mu (Act (\<lambda>c. (c\<lparr>co_finished := True\<rparr>,
     save_code (Unlock G_mu Done))))))
       else send_code cn (fence_message (wm_op m)) Done)"

definition failure_code :: "WireMessage \<Rightarrow> 'g code" where
  "failure_code m =
     Lock G_mu (reg_code (\<lambda>_. ReportFailure (wm_op m) (wm_authority m) (wm_flag m)) (\<lambda>_. Unlock G_mu Done))"

definition message_code ::
  "('g \<Rightarrow> u64 \<times> 'g) \<Rightarrow> ((WorkerId, ConnId) umap \<Rightarrow> ConnId) \<Rightarrow> ConnId \<Rightarrow> WireMessage \<Rightarrow> 'g code" where
  "message_code draw pick cn m =
     (case wm_type m of
        ProtocolMessage.REGISTER \<Rightarrow> register_code draw cn m
      | ProtocolMessage.DISPATCH \<Rightarrow> dispatch_request_code draw pick m
      | ProtocolMessage.RUNNING \<Rightarrow> running_code m
      | ProtocolMessage.COMPLETE \<Rightarrow> complete_code cn m
      | ProtocolMessage.FAILURE \<Rightarrow> failure_code m
      | _ \<Rightarrow> Done)"

text \<open>The end of a connection's thread, after its read loop.\<close>

definition redispatch_code ::
  "('g \<Rightarrow> u64 \<times> 'g) \<Rightarrow> ((WorkerId, ConnId) umap \<Rightarrow> ConnId) \<Rightarrow> AuthorityEnvelope \<Rightarrow> 'g code" where
  "redispatch_code draw pick cur =
     Act (\<lambda>c. let (fresh, c) = new_attempt draw cur c in (c,
     Lock G_mu (Act (\<lambda>c. (c, case choose_replacement pick c of
         None \<Rightarrow> Unlock G_mu Done
       | Some cn \<Rightarrow>
     reg_code (\<lambda>c. Dispatch (co_current_op c) fresh) (\<lambda>_.
     Unlock G_mu (Lock Reg_mu (Act (\<lambda>c. (c, Unlock Reg_mu (
       if \<not> is_terminal (reg_state (co_current_op c) (co_ops c))
       then dispatch_code cn co_current_op fresh Done else Done)))))))))))"

text \<open>
  \<open>current_authority\<close> returns a reference, which is copied after its mutex is released; as authorities
  change under \<open>g_mu\<close> only, which is held here, the copy is taken with the reference.
\<close>

definition recover_code ::
  "('g \<Rightarrow> u64 \<times> 'g) \<Rightarrow> ((WorkerId, ConnId) umap \<Rightarrow> ConnId) \<Rightarrow> u64 \<Rightarrow> 'g code" where
  "recover_code draw pick now =
     Lock G_mu (Lock Reg_mu (Act (\<lambda>c. let cur = reg_current_authority (co_current_op c) (co_ops c) in (c,
     Unlock Reg_mu (Act (\<lambda>c. let (boot, c) = fresh_id draw c in
       (c\<lparr>co_store := (co_store c)\<lparr>fs_ownership :=
           snd (transfer RecoveryOwner.REPLACEMENT_WORKER (gen_next (ae_recovery_generation cur))
             boot cur (fs_ownership (co_store c)))\<rparr>\<rparr>,
     Unlock G_mu (Act (\<lambda>c. let b = lost_record (co_current_op c) cur now in (c,
     Lock G_mu (Act (\<lambda>c. let (rec, g) = build draw b (co_rng c) in (c\<lparr>co_rng := g\<rparr>,
     Lock Log_mu (Act (\<lambda>c. (c\<lparr>co_store := snd (append_failure rec (co_store c))\<rparr>,
     Unlock Log_mu (reg_code (\<lambda>c. ReportFailure (co_current_op c) cur True) (\<lambda>_.
     Unlock G_mu (redispatch_code draw pick cur)))))))))))))))))))"

definition lost_code ::
  "('g \<Rightarrow> u64 \<times> 'g) \<Rightarrow> ((WorkerId, ConnId) umap \<Rightarrow> ConnId) \<Rightarrow> ConnId \<Rightarrow> u64 \<Rightarrow> 'g code" where
  "lost_code draw pick cn now =
     Lock G_mu (Act (\<lambda>c.
       if co_running c = Some cn
       then (c\<lparr>co_workers := um_erase (cn_wid (co_conns c cn)) (co_workers c), co_running := None\<rparr>,
         Unlock G_mu (Act (\<lambda>c. (c, if co_finished c then Done else recover_code draw pick now))))
       else (c, Unlock G_mu Done)))"

lemmas handler_codes = message_code_def register_code_def dispatch_request_code_def running_code_def
  complete_code_def failure_code_def dispatch_code_def lost_code_def recover_code_def redispatch_code_def
  reg_code_def send_code_def save_code_def

subsection \<open>The system\<close>

text \<open>
  The shared state, the holder of each mutex, the code each connection's thread has still to run, the
  connections whose threads have ended, the connections on which \<open>send\<close> returns, and, as a ghost, the
  registry calls made so far with their results.
\<close>

record 'g Sys =
  sy_coord :: "'g Coord"
  sy_mutex :: "mutex \<Rightarrow> ConnId option"
  sy_code :: "ConnId \<Rightarrow> 'g code"
  sy_gone :: "ConnId set"
  sy_room :: "ConnId set"
  sy_calls :: "(reg_event \<times> ApplyResult) list"

definition sys_start :: "'g Coord \<Rightarrow> 'g Sys" where
  "sys_start c = \<lparr>sy_coord = c, sy_mutex = (\<lambda>_. None), sy_code = (\<lambda>_. Done), sy_gone = {},
     sy_room = UNIV, sy_calls = []\<rparr>"

definition goto :: "ConnId \<Rightarrow> 'g code \<Rightarrow> 'g Sys \<Rightarrow> 'g Sys" where
  "goto cn k s = s\<lparr>sy_code := (sy_code s)(cn := k)\<rparr>"

definition hold :: "mutex \<Rightarrow> ConnId option \<Rightarrow> 'g Sys \<Rightarrow> 'g Sys" where
  "hold m h s = s\<lparr>sy_mutex := (sy_mutex s)(m := h)\<rparr>"

text \<open>The effect of a registry call, with its record in the history.\<close>

definition call_sys :: "reg_event \<Rightarrow> 'g Sys \<Rightarrow> 'g Sys" where
  "call_sys e s = s\<lparr>sy_coord := snd (co_reg (reg_apply e) (sy_coord s)),
     sy_calls := sy_calls s @ [(e, fst (co_reg (reg_apply e) (sy_coord s)))]\<rparr>"

lemma goto_simps [simp]:
  "sy_code (goto cn k s) = (sy_code s)(cn := k)" "sy_coord (goto cn k s) = sy_coord s"
  "sy_mutex (goto cn k s) = sy_mutex s" "sy_gone (goto cn k s) = sy_gone s"
  "sy_room (goto cn k s) = sy_room s" "sy_calls (goto cn k s) = sy_calls s"
  by (simp_all add: goto_def)

lemma hold_simps [simp]:
  "sy_code (hold m h s) = sy_code s" "sy_coord (hold m h s) = sy_coord s"
  "sy_mutex (hold m h s) = (sy_mutex s)(m := h)" "sy_gone (hold m h s) = sy_gone s"
  "sy_room (hold m h s) = sy_room s" "sy_calls (hold m h s) = sy_calls s"
  by (simp_all add: hold_def)

lemma call_sys_simps [simp]:
  "sy_code (call_sys e s) = sy_code s" "sy_coord (call_sys e s) = snd (co_reg (reg_apply e) (sy_coord s))"
  "sy_mutex (call_sys e s) = sy_mutex s" "sy_gone (call_sys e s) = sy_gone s"
  "sy_room (call_sys e s) = sy_room s"
  "sy_calls (call_sys e s) = sy_calls s @ [(e, fst (reg_apply e (co_ops (sy_coord s))))]"
  by (simp_all add: call_sys_def)

text \<open>A step of a thread's own code.\<close>

inductive run_step :: "ConnId \<Rightarrow> 'g Sys \<Rightarrow> 'g Sys \<Rightarrow> bool" where
  acquire: "sy_code s cn = Lock m k \<Longrightarrow> sy_mutex s m = None \<Longrightarrow>
    run_step cn s (goto cn k (hold m (Some cn) s))"
| release: "sy_code s cn = Unlock m k \<Longrightarrow>
    run_step cn s (goto cn k (hold m None s))"
| act: "sy_code s cn = Act f \<Longrightarrow>
    run_step cn s (goto cn (snd (f (sy_coord s))) (s\<lparr>sy_coord := fst (f (sy_coord s))\<rparr>))"
| call: "sy_code s cn = Call e k \<Longrightarrow>
    run_step cn s (goto cn (k (fst (reg_apply (e (sy_coord s)) (co_ops (sy_coord s)))))
      (call_sys (e (sy_coord s)) s))"
| send: "sy_code s cn = Send peer m k \<Longrightarrow> peer \<in> sy_room s \<Longrightarrow>
    run_step cn s (goto cn k (s\<lparr>sy_coord := send_msg peer m (sy_coord s)\<rparr>))"

inductive_cases run_step_E: "run_step cn s s'"

text \<open>
  A step of the system: of a thread; a message read or a connection lost by an idle thread; or peers
  that begin or cease to take data.
\<close>

inductive sys_step ::
  "('g \<Rightarrow> u64 \<times> 'g) \<Rightarrow> ((WorkerId, ConnId) umap \<Rightarrow> ConnId) \<Rightarrow> 'g Sys \<Rightarrow> 'g Sys \<Rightarrow> bool"
  for draw pick where
  thread: "run_step cn s s' \<Longrightarrow> sys_step draw pick s s'"
| receive: "sy_code s cn = Done \<Longrightarrow> cn \<notin> sy_gone s \<Longrightarrow>
    sys_step draw pick s (goto cn (message_code draw pick cn m) s)"
| disconnect: "sy_code s cn = Done \<Longrightarrow> cn \<notin> sy_gone s \<Longrightarrow>
    sys_step draw pick s (goto cn (lost_code draw pick cn now) (s\<lparr>sy_gone := insert cn (sy_gone s)\<rparr>))"
| peers: "sys_step draw pick s (s\<lparr>sy_room := room\<rparr>)"

abbreviation reachable ::
  "('g \<Rightarrow> u64 \<times> 'g) \<Rightarrow> ((WorkerId, ConnId) umap \<Rightarrow> ConnId) \<Rightarrow> 'g Coord \<Rightarrow> 'g Sys \<Rightarrow> bool" where
  "reachable draw pick c \<equiv> (sys_step draw pick)\<^sup>*\<^sup>* (sys_start c)"

lemma sys_reach_induct [consumes 1, case_names start thread receive disconnect peers]:
  assumes "reachable draw pick c s" "P (sys_start c)"
    and "\<And>cn s s'. P s \<Longrightarrow> run_step cn s s' \<Longrightarrow> P s'"
    and "\<And>cn m s. P s \<Longrightarrow> sy_code s cn = Done \<Longrightarrow>
      P (goto cn (message_code draw pick cn m) s)"
    and "\<And>cn now s. P s \<Longrightarrow> sy_code s cn = Done \<Longrightarrow>
      P (goto cn (lost_code draw pick cn now) (s\<lparr>sy_gone := insert cn (sy_gone s)\<rparr>))"
    and "\<And>room s. P s \<Longrightarrow> P (s\<lparr>sy_room := room\<rparr>)"
  shows "P s"
  using assms(1)
proof (induction rule: rtranclp_induct)
  case (step s s')
  from step.hyps(2) show ?case
    by cases (use step.IH assms(3-6) in auto)
qed (rule assms(2))

subsection \<open>Predicates on code\<close>

text \<open>
  Every registry call of the code is one the coordinator makes, and every other action, which leaves
  the registry alone, relates the states before and after it.
\<close>

inductive all_acts :: "('g Coord \<Rightarrow> 'g Coord \<Rightarrow> bool) \<Rightarrow> 'g code \<Rightarrow> bool" for R where
  all_Done: "all_acts R Done"
| all_Lock: "all_acts R k \<Longrightarrow> all_acts R (Lock m k)"
| all_Unlock: "all_acts R k \<Longrightarrow> all_acts R (Unlock m k)"
| all_Act: "(\<And>c. co_ops (fst (f c)) = co_ops c \<and> R c (fst (f c))) \<Longrightarrow> (\<And>c. all_acts R (snd (f c))) \<Longrightarrow>
    all_acts R (Act f)"
| all_Call: "(\<And>c. co_call (e c)) \<Longrightarrow> (\<And>res. all_acts R (k res)) \<Longrightarrow> all_acts R (Call e k)"
| all_Send: "(\<And>c. R c (send_msg cn m c)) \<Longrightarrow> all_acts R k \<Longrightarrow> all_acts R (Send cn m k)"

inductive_simps all_acts_simps [simp]:
  "all_acts R Done" "all_acts R (Lock m k)" "all_acts R (Unlock m k)" "all_acts R (Act f)"
  "all_acts R (Call e k)" "all_acts R (Send cn m k)"

text \<open>
  The discipline of the mutexes: they are taken in the order of their ranks and released in the opposite
  one, registry calls and sends are made under the mutex meant for them, and the code ends with none
  held. \<open>held\<close> lists the mutexes held, the last one taken first.
\<close>

fun rank :: "mutex \<Rightarrow> nat" where
  "rank G_mu = 0"
| "rank Log_mu = 1"
| "rank Reg_mu = 2"
| "rank (Write_mu cn) = 3"

inductive ordered :: "mutex list \<Rightarrow> 'g code \<Rightarrow> bool" where
  ord_Done: "ordered [] Done"
| ord_Lock: "ordered (m # held) k \<Longrightarrow> \<forall>m' \<in> set held. rank m' < rank m \<Longrightarrow> ordered held (Lock m k)"
| ord_Unlock: "ordered held k \<Longrightarrow> ordered (m # held) (Unlock m k)"
| ord_Act: "(\<And>c. ordered held (snd (f c))) \<Longrightarrow> ordered held (Act f)"
| ord_Call: "(\<And>res. ordered (Reg_mu # held) (k res)) \<Longrightarrow> ordered (Reg_mu # held) (Call e k)"
| ord_Send: "ordered (Write_mu cn # held) k \<Longrightarrow> ordered (Write_mu cn # held) (Send cn m k)"

inductive_simps ordered_simps [simp]:
  "ordered held Done" "ordered held (Lock m k)" "ordered held (Unlock m k)" "ordered held (Act f)"
  "ordered held (Call e k)" "ordered held (Send cn m k)"

lemma save_code_ordered: "ordered held k \<Longrightarrow> \<forall>m \<in> set held. rank m = 0 \<Longrightarrow> ordered held (save_code k)"
proof -
  have ops: "(\<And>data. ordered held' (j data)) \<Longrightarrow> \<forall>m \<in> set held'. rank m \<le> 1 \<Longrightarrow>
      ordered held' (save_ops_code ops data j)" for ops data held' and j :: "byte list \<Rightarrow> 'a code"
    by (induction ops arbitrary: data) (fastforce split: option.split)+
  assume "ordered held k" "\<forall>m \<in> set held. rank m = 0"
  then show ?thesis by (fastforce simp: save_code_def Let_def intro!: ops)
qed

lemma handlers_ordered: "ordered [] (message_code draw pick cn m)" "ordered [] (lost_code draw pick cn now)"
proof -
  note defs = handler_codes(1-12) Let_def case_prod_beta save_code_ordered
  show "ordered [] (message_code draw pick cn m)"
    by (cases "wm_type m") (simp_all add: defs)
  show "ordered [] (lost_code draw pick cn now)"
    by (simp add: defs split: option.split)
qed

subsection \<open>Threads that are not interrupted\<close>

lemma exec_Act: "exec (Act f) c = exec (snd (f c)) (fst (f c))"
  by (simp add: case_prod_beta)

declare exec.simps(4) [simp del]
declare exec_Act [simp]

lemma reg_apply_fun [simp]:
  "reg_apply (Create op a) = reg_create op a" "reg_apply (Dispatch op a) = reg_dispatch op a"
  "reg_apply (Run op a) = reg_run op a" "reg_apply (ReportCompletion op a p) = reg_report_completion op a p"
  "reg_apply (ConfirmCompletion op a) = reg_confirm_completion op a"
  "reg_apply (ReportFailure op a p) = reg_report_failure op a p"
  by (rule ext, simp)+

lemma exec_wrappers [simp]:
  "exec (reg_code e k) c = exec (k (fst (co_reg (reg_apply (e c)) c))) (snd (co_reg (reg_apply (e c)) c))"
  "exec (send_code cn m j) c = exec j (send_msg cn m c)"
  by (simp_all add: reg_code_def send_code_def)

lemma exec_save_ops_code:
  "exec (save_ops_code ops data k) c = exec (k (data @ concat (map (\<lambda>op. case reg_find op (co_ops c) of
     None \<Rightarrow> [] | Some rt \<Rightarrow> write_frame K_OP (buffer (save_op op rt))) ops))) c"
  by (induction ops arbitrary: data) (simp_all split: option.split)

lemma exec_save_code: "exec (save_code k) c = exec k (save_state c)"
proof (cases "co_disk c (co_saves c) = NotOpened")
  case True
  have "c\<lparr>co_saved := co_saved c\<rparr> = c" by simp
  then have "c\<lparr>co_saved := co_saved c, co_saves := n\<rparr> = c\<lparr>co_saves := n\<rparr>" for n by metis
  then show ?thesis using True by (simp add: save_code_def save_state_def save_file_def write_file_def)
next
  case False
  have "write_file w data f = (fst (write_file w data f), snd (write_file w data f))" for w data f by simp
  then show ?thesis using False
    by (simp add: save_code_def save_state_def save_file_def Let_def exec_save_ops_code case_prod_beta save_def)
qed

lemma exec_dispatch_code:
  "exec (dispatch_code cn (\<lambda>_. op) a k) c = exec k (dispatch_to cn op a c)"
  "exec (dispatch_code cn co_current_op a k) c = exec k (dispatch_to cn (co_current_op c) a c)"
  by (cases c; simp add: dispatch_code_def dispatch_to_def send_msg_def Let_def)+

lemma exec_message_code: "exec (message_code draw pick cn m) c = handle_message draw pick cn m c"
  by (cases "wm_type m")
    (simp_all add: message_code_def handle_message_def register_code_def on_register_def
      dispatch_request_code_def on_dispatch_def running_code_def on_running_def failure_code_def
      on_failure_def complete_code_def complete_defs exec_dispatch_code exec_save_code Let_def
      case_prod_beta ack_message_def fence_message_def)

lemma exec_redispatch_code: "exec (redispatch_code draw pick cur) c = redispatch draw pick cur c"
  by (simp add: redispatch_code_def redispatch_def exec_dispatch_code Let_def case_prod_beta split: option.split)

lemma exec_lost_code: "exec (lost_code draw pick cn now) c = connection_lost draw pick cn now c"
  by (simp add: lost_code_def connection_lost_def recover_code_def recover_operation_def record_loss_def
      exec_redispatch_code Let_def case_prod_beta)

text \<open>The system that differs from \<open>s\<close> as if a thread had run to the end of its code.\<close>

definition ended :: "ConnId \<Rightarrow> 'g Coord \<Rightarrow> (reg_event \<times> ApplyResult) list \<Rightarrow> 'g Sys \<Rightarrow> 'g Sys" where
  "ended cn c calls s = s\<lparr>sy_coord := c, sy_mutex := (\<lambda>_. None), sy_code := (sy_code s)(cn := Done),
     sy_calls := calls\<rparr>"

lemma ended_again:
  "ended cn c calls (goto cn k s) = ended cn c calls s" "ended cn c calls (hold m h s) = ended cn c calls s"
  "ended cn c calls (call_sys e s) = ended cn c calls s"
  "ended cn c calls (s\<lparr>sy_coord := c'\<rparr>) = ended cn c calls s"
  by (simp_all add: ended_def goto_def hold_def call_sys_def)

text \<open>A thread that is not interrupted gets to the end of its code, with the effect of \<open>exec\<close>.\<close>

lemma run_to_end:
  assumes "ordered held k" "sy_code s cn = k" "distinct held" "sy_room s = UNIV"
    and "\<And>m. sy_mutex s m = (if m \<in> set held then Some cn else None)"
  shows "\<exists>calls. (run_step cn)\<^sup>*\<^sup>* s (ended cn (exec k (sy_coord s)) calls s)"
  using assms
proof (induction arbitrary: s)
  case ord_Done
  then have "sy_mutex s = (\<lambda>_. None)" "(sy_code s)(cn := Done) = sy_code s" by auto
  then have "ended cn (exec Done (sy_coord s)) (sy_calls s) s = s" by (cases s) (simp add: ended_def)
  then show ?case by (metis rtranclp.rtrancl_refl)
next
  case (ord_Lock m held k)
  let ?s = "goto cn k (hold m (Some cn) s)"
  have free: "m \<notin> set held" using ord_Lock.hyps by auto
  have "run_step cn s ?s" using ord_Lock.prems free by (intro acquire) simp_all
  moreover have "\<exists>calls. (run_step cn)\<^sup>*\<^sup>* ?s (ended cn (exec k (sy_coord ?s)) calls ?s)"
    using ord_Lock.prems free by (intro ord_Lock.IH) simp_all
  ultimately show ?case by (auto simp: ended_again intro: converse_rtranclp_into_rtranclp)
next
  case (ord_Unlock held k m)
  let ?s = "goto cn k (hold m None s)"
  have "run_step cn s ?s" using ord_Unlock.prems by (intro release) simp_all
  moreover have "\<exists>calls. (run_step cn)\<^sup>*\<^sup>* ?s (ended cn (exec k (sy_coord ?s)) calls ?s)"
    using ord_Unlock.prems by (intro ord_Unlock.IH) auto
  ultimately show ?case by (auto simp: ended_again intro: converse_rtranclp_into_rtranclp)
next
  case (ord_Act held f)
  let ?c = "fst (f (sy_coord s))" and ?k = "snd (f (sy_coord s))"
  let ?s = "goto cn ?k (s\<lparr>sy_coord := ?c\<rparr>)"
  have "run_step cn s ?s" using ord_Act.prems by (intro run_step.act) simp_all
  moreover have "\<exists>calls. (run_step cn)\<^sup>*\<^sup>* ?s (ended cn (exec ?k (sy_coord ?s)) calls ?s)"
    using ord_Act.prems by (intro ord_Act.IH) simp_all
  ultimately show ?case by (auto simp: ended_again intro: converse_rtranclp_into_rtranclp)
next
  case (ord_Call held k e)
  let ?e = "e (sy_coord s)"
  let ?k = "k (fst (reg_apply ?e (co_ops (sy_coord s))))"
  let ?s = "goto cn ?k (call_sys ?e s)"
  have "run_step cn s ?s" using ord_Call.prems by (intro run_step.call) simp_all
  moreover have "\<exists>calls. (run_step cn)\<^sup>*\<^sup>* ?s (ended cn (exec ?k (sy_coord ?s)) calls ?s)"
    using ord_Call.prems by (intro ord_Call.IH) simp_all
  ultimately show ?case by (auto simp: ended_again intro: converse_rtranclp_into_rtranclp)
next
  case (ord_Send peer held k m)
  let ?s = "goto cn k (s\<lparr>sy_coord := send_msg peer m (sy_coord s)\<rparr>)"
  have "run_step cn s ?s" using ord_Send.prems by (intro run_step.send) simp_all
  moreover have "\<exists>calls. (run_step cn)\<^sup>*\<^sup>* ?s (ended cn (exec k (sy_coord ?s)) calls ?s)"
    using ord_Send.prems by (intro ord_Send.IH) simp_all
  ultimately show ?case by (auto simp: ended_again intro: converse_rtranclp_into_rtranclp)
qed

lemma run_step_sys: "(run_step cn)\<^sup>*\<^sup>* s s' \<Longrightarrow> (sys_step draw pick)\<^sup>*\<^sup>* s s'"
  by (induction rule: rtranclp_induct) (auto intro: rtranclp.rtrancl_into_rtrancl sys_step.thread)

text \<open>An idle system at a state of the coordinator.\<close>

definition idle_at :: "'g Coord \<Rightarrow> ConnId set \<Rightarrow> (reg_event \<times> ApplyResult) list \<Rightarrow> 'g Sys" where
  "idle_at c gone calls = (sys_start c)\<lparr>sy_gone := gone, sy_calls := calls\<rparr>"

fun event_conn :: "co_event \<Rightarrow> ConnId" where
  "event_conn (Message cn m) = cn"
| "event_conn (Lost cn now) = cn"

fun event_code ::
  "('g \<Rightarrow> u64 \<times> 'g) \<Rightarrow> ((WorkerId, ConnId) umap \<Rightarrow> ConnId) \<Rightarrow> co_event \<Rightarrow> 'g code" where
  "event_code draw pick (Message cn m) = message_code draw pick cn m"
| "event_code draw pick (Lost cn now) = lost_code draw pick cn now"

fun gone_after :: "co_event \<Rightarrow> ConnId set \<Rightarrow> ConnId set" where
  "gone_after (Message cn m) gone = gone"
| "gone_after (Lost cn now) gone = insert cn gone"

text \<open>A sequence of events in which no connection does anything after it was lost.\<close>

fun well_ordered :: "co_event list \<Rightarrow> ConnId set \<Rightarrow> bool" where
  "well_ordered [] gone = True"
| "well_ordered (e # es) gone = (event_conn e \<notin> gone \<and> well_ordered es (gone_after e gone))"

lemma idle_simps [simp]:
  "sy_coord (idle_at c gone calls) = c" "sy_mutex (idle_at c gone calls) = (\<lambda>_. None)"
  "sy_code (idle_at c gone calls) = (\<lambda>_. Done)" "sy_gone (idle_at c gone calls) = gone"
  "sy_room (idle_at c gone calls) = UNIV"
  "(idle_at c gone calls)\<lparr>sy_gone := gone'\<rparr> = idle_at c gone' calls"
  "ended cn c' calls' (idle_at c gone calls) = idle_at c' gone calls'"
  by (simp_all add: idle_at_def sys_start_def ended_def fun_upd_idem)

text \<open>Every whole handler is a run of the interleaved system.\<close>

lemma whole_handler:
  assumes "event_conn e \<notin> gone"
  shows "\<exists>calls'. (sys_step draw pick)\<^sup>*\<^sup>* (idle_at c gone calls)
    (idle_at (co_step draw pick e c) (gone_after e gone) calls')"
proof -
  let ?s = "goto (event_conn e) (event_code draw pick e) (idle_at c (gone_after e gone) calls)"
  have "sys_step draw pick (idle_at c gone calls) ?s"
  proof (cases e)
    case (Message cn m)
    then show ?thesis using assms by (simp add: receive)
  next
    case (Lost cn now)
    then show ?thesis using assms disconnect [of "idle_at c gone calls" cn draw pick now] by simp
  qed
  moreover have "ordered [] (event_code draw pick e)" by (cases e) (simp_all add: handlers_ordered)
  then obtain calls' where "(run_step (event_conn e))\<^sup>*\<^sup>* ?s
      (ended (event_conn e) (exec (event_code draw pick e) c) calls' ?s)"
    using run_to_end [of "[]" "event_code draw pick e" ?s "event_conn e"] by auto
  moreover have "exec (event_code draw pick e) c = co_step draw pick e c"
    by (cases e) (simp_all add: exec_message_code exec_lost_code)
  ultimately show ?thesis
    using run_step_sys [of "event_conn e" ?s _ draw pick]
    by (auto simp: ended_again intro: converse_rtranclp_into_rtranclp)
qed

text \<open>
  Every run of whole handlers in which no connection acts after it was lost is one of the runs of the
  interleaved system: what is shown for all interleavings holds for it.
\<close>

lemma whole_handlers_are_interleavings:
  assumes "well_ordered es {}"
  shows "\<exists>gone calls. reachable draw pick c (idle_at (fold (co_step draw pick) es c) gone calls)"
proof -
  have "well_ordered es gone \<Longrightarrow> \<exists>gone' calls'. (sys_step draw pick)\<^sup>*\<^sup>* (idle_at c gone calls)
      (idle_at (fold (co_step draw pick) es c) gone' calls')" for gone calls
  proof (induction es arbitrary: c gone calls)
    case (Cons e es)
    then show ?case using whole_handler [of e gone draw pick c calls] by (fastforce intro: rtranclp_trans)
  qed auto
  moreover have "sys_start c = idle_at c {} []" by (simp add: idle_at_def sys_start_def)
  ultimately show ?thesis using assms by simp
qed

subsection \<open>What holds under every interleaving\<close>

text \<open>
  What no action undoes: no logged failure is changed or dropped, and the recovery generation does not
  decrease.
\<close>

definition co_safe :: "'g Coord \<Rightarrow> 'g Coord \<Rightarrow> bool" where
  "co_safe c c' \<longleftrightarrow> log_kept (co_store c) (co_store c') \<and>
     (own_inv (fs_ownership (co_store c)) \<longrightarrow> own_inv (fs_ownership (co_store c')) \<and>
        ro_generation (fs_ownership (co_store c)) \<le> ro_generation (fs_ownership (co_store c')))"

lemma co_safe_trans: "co_safe c c' \<Longrightarrow> co_safe c' c'' \<Longrightarrow> co_safe c c''"
  unfolding co_safe_def log_kept_def by auto

lemma co_safe_same: "co_store c' = co_store c \<Longrightarrow> co_safe c c'"
  by (simp add: co_safe_def log_kept_def)

lemma co_safe_refl [simp]: "co_safe c c"
  by (rule co_safe_same) simp

lemma co_safe_call: "co_safe c (snd (co_reg call c))"
  by (simp add: co_safe_def log_kept_def find_failure_def co_reg_def case_prod_beta)

lemma co_safe_append: "co_safe c (c\<lparr>co_store := snd (append_failure rec (co_store c))\<rparr>)"
proof -
  have "log_kept st (snd (append_failure rec st))" for st
    by (auto simp: append_failure_def log_kept_def find_failure_def)
  moreover have "fs_ownership (snd (append_failure rec st)) = fs_ownership st" for st
    by (simp add: append_failure_def)
  ultimately show ?thesis by (simp add: co_safe_def)
qed

lemma co_safe_transfer:
  "co_store c' = (co_store c)\<lparr>fs_ownership := snd (transfer w g b a (fs_ownership (co_store c)))\<rparr> \<Longrightarrow> co_safe c c'"
  using own.step_inv [of "fs_ownership (co_store c)" "Transfer w g b a"]
    own.step_rel [of "fs_ownership (co_store c)" "Transfer w g b a"]
  by (auto simp: co_safe_def log_kept_def find_failure_def own_step_def own_advances_def)

lemma save_code_acts: "all_acts co_safe k \<Longrightarrow> all_acts co_safe (save_code k)"
proof -
  have ops: "(\<And>data. all_acts co_safe (j data)) \<Longrightarrow> all_acts co_safe (save_ops_code ops data j)"
    for ops data and j :: "byte list \<Rightarrow> 'a code"
    by (induction ops arbitrary: data) (simp_all split: option.split)
  assume "all_acts co_safe k"
  then show ?thesis by (simp add: save_code_def Let_def co_safe_same ops)
qed

lemma handlers_safe:
  "all_acts co_safe (message_code draw pick cn m)" "all_acts co_safe (lost_code draw pick cn now)"
proof -
  note defs = handler_codes(1-12) Let_def case_prod_beta co_safe_same save_code_acts
  show "all_acts co_safe (message_code draw pick cn m)"
    by (cases "wm_type m") (simp_all add: defs)
  show "all_acts co_safe (lost_code draw pick cn now)"
    by (simp add: defs co_safe_append split: option.split) (auto intro!: co_safe_transfer)
qed

lemma interleaving_safe:
  "reachable draw pick c s \<Longrightarrow> co_safe c (sy_coord s) \<and> (\<forall>cn. all_acts co_safe (sy_code s cn))"
proof (induction rule: sys_reach_induct)
  case (thread cn s s')
  have "all_acts co_safe (sy_code s cn)" using thread.IH by blast
  with thread.hyps have "co_safe (sy_coord s) (sy_coord s') \<and> all_acts co_safe (sy_code s' cn) \<and>
      (\<forall>cn'. cn' \<noteq> cn \<longrightarrow> sy_code s' cn' = sy_code s cn')"
    by cases (auto simp: co_safe_call)
  then show ?case using thread.IH by (metis co_safe_trans)
qed (simp_all add: sys_start_def handlers_safe)

text \<open>The history of registry calls accounts for the registry.\<close>

lemma reg_results_append:
  "reg_results (es @ fs) reg = reg_results es reg @ reg_results fs (fold reg_step es reg)"
  by (induction es arbitrary: reg) simp_all

definition history :: "'g Coord \<Rightarrow> 'g Sys \<Rightarrow> bool" where
  "history c s \<longleftrightarrow> sy_calls s = reg_results (map fst (sy_calls s)) (co_ops c) \<and>
     co_ops (sy_coord s) = fold reg_step (map fst (sy_calls s)) (co_ops c) \<and>
     list_all co_call (map fst (sy_calls s))"

lemma history_same:
  "history c s \<Longrightarrow> co_ops (sy_coord s') = co_ops (sy_coord s) \<Longrightarrow> sy_calls s' = sy_calls s \<Longrightarrow> history c s'"
  by (simp add: history_def)

lemma history_call: "history c s \<Longrightarrow> co_call e \<Longrightarrow> history c (goto cn k (call_sys e s))"
  by (simp add: history_def reg_results_append reg_step_def)

lemma reachable_history: "reachable draw pick c s \<Longrightarrow> history c s"
proof -
  assume r: "reachable draw pick c s"
  have "(\<forall>cn. all_acts co_safe (sy_code s cn)) \<and> history c s"
    using r
  proof (induction rule: sys_reach_induct)
    case (thread cn s s')
    have a: "all_acts co_safe (sy_code s cn)" using thread.IH by blast
    from thread.hyps have "history c s'"
      by cases (use a thread.IH in \<open>auto intro: history_same [of c s] history_call\<close>)
    moreover from thread.hyps have "all_acts co_safe (sy_code s' cn')" for cn'
      by cases (use a thread.IH in auto)
    ultimately show ?case by blast
  qed (auto simp: handlers_safe sys_start_def history_def)
  then show ?thesis by blast
qed

subsection \<open>Mutexes\<close>

lemma mutex_discipline:
  "reachable draw pick c s \<Longrightarrow>
    \<exists>held. distinct held \<and> ordered held (sy_code s cn) \<and> (\<forall>m. sy_mutex s m = Some cn \<longleftrightarrow> m \<in> set held)"
proof (induction arbitrary: cn rule: sys_reach_induct)
  case start
  then show ?case by (intro exI [of _ "[]"]) (simp add: sys_start_def)
next
  case (thread cn' s s')
  obtain held where h: "distinct held" "ordered held (sy_code s cn)" "\<forall>m. sy_mutex s m = Some cn \<longleftrightarrow> m \<in> set held"
    using thread.IH by blast
  obtain held' where h': "distinct held'" "ordered held' (sy_code s cn')"
    "\<forall>m. sy_mutex s m = Some cn' \<longleftrightarrow> m \<in> set held'"
    using thread.IH by blast
  from thread.hyps show ?case
  proof cases
    case (acquire m k)
    show ?thesis
    proof (cases "cn = cn'")
      case True
      have "m \<notin> set held'" using h' acquire by auto
      then show ?thesis using True acquire h' by (intro exI [of _ "m # held'"]) auto
    next
      case False
      have "sy_mutex s m \<noteq> Some cn" using acquire by simp
      then have "m \<notin> set held" using h(3) by blast
      then show ?thesis using False acquire h by (intro exI [of _ held]) auto
    qed
  next
    case (release m k)
    then obtain rest where r: "held' = m # rest" "ordered rest k" using h' by auto
    show ?thesis
    proof (cases "cn = cn'")
      case True
      then show ?thesis using release h' r by (intro exI [of _ rest]) auto
    next
      case False
      have "sy_mutex s m = Some cn'" using h'(3) r(1) by simp
      then have "sy_mutex s m \<noteq> Some cn" using False by simp
      then have "m \<notin> set held" using h(3) by blast
      then show ?thesis using False release h by (intro exI [of _ held]) auto
    qed
  next
    case (act f)
    then show ?thesis using h h' by (cases "cn = cn'") (auto intro: exI [of _ held'] exI [of _ held])
  next
    case (call e k)
    then show ?thesis using h h' by (cases "cn = cn'") (auto intro: exI [of _ held'] exI [of _ held])
  next
    case (send peer m k)
    then show ?thesis using h h' by (cases "cn = cn'") (auto intro: exI [of _ held'] exI [of _ held])
  qed
next
  case (receive cn' m s)
  have none: "sy_mutex s m \<noteq> Some cn'" for m using receive.IH [of cn'] receive.hyps by auto
  show ?case
  proof (cases "cn = cn'")
    case True
    then show ?thesis using none by (intro exI [of _ "[]"]) (simp add: handlers_ordered)
  next
    case False
    then show ?thesis using receive.IH [of cn] by simp
  qed
next
  case (disconnect cn' now s)
  have none: "sy_mutex s m \<noteq> Some cn'" for m using disconnect.IH [of cn'] disconnect.hyps by auto
  show ?case
  proof (cases "cn = cn'")
    case True
    then show ?thesis using none by (intro exI [of _ "[]"]) (simp add: handlers_ordered)
  next
    case False
    then show ?thesis using disconnect.IH [of cn] by simp
  qed
qed simp

text \<open>A thread waits for the holder of the mutex it asks for, or for its peer to take data.\<close>

definition waits_for :: "'g Sys \<Rightarrow> ConnId \<Rightarrow> ConnId \<Rightarrow> bool" where
  "waits_for s cn cn' \<longleftrightarrow> (\<exists>m k. sy_code s cn = Lock m k \<and> sy_mutex s m = Some cn')"

definition stalled :: "'g Sys \<Rightarrow> ConnId \<Rightarrow> bool" where
  "stalled s cn \<longleftrightarrow> (\<exists>peer m k. sy_code s cn = Send peer m k \<and> peer \<notin> sy_room s)"

lemma holder_waits_higher:
  assumes "reachable draw pick c s" "sy_mutex s m = Some cn" "sy_code s cn = Lock m' k"
  shows "rank m < rank m'"
  using mutex_discipline [OF assms(1), of cn] assms(2,3) by auto

lemma holder_active: "reachable draw pick c s \<Longrightarrow> sy_mutex s m = Some cn \<Longrightarrow> sy_code s cn \<noteq> Done"
  using mutex_discipline [of draw pick c s cn] by auto

lemma waits_higher:
  assumes "reachable draw pick c s" "(waits_for s)\<^sup>+\<^sup>+ a b" "sy_code s a = Lock m k" "sy_code s b = Lock m' k'"
  shows "rank m < rank m'"
  using assms(2,4)
proof (induction arbitrary: m' k' rule: tranclp_induct)
  case (base b)
  then show ?case using assms(3) holder_waits_higher [OF assms(1)] by (auto simp: waits_for_def)
next
  case (step b b')
  obtain m1 k1 where b: "sy_code s b = Lock m1 k1" "sy_mutex s m1 = Some b'"
    using step.hyps(2) by (auto simp: waits_for_def)
  have "rank m1 < rank m'" using holder_waits_higher [OF assms(1) b(2) step.prems] .
  then show ?case using step.IH [OF b(1)] by simp
qed

lemma no_circular_wait: "reachable draw pick c s \<Longrightarrow> \<not> (waits_for s)\<^sup>+\<^sup>+ cn cn"
proof
  assume r: "reachable draw pick c s" and w: "(waits_for s)\<^sup>+\<^sup>+ cn cn"
  obtain m k where "sy_code s cn = Lock m k"
    using tranclpD [OF w] by (auto simp: waits_for_def)
  then show False using waits_higher [OF r w] by blast
qed

lemma not_waiting:
  "sy_code s cn \<noteq> Done \<Longrightarrow> (\<And>m k. sy_code s cn = Lock m k \<Longrightarrow> sy_mutex s m = None) \<Longrightarrow>
    (\<exists>s'. run_step cn s s') \<or> stalled s cn"
  by (cases "sy_code s cn") (auto simp: stalled_def intro: run_step.intros)

lemma someone_goes_on:
  assumes "reachable draw pick c s" "sy_code s cn = Lock m k"
  shows "\<exists>cn'. (waits_for s)\<^sup>*\<^sup>* cn cn' \<and> ((\<exists>s'. run_step cn' s s') \<or> stalled s cn')"
  using assms(2)
proof (induction "4 - rank m" arbitrary: cn m k rule: less_induct)
  case less
  show ?case
  proof (cases "sy_mutex s m")
    case None
    then show ?thesis using not_waiting [of s cn] less.prems by auto
  next
    case (Some h)
    then have w: "waits_for s cn h" using less.prems by (auto simp: waits_for_def)
    show ?thesis
    proof (cases "\<exists>m' k'. sy_code s h = Lock m' k'")
      case True
      then obtain m' k' where l: "sy_code s h = Lock m' k'" by blast
      have "rank m < rank m'" by (rule holder_waits_higher [OF assms(1) Some l])
      moreover have "rank m' \<le> 3" by (cases m') simp_all
      ultimately have "4 - rank m' < 4 - rank m" by simp
      then show ?thesis using less.hyps [OF _ l] w by (meson converse_rtranclp_into_rtranclp)
    next
      case False
      then have "(\<exists>s'. run_step h s s') \<or> stalled s h"
        using not_waiting [OF holder_active [OF assms(1) Some]] by auto
      then show ?thesis using w by (meson r_into_rtranclp)
    qed
  qed
qed

text \<open>
  The send under \<open>g_mu\<close>: a peer that registers and does not take the answer leaves its thread waiting
  with the global mutex held.
\<close>

lemma registration_can_stall:
  fixes m :: WireMessage
  assumes "wm_type m = ProtocolMessage.REGISTER"
  shows "\<exists>s. reachable draw pick c s \<and> sy_mutex s G_mu = Some cn \<and> stalled s cn"
proof -
  define s1 where "s1 = goto cn (message_code draw pick cn m) (sys_start c)"
  have code1: "sy_code s1 cn = register_code draw cn m" by (simp add: s1_def message_code_def assms)
  have "sys_step draw pick (sys_start c) s1"
    unfolding s1_def by (intro receive) (simp_all add: sys_start_def)
  then have r1: "reachable draw pick c s1" by simp
  have m1: "sy_mutex s1 = (\<lambda>_. None)" by (simp add: s1_def sys_start_def)
  obtain f where f: "register_code draw cn m = Lock G_mu (Act f)"
    "\<And>c. \<exists>ack. snd (f c) = send_code cn ack (Unlock G_mu Done)"
    unfolding register_code_def by (fastforce simp: Let_def case_prod_beta)
  define s2 where "s2 = goto cn (Act f) (hold G_mu (Some cn) s1)"
  have "run_step cn s1 s2" unfolding s2_def using code1 f m1 by (intro acquire) simp_all
  with r1 have r2: "reachable draw pick c s2" by (meson rtranclp.rtrancl_into_rtrancl sys_step.thread)
  obtain ack where ack: "snd (f (sy_coord s2)) = send_code cn ack (Unlock G_mu Done)" using f(2) by blast
  define s3 where "s3 = goto cn (send_code cn ack (Unlock G_mu Done)) (s2\<lparr>sy_coord := fst (f (sy_coord s2))\<rparr>)"
  have "run_step cn s2 s3" unfolding s3_def ack [symmetric] by (intro run_step.act) (simp add: s2_def)
  with r2 have r3: "reachable draw pick c s3" by (meson rtranclp.rtrancl_into_rtrancl sys_step.thread)
  define s4 where "s4 = goto cn (Send cn ack (Unlock (Write_mu cn) (Unlock G_mu Done))) (hold (Write_mu cn) (Some cn) s3)"
  have "run_step cn s3 s4" unfolding s4_def
    by (intro acquire) (simp_all add: s3_def send_code_def s2_def m1)
  with r3 have r4: "reachable draw pick c s4" by (meson rtranclp.rtrancl_into_rtrancl sys_step.thread)
  then have "reachable draw pick c (s4\<lparr>sy_room := {}\<rparr>)"
    by (rule rtranclp.rtrancl_into_rtrancl) (rule sys_step.peers)
  moreover have "sy_mutex (s4\<lparr>sy_room := {}\<rparr>) G_mu = Some cn" "stalled (s4\<lparr>sy_room := {}\<rparr>) cn"
    by (simp_all add: s4_def s3_def s2_def stalled_def)
  ultimately show ?thesis by blast
qed

subsection \<open>Acknowledgements and dispatches\<close>

fun is_report :: "OperationId \<Rightarrow> reg_event \<times> ApplyResult \<Rightarrow> bool" where
  "is_report op (ReportCompletion op' a partial, res) = (op = op' \<and> \<not> partial \<and> res = ApplyResult.OK)"
| "is_report op _ = False"

fun is_dispatch :: "OperationId \<Rightarrow> reg_event \<times> ApplyResult \<Rightarrow> bool" where
  "is_dispatch op (Dispatch op' a, res) = (op = op' \<and> res = ApplyResult.OK)"
| "is_dispatch op _ = False"

text \<open>
  An attempt of the operation is under way: it can still start to run or have its completion reported,
  so it is dispatched, retrying or running.
\<close>

definition under_way :: "OperationId \<Rightarrow> OperationRegistry \<Rightarrow> bool" where
  "under_way op reg \<longleftrightarrow> (case map_of reg op of None \<Rightarrow> False
     | Some r \<Rightarrow> \<not> rt_terminal_recorded r \<and>
         (is_allowed (rt_state r) OperationState.RUNNING \<or>
          is_allowed (rt_state r) OperationState.COMPLETION_REPORTED))"

lemma not_under_way_states:
  assumes "s \<in> {OperationState.CREATED, OperationState.COMPLETION_REPORTED, OperationState.COMPLETION_CONFIRMED,
    OperationState.FAILED_KNOWN, OperationState.FAILED_AMBIGUOUS, OperationState.PARTIALLY_SUCCEEDED}"
  shows "\<not> is_allowed s OperationState.RUNNING" "\<not> is_allowed s OperationState.COMPLETION_REPORTED"
  using assms by (auto simp: is_allowed_iff named_def)

lemma report_ends_attempt:
  assumes "co_call e"
  shows "(if is_report op (e, fst (reg_apply e reg)) then 1 else 0) + (if under_way op (reg_step e reg) then 1 else 0)
    \<le> (if under_way op reg then 1 else 0 :: nat) + (if is_dispatch op (e, fst (reg_apply e reg)) then 1 else 0)"
proof (cases "event_op e = op")
  case False
  then have "under_way op (reg_step e reg) = under_way op reg" by (simp add: under_way_def reg_step_other)
  moreover have "\<not> is_report op (e, fst (reg_apply e reg))" using False by (cases e) auto
  ultimately show ?thesis by simp
next
  case True
  show ?thesis
  proof (cases "map_of reg op")
    case None
    then show ?thesis using reg_apply_unknown [of reg e] True
      by (cases e) (auto simp: under_way_def default_runtime_def not_under_way_states
          simp del: reg_apply.simps reg_apply_fun)
  next
    case (Some r)
    then show ?thesis using True assms reg_apply_existing [of reg e r]
      by (cases e) (auto simp: under_way_def rt_defs sm_transition_pair not_under_way_states Let_def
          simp del: reg_apply.simps reg_apply_fun split: if_splits)
  qed
qed

lemma reports_bounded:
  "list_all co_call es \<Longrightarrow> length (filter (is_report op) (reg_results es reg)) \<le>
    length (filter (is_dispatch op) (reg_results es reg)) + (if under_way op reg then 1 else 0)"
proof (induction es arbitrary: reg)
  case (Cons e es)
  have "length (filter (is_report op) (reg_results es (reg_step e reg))) \<le>
      length (filter (is_dispatch op) (reg_results es (reg_step e reg))) +
      (if under_way op (reg_step e reg) then 1 else 0)"
    using Cons by simp
  then show ?case using report_ends_attempt [of e op reg] Cons.prems
    by (simp split: if_splits)
qed simp

text \<open>
  The code sends at most \<open>n\<close> acknowledgements of the operation, plus one for each report of its
  completion that it has yet to make and that is answered \<open>OK\<close>.
\<close>

definition is_ack :: "OperationId \<Rightarrow> WireMessage \<Rightarrow> bool" where
  "is_ack op m \<longleftrightarrow> wm_type m = ProtocolMessage.ACK \<and> wm_op m = op"

inductive owes :: "OperationId \<Rightarrow> nat \<Rightarrow> 'g code \<Rightarrow> bool" for op where
  owes_Done: "owes op n Done"
| owes_Lock: "owes op n k \<Longrightarrow> owes op n (Lock m k)"
| owes_Unlock: "owes op n k \<Longrightarrow> owes op n (Unlock m k)"
| owes_Act: "(\<And>c. acks op (fst (f c)) = acks op c) \<Longrightarrow> (\<And>c. owes op n (snd (f c))) \<Longrightarrow> owes op n (Act f)"
| owes_Call: "(\<And>c res. owes op (if is_report op (e c, res) then Suc n else n) (k res)) \<Longrightarrow> owes op n (Call e k)"
| owes_Send: "owes op n k \<Longrightarrow> \<not> is_ack op m \<Longrightarrow> owes op n (Send cn m k)"
| owes_Ack: "owes op n k \<Longrightarrow> owes op (Suc n) (Send cn m k)"

inductive_simps owes_simps [simp]:
  "owes op n Done" "owes op n (Lock m k)" "owes op n (Unlock m k)" "owes op n (Act f)"
  "owes op n (Call e k)" "owes op n (Send cn m k)"

lemma acks_send: "acks op (send_msg cn m c) = acks op c @ (if is_ack op m then [(cn, m)] else [])"
  by (simp add: acks_def is_ack_def)

lemma owes_save_code: "owes op n k \<Longrightarrow> owes op n (save_code k)"
proof -
  have ops: "(\<And>data. owes op n (j data)) \<Longrightarrow> owes op n (save_ops_code ops data j)"
    for ops data and j :: "byte list \<Rightarrow> 'a code"
    by (induction ops arbitrary: data) (simp_all split: option.split)
  assume "owes op n k"
  then show ?thesis by (simp add: save_code_def Let_def acks_def ops)
qed

lemma handlers_owe_nothing:
  "owes op 0 (message_code draw pick cn m)" "owes op 0 (lost_code draw pick cn now)"
proof -
  note defs = handler_codes(1-12) Let_def case_prod_beta acks_def owes_save_code is_ack_def ack_message_def
    fence_message_def
  show "owes op 0 (message_code draw pick cn m)"
    by (cases "wm_type m") (auto simp: defs)
  show "owes op 0 (lost_code draw pick cn now)"
    by (simp add: defs split: option.split)
qed

text \<open>Each thread has a credit of acknowledgements; only reports that are answered \<open>OK\<close> add to it.\<close>

definition ack_account :: "OperationId \<Rightarrow> 'g Coord \<Rightarrow> 'g Sys \<Rightarrow> ConnId set \<Rightarrow> (ConnId \<Rightarrow> nat) \<Rightarrow> bool" where
  "ack_account op c s A b \<longleftrightarrow> finite A \<and> (\<forall>cn. cn \<notin> A \<longrightarrow> sy_code s cn = Done) \<and>
     (\<forall>cn. owes op (b cn) (sy_code s cn)) \<and>
     length (acks op (sy_coord s)) + sum b A \<le> length (acks op c) + length (filter (is_report op) (sy_calls s))"

lemma sum_upd: "finite A \<Longrightarrow> cn \<in> A \<Longrightarrow> sum (b(cn := n)) A + b cn = sum b A + (n :: nat)"
  by (simp add: sum.remove [of A cn])

lemma account_thread:
  assumes "ack_account op c s A b" "run_step cn s s'"
  shows "\<exists>b'. ack_account op c s' A b'"
proof -
  have act: "cn \<in> A"
    using assms by (auto simp: ack_account_def elim!: run_step.cases)
  have fin: "finite A" and o: "owes op (b cn) (sy_code s cn)" using assms(1) by (simp_all add: ack_account_def)
  from assms(2) show ?thesis
  proof cases
    case (acquire m k)
    then show ?thesis using assms(1) act o by (intro exI [of _ b]) (auto simp: ack_account_def)
  next
    case (release m k)
    then show ?thesis using assms(1) act o by (intro exI [of _ b]) (auto simp: ack_account_def)
  next
    case (act f)
    then show ?thesis using assms(1) \<open>cn \<in> A\<close> o by (intro exI [of _ b]) (auto simp: ack_account_def)
  next
    case (call e k)
    let ?e = "(e (sy_coord s), fst (reg_apply (e (sy_coord s)) (co_ops (sy_coord s))))"
    let ?n = "if is_report op ?e then Suc (b cn) else b cn"
    have "owes op ?n (k (snd ?e))" using o call by simp
    moreover have "acks op (sy_coord s') = acks op (sy_coord s)" using call by (simp add: acks_def)
    ultimately show ?thesis using assms(1) act call sum_upd [OF fin act, of b ?n]
      by (intro exI [of _ "b(cn := ?n)"]) (auto simp: ack_account_def split: if_splits)
  next
    case (send peer m k)
    then consider "owes op (b cn) k" "\<not> is_ack op m" | n where "b cn = Suc n" "owes op n k"
      using o by auto
    then show ?thesis
    proof cases
      case 1
      then show ?thesis using assms(1) act send by (intro exI [of _ b]) (auto simp: ack_account_def acks_send)
    next
      case 2
      then show ?thesis using assms(1) act send sum_upd [OF fin act, of b n]
        by (intro exI [of _ "b(cn := n)"]) (auto simp: ack_account_def acks_send)
    qed
  qed
qed

lemma account_arrival:
  assumes "ack_account op c s A b" "sy_code s cn = Done" "owes op 0 k"
    and "sy_coord s' = sy_coord s" "sy_calls s' = sy_calls s" "sy_code s' = (sy_code s)(cn := k)"
  shows "\<exists>A' b'. ack_account op c s' A' b'"
proof -
  have "sum (b(cn := 0)) (insert cn A) \<le> sum b A"
    using assms(1) by (cases "cn \<in> A") (auto simp: ack_account_def insert_absorb sum_upd
        sum.remove [of A cn] intro!: sum_mono)
  then show ?thesis using assms
    by (intro exI [of _ "insert cn A"] exI [of _ "b(cn := 0)"]) (auto simp: ack_account_def)
qed

lemma reachable_account: "reachable draw pick c s \<Longrightarrow> \<exists>A b. ack_account op c s A b"
proof (induction rule: sys_reach_induct)
  case start
  show ?case by (intro exI [of _ "{}"] exI [of _ "\<lambda>_. 0"]) (simp add: ack_account_def sys_start_def)
next
  case (thread cn s s')
  then show ?case using account_thread by blast
next
  case (receive cn m s)
  then obtain A b where a: "ack_account op c s A b" by blast
  show ?case by (rule account_arrival [OF a receive.hyps handlers_owe_nothing(1)]) simp_all
next
  case (disconnect cn now s)
  then obtain A b where a: "ack_account op c s A b" by blast
  show ?case by (rule account_arrival [OF a disconnect.hyps handlers_owe_nothing(2)]) simp_all
next
  case (peers room s)
  then show ?case by (simp add: ack_account_def)
qed

lemma acks_covered:
  "reachable draw pick c s \<Longrightarrow>
    length (acks op (sy_coord s)) \<le> length (acks op c) + length (filter (is_report op) (sy_calls s))"
  using reachable_account [of draw pick c s op] by (auto simp: ack_account_def)

subsection \<open>Properties\<close>

text \<open>
  C6: nothing recorded is undone by any interleaving. In every state that the threads of the
  coordinator can reach together, at whatever points they interrupt each other, the registry is the
  result of a sequence of registry calls on the initial one (without \<open>transition\<close> and
  \<open>record_terminal\<close>), every logged failure is unchanged, and the recovery generation has not
  decreased.
\<close>

theorem interleavings_are_safe:
  assumes "reachable draw pick c s" "own_inv (fs_ownership (co_store c))"
  shows "(\<exists>calls. co_ops (sy_coord s) = fold reg_step calls (co_ops c) \<and> list_all co_call calls) \<and>
    (\<forall>i r. find_failure i (co_store c) = Some r \<longrightarrow> find_failure i (co_store (sy_coord s)) = Some r) \<and>
    ro_generation (fs_ownership (co_store c)) \<le> ro_generation (fs_ownership (co_store (sy_coord s)))"
proof -
  have "co_safe c (sy_coord s)" using interleaving_safe [OF assms(1)] by simp
  moreover have "history c s" by (rule reachable_history [OF assms(1)])
  ultimately show ?thesis using assms(2) unfolding co_safe_def history_def log_kept_def by blast
qed

text \<open>
  C13: the coordinator has no deadlock. In every reachable state, a thread that has code left to run
  either can take its next step, or waits for a peer to take the data sent to it, or waits, through a
  chain of mutexes and their holders, for a thread that can take a step or waits for its peer; and no
  thread ever waits for itself. So only a peer that does not read can hold up the coordinator, never
  the order in which its threads take the mutexes of the coordinator, the store, the registry and the
  sockets.
\<close>

theorem coordinator_deadlock_free:
  assumes "reachable draw pick c s" "sy_code s cn \<noteq> Done"
  shows "(\<exists>cn'. (waits_for s)\<^sup>*\<^sup>* cn cn' \<and> ((\<exists>s'. run_step cn' s s') \<or> stalled s cn')) \<and>
    \<not> (waits_for s)\<^sup>+\<^sup>+ cn cn"
proof (cases "\<exists>m k. sy_code s cn = Lock m k")
  case True
  then show ?thesis using someone_goes_on [OF assms(1)] no_circular_wait [OF assms(1)] by blast
next
  case False
  then have "(\<exists>s'. run_step cn s s') \<or> stalled s cn" using not_waiting [OF assms(2)] by blast
  then show ?thesis using no_circular_wait [OF assms(1)] by blast
qed

text \<open>
  C14: acknowledgements are bounded by dispatches. In every state the threads can reach together, at
  whatever points they interrupt each other, an operation has been acknowledged at most once for each
  call of \<open>dispatch\<close> on it that was answered \<open>OK\<close>, and once more if an attempt of it was under way at
  the start. The history of calls is the true one: replayed on the initial registry it gives the same
  results and the present registry.
\<close>

theorem acknowledgements_bounded:
  assumes "reachable draw pick c s"
  shows "length (acks op (sy_coord s)) \<le> length (acks op c) +
      length (filter (is_dispatch op) (sy_calls s)) + (if under_way op (co_ops c) then 1 else 0) \<and>
    sy_calls s = reg_results (map fst (sy_calls s)) (co_ops c) \<and>
    co_ops (sy_coord s) = fold reg_step (map fst (sy_calls s)) (co_ops c)"
proof -
  have h: "history c s" by (rule reachable_history [OF assms])
  then have "length (filter (is_report op) (sy_calls s)) \<le>
      length (filter (is_dispatch op) (sy_calls s)) + (if under_way op (co_ops c) then 1 else 0)"
    using reports_bounded [of "map fst (sy_calls s)" op "co_ops c"] by (simp add: history_def)
  then show ?thesis using acks_covered [OF assms, of op] h by (simp add: history_def)
qed

subsection \<open>A sample run\<close>

text \<open>Connection 3 has delivered the completion of the sample operation; its thread has not run yet.\<close>

definition sample_sys :: "unit Sys" where
  "sample_sys = goto 3 (message_code (\<lambda>g. (5, g)) (snd \<circ> hd) 3 sample_complete) (idle_at one_running {} [])"

lemma sample_reachable: "reachable (\<lambda>g. (5, g)) (snd \<circ> hd) one_running sample_sys"
proof -
  have "sys_start one_running = idle_at one_running {} []" by (simp add: idle_at_def sys_start_def)
  moreover have "sys_step (\<lambda>g. (5, g)) (snd \<circ> hd) (idle_at one_running {} []) sample_sys"
    unfolding sample_sys_def by (intro receive) simp_all
  ultimately show ?thesis by simp
qed

lemma sample_active: "sy_code sample_sys 3 \<noteq> Done"
  by (simp add: sample_sys_def message_code_def sample_complete_def complete_code_def reg_code_def)

theorem interleavings_are_safe_witness:
  "\<exists>calls. co_ops (sy_coord sample_sys) = fold reg_step calls (co_ops one_running) \<and> list_all co_call calls"
proof -
  have "own_inv (fs_ownership (co_store one_running))"
    by (simp add: one_running_def running_store_def new_store_def)
  then show ?thesis using interleavings_are_safe [OF sample_reachable] by blast
qed

theorem coordinator_deadlock_free_witness: "\<not> (waits_for sample_sys)\<^sup>+\<^sup>+ 3 3"
  using coordinator_deadlock_free [OF sample_reachable sample_active] by blast

text \<open>The whole handler of the completion, run to its end: one acknowledgement for the attempt under way.\<close>

theorem acknowledgements_bounded_witness:
  "\<exists>s :: unit Sys. sy_coord s = handle_message (\<lambda>g. (5, g)) (snd \<circ> hd) 3 sample_complete one_running \<and>
     length (acks (sample_id 7) (sy_coord s)) \<le> length (filter (is_dispatch (sample_id 7)) (sy_calls s)) + 1"
proof -
  obtain gone calls where r: "reachable (\<lambda>g. (5, g)) (snd \<circ> hd) one_running
      (idle_at (fold (co_step (\<lambda>g. (5, g)) (snd \<circ> hd)) [Message 3 sample_complete] one_running) gone calls)"
    using whole_handlers_are_interleavings [of "[Message 3 sample_complete]" "\<lambda>g. (5, g)" "snd \<circ> hd" one_running]
    by auto
  define s where "s = idle_at (fold (co_step (\<lambda>g. (5, g)) (snd \<circ> hd)) [Message 3 sample_complete] one_running) gone calls"
  have "sy_coord s = handle_message (\<lambda>g. (5, g)) (snd \<circ> hd) 3 sample_complete one_running"
    by (simp add: s_def)
  moreover have "acks (sample_id 7) one_running = []"
    by (simp add: acks_def one_running_def two_workers_def co_start_def)
  then have "length (acks (sample_id 7) (sy_coord s)) \<le> length (filter (is_dispatch (sample_id 7)) (sy_calls s)) + 1"
    using acknowledgements_bounded [OF r [folded s_def], of "sample_id 7"] by (simp split: if_splits)
  ultimately show ?thesis by blast
qed

end
