(* ===== verification/FF_Coordinator_Inv.thy ===== *)
theory FF_Coordinator_Inv
  imports FF_Coordinator
begin

text \<open>
  The invariant of the coordinator's tables (\<open>src/coordinator.cpp\<close>): every handler of
  \<open>FF_Coordinator\<close> keeps it. The store stays within what the snapshot format can carry, which makes
  acknowledged completions durable.
\<close>

subsection \<open>Well-formed states\<close>

text \<open>
  The tables of the coordinator fit together: no worker is listed twice, every listed connection has
  registered and is marked a worker, the running connection is one of them, and the store is
  well formed.
\<close>

definition co_wf :: "'g Coord \<Rightarrow> bool" where
  "co_wf c \<longleftrightarrow> um_wf (co_workers c) \<and> snd ` set (co_workers c) \<subseteq> set (co_reg_order c) \<and>
     (\<forall>cn \<in> set (co_reg_order c). cn_worker (co_conns c cn)) \<and>
     set_option (co_running c) \<subseteq> set (co_reg_order c) \<and> store_inv (co_store c)"

text \<open>What the language promises of the first element of a map that is not empty: it is one of them.\<close>

definition picks_listed :: "((WorkerId, ConnId) umap \<Rightarrow> ConnId) \<Rightarrow> bool" where
  "picks_listed pick \<longleftrightarrow> (\<forall>ws. ws \<noteq> [] \<longrightarrow> pick ws \<in> snd ` set ws)"

lemma um_assign_values: "snd ` set (um_assign k v m) \<subseteq> insert v (snd ` set m)"
  by (induction k v m rule: um_assign.induct) auto

text \<open>Steps that leave the tables of connections alone, and those that only touch the store.\<close>

lemma co_wf_same:
  "co_wf c \<Longrightarrow> co_workers c' = co_workers c \<Longrightarrow> co_reg_order c' = co_reg_order c \<Longrightarrow>
    co_conns c' = co_conns c \<Longrightarrow> co_running c' = co_running c \<Longrightarrow> store_inv (co_store c') \<Longrightarrow> co_wf c'"
  by (simp add: co_wf_def)

lemma store_inv_ops: "store_inv st \<Longrightarrow> um_wf ops \<Longrightarrow> store_inv (st\<lparr>fs_ops := ops\<rparr>)"
  by (simp add: store_inv_def)

lemma co_reg_wf:
  assumes "co_wf c" "\<exists>e. call (co_ops c) = reg_apply e (co_ops c)"
  shows "co_wf (snd (co_reg call c))"
proof -
  have "store_inv (co_store c)" using assms(1) by (simp add: co_wf_def)
  moreover have "um_wf (snd (call (co_ops c)))"
    using assms(2) reg_step_wf calculation by (auto simp: reg_step_def store_inv_def)
  ultimately have "store_inv (co_store (snd (co_reg call c)))"
    by (simp add: co_reg_def case_prod_beta store_inv_ops)
  then show ?thesis by (intro co_wf_same [OF assms(1)]) simp_all
qed

lemma co_calls_wf:
  assumes "co_wf c"
  shows "co_wf (snd (co_reg (reg_create op a) c))" "co_wf (snd (co_reg (reg_dispatch op a) c))"
    "co_wf (snd (co_reg (reg_run op a) c))" "co_wf (snd (co_reg (reg_report_completion op a p) c))"
    "co_wf (snd (co_reg (reg_confirm_completion op a) c))" "co_wf (snd (co_reg (reg_report_failure op a p) c))"
  by (rule co_reg_wf [OF assms], metis reg_apply.simps)+

lemma on_register_tables:
  "\<exists>wid. co_workers (on_register draw cn m c) = um_assign wid cn (co_workers c)"
  "co_reg_order (on_register draw cn m c) = co_reg_order c @ [cn]"
  "co_running (on_register draw cn m c) = co_running c" "co_store (on_register draw cn m c) = co_store c"
  "cn_worker (co_conns (on_register draw cn m c) cn') \<longleftrightarrow> cn' = cn \<or> cn_worker (co_conns c cn')"
  by (cases "is_null (wm_worker m)"; auto simp: on_register_def Let_def case_prod_beta)+

lemma co_wf_register:
  assumes "co_wf c"
  shows "co_wf (on_register draw cn m c)"
proof -
  obtain wid where w: "co_workers (on_register draw cn m c) = um_assign wid cn (co_workers c)"
    using on_register_tables(1) by blast
  show ?thesis using assms um_assign_values [of wid cn "co_workers c"]
    unfolding co_wf_def w on_register_tables by (auto simp: um_wf_assign)
qed

lemma co_wf_dispatch_to:
  assumes "co_wf c" "cn \<in> set (co_reg_order c)"
  shows "co_wf (dispatch_to cn op a c)"
proof -
  have "cn_worker (co_conns (dispatch_to cn op a c) cn') = cn_worker (co_conns c cn')" for cn'
    by (simp add: dispatch_to_def Let_def)
  then show ?thesis using assms by (simp add: co_wf_def)
qed

lemma co_wf_fresh: "co_wf c \<Longrightarrow> co_wf (snd (fresh_id draw c))" "co_wf c \<Longrightarrow> co_wf (snd (new_attempt draw a c))"
  by (rule co_wf_same; simp add: co_wf_def)+

lemma picked_registered: "picks_listed pick \<Longrightarrow> co_wf c \<Longrightarrow> co_workers c \<noteq> [] \<Longrightarrow> pick (co_workers c) \<in> set (co_reg_order c)"
  by (auto simp: picks_listed_def co_wf_def)

lemma replacement_registered:
  "picks_listed pick \<Longrightarrow> co_wf c \<Longrightarrow> choose_replacement pick c = Some cn \<Longrightarrow> cn \<in> set (co_reg_order c)"
  using picked_registered [of pick c]
  by (auto simp: choose_replacement_def Let_def split: if_splits list.splits option.splits)

lemma co_wf_complete:
  assumes "co_wf c"
  shows "co_wf (on_complete cn m c)"
proof -
  let ?c1 = "snd (co_reg (reg_report_completion (wm_op m) (wm_authority m) False) c)"
  let ?c2 = "snd (co_reg (reg_confirm_completion (wm_op m) (wm_authority m)) ?c1)"
  have 1: "co_wf ?c1" "co_wf ?c2" using assms by (simp_all add: co_calls_wf)
  have sent: "co_wf c \<Longrightarrow> co_wf (send_msg cn x c)" "co_wf c \<Longrightarrow> co_wf (save_state (c\<lparr>co_finished := True\<rparr>))"
    for c :: "'a Coord" and x
    by (simp_all add: co_wf_def)
  show ?thesis using 1 by (simp add: complete_defs Let_def case_prod_beta sent)
qed

lemma co_wf_dispatch:
  assumes "picks_listed pick" "co_wf c"
  shows "co_wf (on_dispatch draw pick m c)"
proof (cases "co_workers c = []")
  case True
  then show ?thesis using assms(2) by (simp add: on_dispatch_def Let_def case_prod_beta co_wf_fresh)
next
  case False
  then show ?thesis using assms
    by (simp add: on_dispatch_eq drawn_attempt_def co_calls_wf co_wf_dispatch_to co_wf_fresh picked_registered)
qed

lemma co_wf_message:
  assumes "picks_listed pick" "co_wf c"
  shows "co_wf (handle_message draw pick cn m c)"
  using assms
  by (cases "wm_type m") (simp_all add: handle_message_def co_wf_register co_wf_dispatch co_wf_complete
      on_running_def on_failure_def co_calls_wf)

lemma co_wf_record_loss: "co_wf c \<Longrightarrow> co_wf (record_loss draw cur now c)"
proof -
  assume c: "co_wf c"
  have a: "store_inv st \<Longrightarrow> store_inv (snd (append_failure rec (st\<lparr>fs_ownership := ow\<rparr>)))" for st rec ow
    using append_step_inv [of "st\<lparr>fs_ownership := ow\<rparr>" rec] by (simp add: append_step_def store_inv_def)
  have s: "store_inv (co_store c)" using c by (simp add: co_wf_def)
  show ?thesis unfolding record_loss_def Let_def case_prod_beta
    by (rule co_calls_wf, rule co_wf_same [OF c]) (use s a in simp_all)
qed

lemma co_wf_redispatch:
  assumes "picks_listed pick" "co_wf c"
  shows "co_wf (redispatch draw pick cur c)"
proof (cases "choose_replacement pick c")
  case None
  then show ?thesis using assms by (simp add: redispatch_none co_wf_fresh)
next
  case (Some cn)
  then show ?thesis using assms replacement_registered [OF assms Some]
    by (simp add: redispatch_some Let_def co_calls_wf co_wf_fresh co_wf_dispatch_to)
qed

lemma co_wf_lost:
  assumes "picks_listed pick" "co_wf c"
  shows "co_wf (connection_lost draw pick cn now c)"
proof -
  let ?c = "c\<lparr>co_workers := um_erase (cn_wid (co_conns c cn)) (co_workers c), co_running := None\<rparr>"
  have "co_wf ?c" using assms(2) by (auto simp: co_wf_def um_wf_erase) (auto simp: um_erase_def)
  then show ?thesis using assms
    by (simp add: connection_lost_def Let_def recover_operation_def co_wf_redispatch co_wf_record_loss)
qed

subsection \<open>Properties\<close>

text \<open>
  C16: the coordinator's tables stay well formed. From a well-formed state, every message and every
  loss of a connection, handled one after the other, leaves no worker listed twice, only registered
  connections among the workers, only workers in the order of registration, a registered connection as
  the running one, and a store whose tables have no duplicate keys and whose records are filed under
  their own identity with a valid authority, whatever becomes of the state file.
\<close>

theorem coordinator_well_formed:
  assumes "picks_listed pick" "store_inv st"
  shows "co_wf (fold (co_step draw pick) es ((co_start st g)\<lparr>co_saved := saved, co_disk := disk\<rparr>))"
proof -
  have "co_wf c \<Longrightarrow> co_wf (fold (co_step draw pick) es c)" for c
  proof (induction es arbitrary: c)
    case (Cons e es)
    then show ?case by (cases e) (simp_all add: co_wf_message co_wf_lost assms(1))
  qed simp
  moreover have "co_wf ((co_start st g)\<lparr>co_saved := saved, co_disk := disk\<rparr>)"
    using assms(2) by (simp add: co_wf_def co_start_def)
  ultimately show ?thesis by blast
qed

theorem coordinator_well_formed_witness:
  "co_wf (fold (co_step (\<lambda>g. (5, g)) (snd \<circ> hd))
     [Message 1 (worker_register (sample_id 1) (sample_id 1) []), Message 3 sample_complete, Lost 1 0]
     ((co_start running_store ())\<lparr>co_saved := None, co_disk := (\<lambda>_. Written)\<rparr>))"
  by (rule coordinator_well_formed)
    (simp_all add: picks_listed_def store_inv_def running_store_def new_store_def um_wf_def)

subsection \<open>What the state file can carry\<close>

text \<open>
  A run of fewer than \<open>2 ^ 32\<close> handlers never leaves what the snapshot format can carry. The
  authorities the coordinator makes have an epoch, and after \<open>n\<close> handlers an attempt generation of at
  most \<open>n + 1\<close>; the terminal authority of an operation is one that passed a fence against such an
  authority, so its epoch and its attempt generation are set as well, and it is valid.
\<close>

definition auth_carried :: "nat \<Rightarrow> AuthorityEnvelope \<Rightarrow> bool" where
  "auth_carried n a \<longleftrightarrow> 0 < gen_value (ae_coordinator_epoch a) \<and>
     0 < gen_value (ae_attempt_generation a) \<and> unat (gen_value (ae_attempt_generation a)) \<le> Suc n"

definition rt_carried :: "nat \<Rightarrow> OperationRuntime \<Rightarrow> bool" where
  "rt_carried n r \<longleftrightarrow> op_persistable r \<and> auth_carried n (rt_authority r)"

definition ops_carried :: "nat \<Rightarrow> OperationRegistry \<Rightarrow> bool" where
  "ops_carried n reg \<longleftrightarrow> um_wf reg \<and> length reg \<le> n \<and> list_all (rt_carried n) (map snd reg)"

definition carried :: "nat \<Rightarrow> FailureStore \<Rightarrow> bool" where
  "carried n st \<longleftrightarrow> store_inv st \<and> ops_carried n (fs_ops st) \<and> length (fs_failures st) \<le> n \<and>
     list_all persistable (map snd (fs_failures st)) \<and>
     list_all entry_persistable (idem_collect (fs_idem st)) \<and> length (fs_idem st) < 2 ^ 32"


lemma carried_new: "carried 0 new_store"
  by (simp add: carried_def ops_carried_def new_store_def store_inv_def um_wf_def idem_collect_def)

lemma auth_carried_valid: "auth_carried n a \<Longrightarrow> validate_authority a"
  by (auto simp: auth_carried_def validate_authority_def gen_is_unset_def)

lemma auth_carried_mono: "auth_carried n a \<Longrightarrow> n \<le> n' \<Longrightarrow> auth_carried n' a"
  by (auto simp: auth_carried_def)

lemma fenced_valid:
  assumes "fence_accepted (fence_failure a cur)" "auth_carried n cur"
  shows "validate_authority a"
  using assms
  by (auto simp: fence_failure_def auth_carried_def validate_authority_def gen_is_unset_def gen_order_defs
      split: if_splits)

lemma rt_calls_carried:
  assumes "rt_carried n r"
  shows "auth_carried n a \<Longrightarrow> rt_carried n (snd (rt_dispatch a r))"
    "rt_carried n (snd (rt_run a r))" "rt_carried n (snd (rt_report_completion a p r))"
    "rt_carried n (snd (rt_confirm_completion a r))" "rt_carried n (snd (rt_report_failure a p r))"
proof -
  have p: "op_persistable r" "auth_carried n (rt_authority r)" using assms by (simp_all add: rt_carried_def)
  note d = rt_carried_def op_persistable_def sm_transition_pair castable_def
  show "auth_carried n a \<Longrightarrow> rt_carried n (snd (rt_dispatch a r))"
    using p auth_carried_valid [of n a] by (auto simp: d rt_dispatch_def Let_def)
  show "rt_carried n (snd (rt_run a r))" "rt_carried n (snd (rt_report_completion a p r))"
    "rt_carried n (snd (rt_report_failure a p r))"
    using p by (auto simp: d rt_run_def rt_report_completion_def rt_report_failure_def Let_def)
  show "rt_carried n (snd (rt_confirm_completion a r))"
    using p fenced_valid [of a "rt_authority r" n] fence_completion_implies_failure [of a "rt_authority r" "rt_terminal r"]
    by (auto simp: d rt_confirm_completion_def Let_def)
qed

lemma um_assign_existing: "map_of m k \<noteq> None \<Longrightarrow> length (um_assign k v m) = length m"
  by (induction k v m rule: um_assign.induct) (auto split: if_splits)

lemma set_um_assign_subset: "set (um_assign k v m) \<subseteq> insert (k, v) (set m)"
  by (induction k v m rule: um_assign.induct) auto

lemma on_op_carried:
  assumes "ops_carried n reg" "\<And>r. rt_carried n r \<Longrightarrow> rt_carried n (snd (body r))"
  shows "ops_carried n (snd (on_op op body reg))"
proof (cases "map_of reg op")
  case None
  then show ?thesis using assms(1) by (simp add: on_op_def)
next
  case (Some r)
  have "rt_carried n r" using assms(1) map_of_SomeD [OF Some] by (auto simp: ops_carried_def list_all_iff)
  then have "rt_carried n (snd (body r))" by (rule assms(2))
  then show ?thesis using assms(1) Some set_um_assign_subset [of op "snd (body r)" reg]
    by (auto simp: on_op_def case_prod_beta ops_carried_def um_wf_assign um_assign_existing list_all_iff)
qed

lemmas reg_calls = reg_dispatch_def reg_run_def reg_report_completion_def reg_confirm_completion_def
  reg_report_failure_def

lemma reg_calls_carried:
  assumes "ops_carried n reg"
  shows "auth_carried n a \<Longrightarrow> ops_carried n (snd (reg_dispatch op a reg))"
    "ops_carried n (snd (reg_run op a reg))" "ops_carried n (snd (reg_report_completion op a p reg))"
    "ops_carried n (snd (reg_confirm_completion op a reg))" "ops_carried n (snd (reg_report_failure op a p reg))"
  unfolding reg_calls by (intro on_op_carried [OF assms] rt_calls_carried; assumption)+

lemma ops_carried_mono: "ops_carried n reg \<Longrightarrow> ops_carried (Suc n) reg"
  by (auto simp: ops_carried_def list_all_iff rt_carried_def intro: auth_carried_mono)

lemma reg_create_carried:
  assumes "ops_carried n reg" "auth_carried (Suc n) a"
  shows "ops_carried (Suc n) (snd (reg_create op a reg))"
proof -
  have "rt_carried (Suc n) (default_runtime\<lparr>rt_authority := a\<rparr>)"
    using assms(2) auth_carried_valid [OF assms(2)] by (simp add: rt_carried_def op_persistable_def
        default_runtime_def castable_def empty_envelope_valid)
  then show ?thesis using ops_carried_mono [OF assms(1)] assms(1)
    by (auto simp: reg_create_def um_emplace_def default_runtime_def ops_carried_def um_wf_def um_count_def
        map_of_eq_None_iff)
qed

text \<open>Handlers of messages change the registry only.\<close>

lemma carried_ops:
  "carried n st \<Longrightarrow> ops_carried n' ops \<Longrightarrow> n \<le> n' \<Longrightarrow> fs_failures st' = fs_failures st \<Longrightarrow>
    fs_idem st' = fs_idem st \<Longrightarrow> fs_ops st' = ops \<Longrightarrow> carried n' st'"
  by (simp add: carried_def ops_carried_def store_inv_def)

lemma co_reg_idem [simp]: "fs_idem (co_store (snd (co_reg call c))) = fs_idem (co_store c)"
  by (simp add: co_reg_def case_prod_beta)

lemma dispatch_carried:
  assumes "carried n (co_store c)"
  shows "carried (Suc n) (co_store (on_dispatch draw pick m c))"
proof (cases "co_workers c = []")
  case True
  then show ?thesis using assms carried_ops [OF assms ops_carried_mono]
    by (simp add: on_dispatch_def Let_def case_prod_beta carried_def)
next
  case False
  let ?a = "first_authority draw pick c"
  have a: "auth_carried n' ?a" for n' by (simp add: auth_carried_def first_authority_def)
  have "ops_carried n (co_ops c)" using assms by (simp add: carried_def)
  then have "ops_carried (Suc n) (co_ops (on_dispatch draw pick m c))"
    by (simp add: on_dispatch_eq [OF False] drawn_attempt_def reg_calls_carried reg_create_carried a)
  then show ?thesis
    by (rule carried_ops [OF assms]) (simp_all add: on_dispatch_eq [OF False] drawn_attempt_def)
qed

lemma complete_carried: "carried n (co_store c) \<Longrightarrow> carried n (co_store (on_complete cn m c))"
proof -
  assume c: "carried n (co_store c)"
  then have "ops_carried n (co_ops (on_complete cn m c))"
    by (simp add: complete_defs Let_def case_prod_beta reg_calls_carried carried_def)
  then show ?thesis by (rule carried_ops [OF c]) (simp_all add: complete_defs Let_def case_prod_beta)
qed

lemma carried_mono: "carried n st \<Longrightarrow> carried (Suc n) st"
  using carried_ops [OF _ ops_carried_mono] by (auto simp: carried_def)

lemma message_carried:
  assumes "carried n (co_store c)"
  shows "carried (Suc n) (co_store (handle_message draw pick cn m c))"
proof -
  have o: "ops_carried n (co_ops c)" using assms by (simp add: carried_def)
  have "carried n (co_store (snd (co_reg (reg_run op a) c)))"
    "carried n (co_store (snd (co_reg (reg_report_failure op a p) c)))" for op a p
    by (rule carried_ops [OF assms]; simp add: reg_calls_carried o)+
  then show ?thesis using assms dispatch_carried [OF assms] carried_mono [OF complete_carried [OF assms]]
    by (cases "wm_type m") (simp_all add: handle_message_def on_running_def on_failure_def on_register_def
        Let_def case_prod_beta carried_mono)
qed

text \<open>The loss of a worker adds one record, and dispatches under the next generation.\<close>

lemma lost_record_persistable:
  "validate_authority cur \<Longrightarrow> persistable (fst (build draw (lost_record op cur now) g))"
  by (simp add: persistable_def lost_record_def build_eq Let_def new_builder_def default_record_def ff_defs)

lemma append_carried:
  assumes "carried n st" "persistable rec"
  shows "carried (Suc n) (snd (append_failure rec st))"
  using assms append_step_inv [of st rec] ops_carried_mono [of n "fs_ops st"]
  by (auto simp: carried_def append_step_def append_failure_def um_emplace_def)

lemma fresh_carried:
  assumes "auth_carried n cur" "n < 2 ^ 32"
  shows "auth_carried (Suc n) (fresh_authority draw cur c)"
proof -
  let ?g = "gen_value (ae_attempt_generation cur)"
  have "unat ?g + 1 < 2 ^ 64" using assms by (simp add: auth_carried_def)
  then have "unat (?g + 1) = unat ?g + 1" by (simp add: unat_word_ariths(1))
  then show ?thesis using assms(1)
    by (simp add: auth_carried_def fresh_authority_def new_attempt_def Let_def case_prod_beta gen_next_def
        word_gt_0 unat_eq_0 [symmetric] del: unat_eq_0)
qed

lemma recover_carried:
  assumes "carried n (co_store c)" "n < 2 ^ 32"
  shows "carried (Suc n) (co_store (recover_operation draw pick now c))"
proof -
  define cur where "cur = reg_current_authority (co_current_op c) (co_ops c)"
  define c1 where "c1 = record_loss draw cur now c"
  have eq: "recover_operation draw pick now c = redispatch draw pick cur c1"
    by (simp add: recover_operation_def Let_def cur_def c1_def)
  have cur: "cur = empty_envelope \<or> auth_carried n cur"
    using assms(1) by (auto simp: cur_def reg_current_authority_def carried_def ops_carried_def list_all_iff
        rt_carried_def split: option.split dest!: map_of_SomeD)
  then have v: "validate_authority cur" using auth_carried_valid empty_envelope_valid by auto
  have own: "carried n st \<Longrightarrow> carried n (st\<lparr>fs_ownership := ow\<rparr>)" for st ow
    by (simp add: carried_def store_inv_def)
  have "carried (Suc n) (co_store c1)"
  proof -
    have call: "carried (Suc n) (co_store (snd (co_reg (reg_report_failure op a p) c')))"
      if "carried (Suc n) (co_store c')" for c' :: "'a Coord" and op a p
      by (rule carried_ops [OF that reg_calls_carried(5)]) (use that in \<open>simp_all add: carried_def\<close>)
    show ?thesis unfolding c1_def record_loss_def Let_def case_prod_beta
      by (rule call) (simp add: append_carried own assms(1) lost_record_persistable v)
  qed
  note c1 = this
  show ?thesis
  proof (cases "choose_replacement pick c1")
    case None
    then show ?thesis using c1 by (simp add: eq redispatch_none)
  next
    case (Some cn)
    let ?b = "fresh_authority draw cur c1"
    show ?thesis
    proof (cases "map_of (co_ops c1) (co_current_op c1)")
      case None
      have "ops_carried (Suc n) (co_ops c1)" using c1 by (simp add: carried_def)
      then show ?thesis
        by (rule carried_ops [OF c1]) (simp_all add: eq redispatch_some [OF Some] Let_def reg_dispatch_def on_op_def None)
    next
      case (Some r)
      obtain r0 where r0: "map_of (co_ops c) (co_current_op c) = Some r0"
        using Some by (auto simp: c1_def reg_report_failure_def on_op_def split: option.splits)
      then have "auth_carried n cur"
        using assms(1) map_of_SomeD [OF r0]
        by (auto simp: cur_def reg_current_authority_def carried_def ops_carried_def list_all_iff rt_carried_def)
      then have b: "auth_carried (Suc n) ?b" using assms(2) by (rule fresh_carried)
      have "carried (Suc n) (co_store (snd (co_reg (reg_dispatch (co_current_op c1) ?b) (snd (new_attempt draw cur c1)))))"
        by (rule carried_ops [OF c1 reg_calls_carried(1) [OF _ b]])
          (use c1 in \<open>simp_all add: carried_def\<close>)
      then show ?thesis by (simp add: eq redispatch_some [OF \<open>choose_replacement pick c1 = Some cn\<close>] Let_def)
    qed
  qed
qed

lemma step_carried:
  assumes "carried n (co_store c)" "n < 2 ^ 32"
  shows "carried (Suc n) (co_store (co_step draw pick e c))"
proof (cases e)
  case (Message cn m)
  then show ?thesis using message_carried [OF assms(1)] by simp
next
  case (Lost cn now)
  let ?c = "c\<lparr>co_workers := um_erase (cn_wid (co_conns c cn)) (co_workers c), co_running := None\<rparr>"
  show ?thesis using recover_carried [of n ?c draw pick now] assms Lost
    by (auto simp: connection_lost_def Let_def carried_mono)
qed

lemma run_carried:
  "carried n (co_store c) \<Longrightarrow> n + length es < 2 ^ 32 \<Longrightarrow>
    carried (n + length es) (co_store (fold (co_step draw pick) es c))"
proof (induction es arbitrary: n c)
  case (Cons e es)
  then show ?case using step_carried [of n c draw pick e] Cons.IH [of "Suc n" "co_step draw pick e c"]
    by (simp del: co_step.simps)
qed simp


subsection \<open>Crash and restart\<close>



end
