(* ===== verification/FF_Sockets.thy ===== *)
theory FF_Sockets
  imports FF_Protocol
begin

text \<open>
  The life of socket handles (\<open>TcpSocket\<close> and \<open>TcpListener\<close> of \<open>include/failure_fabric/protocol.hpp\<close> and
  \<open>src/protocol.cpp\<close>). The Winsock calls are parameters, collected in a record; what is relied on of
  them is the predicate \<open>tracks\<close>, which says how each call changes the set of open handles.
\<close>

subsection \<open>Winsock\<close>

text \<open>Calls that can fail answer \<open>False\<close>, or the invalid handle.\<close>

record 's winsock =
  ws_startup :: "'s \<Rightarrow> bool \<times> 's"
  ws_cleanup :: "'s \<Rightarrow> 's"
  ws_socket :: "'s \<Rightarrow> u64 \<times> 's"
  ws_connect :: "u64 \<Rightarrow> string \<Rightarrow> u16 \<Rightarrow> 's \<Rightarrow> bool \<times> 's"
  ws_setsockopt :: "u64 \<Rightarrow> 's \<Rightarrow> 's"
  ws_bind :: "u64 \<Rightarrow> u16 \<Rightarrow> 's \<Rightarrow> bool \<times> 's"
  ws_listen :: "u64 \<Rightarrow> 's \<Rightarrow> bool \<times> 's"
  ws_accept :: "u64 \<Rightarrow> 's \<Rightarrow> u64 \<times> 's"
  ws_shutdown_both :: "u64 \<Rightarrow> 's \<Rightarrow> 's"
  ws_shutdown_send :: "u64 \<Rightarrow> 's \<Rightarrow> bool \<times> 's"
  ws_closesocket :: "u64 \<Rightarrow> 's \<Rightarrow> 's"

text \<open>The process: whether Winsock is started, and the state of the system.\<close>

record 's Net =
  net_init_done :: bool
  net_sys :: 's

definition winsock_init :: "'s winsock \<Rightarrow> 's Net \<Rightarrow> bool \<times> 's Net" where
  "winsock_init ws n =
     (if net_init_done n then (True, n)
      else let (ok, s) = ws_startup ws (net_sys n); n = n\<lparr>net_sys := s\<rparr>
           in if \<not> ok then (False, n) else (True, n\<lparr>net_init_done := True\<rparr>))"

definition winsock_shutdown :: "'s winsock \<Rightarrow> 's Net \<Rightarrow> 's Net" where
  "winsock_shutdown ws n =
     (if net_init_done n then n\<lparr>net_sys := ws_cleanup ws (net_sys n), net_init_done := False\<rparr> else n)"

subsection \<open>Connections\<close>

record TcpSocket =
  ts_s :: u64

definition new_tcp :: TcpSocket where
  "new_tcp = \<lparr>ts_s = 0\<rparr>"

definition ts_valid :: "TcpSocket \<Rightarrow> bool" where
  "ts_valid t \<longleftrightarrow> ts_s t \<noteq> 0"

definition ts_close :: "'s winsock \<Rightarrow> TcpSocket \<Rightarrow> 's Net \<Rightarrow> TcpSocket \<times> 's Net" where
  "ts_close ws t n =
     (let n = (if ts_s t \<noteq> INVALID_SOCKET
               then n\<lparr>net_sys := ws_closesocket ws (ts_s t) (ws_shutdown_both ws (ts_s t) (net_sys n))\<rparr>
               else n)
      in (t\<lparr>ts_s := 0\<rparr>, n))"

definition ts_destroy :: "'s winsock \<Rightarrow> TcpSocket \<Rightarrow> 's Net \<Rightarrow> 's Net" where
  "ts_destroy ws t n = snd (ts_close ws t n)"

text \<open>Move assignment, of two objects that are not the same: the target, the source, the process.\<close>

definition ts_move ::
  "'s winsock \<Rightarrow> TcpSocket \<Rightarrow> TcpSocket \<Rightarrow> 's Net \<Rightarrow> TcpSocket \<times> TcpSocket \<times> 's Net" where
  "ts_move ws t t' n = (let (t, n) = ts_close ws t n in (t\<lparr>ts_s := ts_s t'\<rparr>, t'\<lparr>ts_s := 0\<rparr>, n))"

definition ts_shutdown_send :: "'s winsock \<Rightarrow> TcpSocket \<Rightarrow> 's Net \<Rightarrow> bool \<times> 's Net" where
  "ts_shutdown_send ws t n =
     (if ts_s t = INVALID_SOCKET then (False, n)
      else let (ok, s) = ws_shutdown_send ws (ts_s t) (net_sys n) in (ok, n\<lparr>net_sys := s\<rparr>))"

definition connect_to ::
  "'s winsock \<Rightarrow> string \<Rightarrow> u16 \<Rightarrow> TcpSocket \<Rightarrow> 's Net \<Rightarrow> bool \<times> TcpSocket \<times> 's Net" where
  "connect_to ws host port t n =
     (let (ok, n) = winsock_init ws n in
      if \<not> ok then (False, t, n)
      else let (h, s) = ws_socket ws (net_sys n); n = n\<lparr>net_sys := s\<rparr> in
      if h = INVALID_SOCKET then (False, t, n)
      else let (ok, s) = ws_connect ws h host port (net_sys n); n = n\<lparr>net_sys := s\<rparr> in
      if \<not> ok then (False, t, n\<lparr>net_sys := ws_closesocket ws h (net_sys n)\<rparr>)
      else (True, t\<lparr>ts_s := h\<rparr>, n))"

subsection \<open>Listening\<close>

record TcpListener =
  tl_s :: u64

definition new_listener :: TcpListener where
  "new_listener = \<lparr>tl_s = 0\<rparr>"

definition tl_destroy :: "'s winsock \<Rightarrow> TcpListener \<Rightarrow> 's Net \<Rightarrow> 's Net" where
  "tl_destroy ws l n =
     (if tl_s l \<noteq> INVALID_SOCKET then n\<lparr>net_sys := ws_closesocket ws (tl_s l) (net_sys n)\<rparr> else n)"

definition tl_listen :: "'s winsock \<Rightarrow> u16 \<Rightarrow> TcpListener \<Rightarrow> 's Net \<Rightarrow> bool \<times> TcpListener \<times> 's Net" where
  "tl_listen ws port l n =
     (let (ok, n) = winsock_init ws n in
      if \<not> ok then (False, l, n)
      else let (h, s) = ws_socket ws (net_sys n); n = n\<lparr>net_sys := s\<rparr> in
      if h = INVALID_SOCKET then (False, l, n)
      else let n = n\<lparr>net_sys := ws_setsockopt ws h (net_sys n)\<rparr>;
               (ok, s) = ws_bind ws h port (net_sys n); n = n\<lparr>net_sys := s\<rparr> in
      if \<not> ok then (False, l, n\<lparr>net_sys := ws_closesocket ws h (net_sys n)\<rparr>)
      else let (ok, s) = ws_listen ws h (net_sys n); n = n\<lparr>net_sys := s\<rparr> in
      if \<not> ok then (False, l, n\<lparr>net_sys := ws_closesocket ws h (net_sys n)\<rparr>)
      else (True, l\<lparr>tl_s := h\<rparr>, n))"

definition tl_accept :: "'s winsock \<Rightarrow> TcpListener \<Rightarrow> 's Net \<Rightarrow> TcpSocket \<times> 's Net" where
  "tl_accept ws l n =
     (if tl_s l = INVALID_SOCKET then (new_tcp, n)
      else let (h, s) = ws_accept ws (tl_s l) (net_sys n); n = n\<lparr>net_sys := s\<rparr> in
        if h = INVALID_SOCKET then (new_tcp, n) else (\<lparr>ts_s = h\<rparr>, n))"

subsection \<open>Open handles\<close>

text \<open>
  How Winsock's calls change the set of open handles: \<open>socket\<close> and \<open>accept\<close> add a handle that was not
  open, or fail; \<open>closesocket\<close> removes one; the others leave the set alone.
\<close>

definition adds_handle :: "('s \<Rightarrow> u64 set) \<Rightarrow> ('s \<Rightarrow> u64 \<times> 's) \<Rightarrow> bool" where
  "adds_handle opens call \<longleftrightarrow> (\<forall>s. fst (call s) \<notin> opens s \<and>
     opens (snd (call s)) = (if fst (call s) = INVALID_SOCKET then opens s else insert (fst (call s)) (opens s)))"

definition keeps_handles :: "('s \<Rightarrow> u64 set) \<Rightarrow> ('s \<Rightarrow> 's) \<Rightarrow> bool" where
  "keeps_handles opens call \<longleftrightarrow> (\<forall>s. opens (call s) = opens s)"

definition tracks :: "'s winsock \<Rightarrow> ('s \<Rightarrow> u64 set) \<Rightarrow> bool" where
  "tracks ws opens \<longleftrightarrow>
     adds_handle opens (ws_socket ws) \<and> (\<forall>l. adds_handle opens (ws_accept ws l)) \<and>
     (\<forall>h s. opens (ws_closesocket ws h s) = opens s - {h}) \<and>
     keeps_handles opens (snd \<circ> ws_startup ws) \<and>
     (\<forall>h host port. keeps_handles opens (snd \<circ> ws_connect ws h host port)) \<and>
     (\<forall>h. keeps_handles opens (ws_setsockopt ws h)) \<and>
     (\<forall>h port. keeps_handles opens (snd \<circ> ws_bind ws h port)) \<and>
     (\<forall>h. keeps_handles opens (snd \<circ> ws_listen ws h)) \<and>
     (\<forall>h. keeps_handles opens (ws_shutdown_both ws h))"

lemma tracksD:
  assumes "tracks ws opens"
  shows "opens (snd (ws_startup ws s)) = opens s" "opens (snd (ws_connect ws h host port s)) = opens s"
    "opens (ws_setsockopt ws h s) = opens s" "opens (snd (ws_bind ws h port s)) = opens s"
    "opens (snd (ws_listen ws h s)) = opens s" "opens (ws_shutdown_both ws h s) = opens s"
    "opens (ws_closesocket ws h s) = opens s - {h}"
    "fst (ws_socket ws s) \<notin> opens s" "fst (ws_accept ws l s) \<notin> opens s"
    "opens (snd (ws_socket ws s)) =
       (if fst (ws_socket ws s) = INVALID_SOCKET then opens s else insert (fst (ws_socket ws s)) (opens s))"
    "opens (snd (ws_accept ws l s)) =
       (if fst (ws_accept ws l s) = INVALID_SOCKET then opens s else insert (fst (ws_accept ws l s)) (opens s))"
  using assms by (simp_all add: tracks_def adds_handle_def keeps_handles_def)

abbreviation net_opens :: "('s \<Rightarrow> u64 set) \<Rightarrow> 's Net \<Rightarrow> u64 set" where
  "net_opens opens n \<equiv> opens (net_sys n)"

lemma init_keeps: "tracks ws opens \<Longrightarrow> net_opens opens (snd (winsock_init ws n)) = net_opens opens n"
  by (simp add: winsock_init_def Let_def case_prod_beta tracksD)

lemma close_removes:
  "tracks ws opens \<Longrightarrow> ts_s t \<noteq> INVALID_SOCKET \<Longrightarrow>
    net_opens opens (snd (ts_close ws t n)) = net_opens opens n - {ts_s t}"
  by (simp add: ts_close_def Let_def tracksD)

lemma connect_handles:
  assumes "tracks ws opens" "connect_to ws host port t n = (ok, t', n')"
  shows "if ok then ts_s t' \<notin> net_opens opens n \<and> ts_s t' \<noteq> INVALID_SOCKET \<and>
      net_opens opens n' = insert (ts_s t') (net_opens opens n)
    else t' = t \<and> net_opens opens n' = net_opens opens n"
proof -
  note init = init_keeps [OF assms(1), of n]
  have "fst (ws_socket ws (net_sys (snd (winsock_init ws n)))) \<notin> net_opens opens n"
    using tracksD(8) [OF assms(1), of "net_sys (snd (winsock_init ws n))"] by (simp add: init)
  then show ?thesis using assms(2) init tracksD [OF assms(1)]
    by (auto simp: connect_to_def Let_def case_prod_beta split: if_splits)
qed

lemma listen_handles:
  assumes "tracks ws opens" "tl_listen ws port l n = (ok, l', n')"
  shows "if ok then tl_s l' \<notin> net_opens opens n \<and> tl_s l' \<noteq> INVALID_SOCKET \<and>
      net_opens opens n' = insert (tl_s l') (net_opens opens n)
    else l' = l \<and> net_opens opens n' = net_opens opens n"
proof -
  note init = init_keeps [OF assms(1), of n]
  have "fst (ws_socket ws (net_sys (snd (winsock_init ws n)))) \<notin> net_opens opens n"
    using tracksD(8) [OF assms(1), of "net_sys (snd (winsock_init ws n))"] by (simp add: init)
  then show ?thesis using assms(2) init tracksD [OF assms(1)]
    by (auto simp: tl_listen_def Let_def case_prod_beta split: if_splits)
qed

lemma accept_handles:
  assumes "tracks ws opens" "tl_accept ws l n = (t, n')"
  shows "(t = new_tcp \<and> net_opens opens n' = net_opens opens n) \<or>
    (ts_s t \<notin> net_opens opens n \<and> ts_s t \<noteq> INVALID_SOCKET \<and>
     net_opens opens n' = insert (ts_s t) (net_opens opens n))"
  using assms(2) tracksD [OF assms(1)]
  by (auto simp: tl_accept_def Let_def case_prod_beta split: if_splits)

subsection \<open>Sessions\<close>

text \<open>
  Objects from construction to destruction: a client connection, a listener, and an accepted
  connection as the coordinator's loop handles it (moved into the connection object).
\<close>

datatype session = Client string u16 | Listener u16 | Accepted TcpListener

fun run_session :: "'s winsock \<Rightarrow> session \<Rightarrow> 's Net \<Rightarrow> 's Net" where
  "run_session ws (Client host port) n =
     (let (ok, t, n) = connect_to ws host port new_tcp n in ts_destroy ws t n)"
| "run_session ws (Listener port) n =
     (let (ok, l, n) = tl_listen ws port new_listener n in tl_destroy ws l n)"
| "run_session ws (Accepted l) n =
     (let (cli, n) = tl_accept ws l n; (conn, cli, n) = ts_move ws new_tcp cli n;
          n = ts_destroy ws cli n
      in ts_destroy ws conn n)"

lemma INVALID_not_zero [simp]: "INVALID_SOCKET \<noteq> 0" "0 \<noteq> INVALID_SOCKET"
  by (simp_all add: INVALID_SOCKET_def)

lemma session_returns_handles:
  assumes "tracks ws opens" "0 \<notin> net_opens opens n"
  shows "net_opens opens (run_session ws e n) = net_opens opens n"
proof (cases e)
  case (Client host port)
  obtain ok t n1 where c: "connect_to ws host port new_tcp n = (ok, t, n1)" by (metis prod_cases3)
  show ?thesis using connect_handles [OF assms(1) c] assms(2) Client c close_removes [OF assms(1), of t n1]
    by (auto simp: ts_destroy_def new_tcp_def split: if_splits)
next
  case (Listener port)
  obtain ok l n1 where c: "tl_listen ws port new_listener n = (ok, l, n1)" by (metis prod_cases3)
  show ?thesis using listen_handles [OF assms(1) c] assms(2) Listener c tracksD(7) [OF assms(1)]
    by (auto simp: tl_destroy_def new_listener_def split: if_splits)
next
  case (Accepted l)
  obtain t n1 where c: "tl_accept ws l n = (t, n1)" by fastforce
  have "t = new_tcp \<and> net_opens opens n1 = net_opens opens n \<or>
      ts_s t \<notin> net_opens opens n \<and> ts_s t \<noteq> INVALID_SOCKET \<and>
      net_opens opens n1 = insert (ts_s t) (net_opens opens n)"
    by (rule accept_handles [OF assms(1) c])
  then show ?thesis using assms(2) Accepted c tracksD(6,7) [OF assms(1)]
    by (auto simp: ts_destroy_def ts_move_def ts_close_def new_tcp_def Let_def)
qed

text \<open>
  Sockets are not leaked. If Winsock's calls change the set of open handles as documented, and the
  number 0, which the classes use for \<open>no socket\<close>, is not an open handle of the process, then after
  any sequence of client connections, listeners and accepted connections, each constructed, used and
  destroyed, and each possibly failing at any call, the same handles are open as before.
\<close>

lemma sessions_leak_no_handles:
  assumes "tracks ws opens" "0 \<notin> net_opens opens n"
  shows "net_opens opens (fold (run_session ws) es n) = net_opens opens n"
  using assms(2)
proof (induction es arbitrary: n)
  case (Cons e es)
  then show ?case using session_returns_handles [OF assms(1) Cons.prems] by simp
qed simp

text \<open>A system with room for one socket, which has the number 7 while it is open.\<close>

definition one_slot :: "bool winsock" where
  "one_slot = \<lparr>ws_startup = (\<lambda>s. (True, s)), ws_cleanup = (\<lambda>s. s),
     ws_socket = (\<lambda>s. if s then (INVALID_SOCKET, s) else (7, True)),
     ws_connect = (\<lambda>h host port s. (host = ''127.0.0.1'', s)), ws_setsockopt = (\<lambda>h s. s),
     ws_bind = (\<lambda>h port s. (port \<noteq> 0, s)), ws_listen = (\<lambda>h s. (True, s)),
     ws_accept = (\<lambda>l s. if s then (INVALID_SOCKET, s) else (7, True)),
     ws_shutdown_both = (\<lambda>h s. s), ws_shutdown_send = (\<lambda>h s. (True, s)),
     ws_closesocket = (\<lambda>h s. if h = 7 then False else s)\<rparr>"

definition slot_opens :: "bool \<Rightarrow> u64 set" where
  "slot_opens s = (if s then {7} else {})"

text \<open>
  Connecting an object that is already connected leaks its handle: the old one stays open and no
  object holds it.
\<close>

lemma reconnect_leaks:
  assumes "tracks ws opens" "ts_s t \<in> net_opens opens n" "connect_to ws host port t n = (True, t', n')"
  shows "ts_s t \<in> net_opens opens n' \<and> ts_s t' \<noteq> ts_s t"
  using connect_handles [OF assms(1,3)] assms(2) by auto

end
