(* ===== verification/FF_Worker.thy ===== *)
theory FF_Worker
  imports FF_Coordinator FF_Sockets
begin

text \<open>
  The worker process (\<open>src/worker.cpp\<close>) from start to exit: it connects, registers, waits for the
  acknowledgement and then for a dispatch, appends its marker line and reports. What it sends in
  reply to a message is \<open>worker_on\<close> of \<open>FF_Coordinator\<close>. The system is a parameter: the Winsock calls,
  \<open>send\<close> and \<open>recv\<close> on a handle, and whether a file can be appended to.
\<close>

record 's Io =
  io_ws :: "'s winsock"
  io_send :: "u64 \<Rightarrow> 's sys_send"
  io_recv :: "u64 \<Rightarrow> 's sys_recv"
  io_append :: "string \<Rightarrow> bool"

text \<open>The process: the network, and the lines appended to files, with their paths.\<close>

record 's Worker =
  wk_net :: "'s Net"
  wk_marks :: "(string \<times> string) list"

subsection \<open>Sending and receiving\<close>

definition wk_send :: "'s Io \<Rightarrow> TcpSocket \<Rightarrow> WireMessage \<Rightarrow> 's Worker \<Rightarrow> bool \<times> 's Worker" where
  "wk_send io t m w =
     (let (ok, s) = send_frame (io_send io (ts_s t)) (ts_s t) m (net_sys (wk_net w))
      in (ok, w\<lparr>wk_net := (wk_net w)\<lparr>net_sys := s\<rparr>\<rparr>))"

definition wk_recv :: "'s Io \<Rightarrow> TcpSocket \<Rightarrow> 's Worker \<Rightarrow> WireMessage option \<times> 's Worker" where
  "wk_recv io t w =
     (let (m, s) = recv_frame (io_recv io (ts_s t)) (net_sys (wk_net w))
      in (m, w\<lparr>wk_net := (wk_net w)\<lparr>net_sys := s\<rparr>\<rparr>))"

subsection \<open>The side effect\<close>

text \<open>
  The path is cut by \<open>snprintf\<close> to the 511 characters that fit its buffer; the format begins with
  \<open>%s\<close> and the escape \<open>\a\<close>, character 7.
\<close>

definition marker_path :: "string \<Rightarrow> AttemptGeneration \<Rightarrow> string" where
  "marker_path workdir gen =
     take 511 (workdir @ [CHR 0x07] @ ''ttempt_'' @
       (if gen_is_unset gen then ''0'' else show_word (gen_value gen)) @ ''_marker.txt'')"

definition wk_mark :: "'s Io \<Rightarrow> string \<Rightarrow> WireMessage \<Rightarrow> string \<Rightarrow> 's Worker \<Rightarrow> 's Worker" where
  "wk_mark io workdir m line w =
     (let path = marker_path workdir (ae_attempt_generation (wm_authority m))
      in if io_append io path then w\<lparr>wk_marks := wk_marks w @ [(path, line)]\<rparr> else w)"

subsection \<open>The main loop\<close>

text \<open>A dispatch: the exit code, and the process it leaves.\<close>

definition wk_dispatch ::
  "'s Io \<Rightarrow> TcpSocket \<Rightarrow> WireMessage \<Rightarrow> string \<Rightarrow> string \<Rightarrow> WireMessage \<Rightarrow> 's Worker \<Rightarrow> int \<times> 's Worker" where
  "wk_dispatch io t reg workdir mode m w =
     (let reply = worker_on reg mode m;
          (ok, w) = wk_send io t (wr_sends reply ! 0) w in
      if \<not> ok then (2, w)
      else let w = (case wr_marker reply of None \<Rightarrow> w | Some line \<Rightarrow> wk_mark io workdir m line w);
               (ok, w) = wk_send io t (wr_sends reply ! 1) w in
      if mode = ''fail'' then (if \<not> ok then (2, w) else (0, w)) else (0, w))"

partial_function (option) wk_loop ::
  "'s Io \<Rightarrow> TcpSocket \<Rightarrow> WireMessage \<Rightarrow> string \<Rightarrow> string \<Rightarrow> 's Worker \<Rightarrow> (int \<times> 's Worker) option" where
  "wk_loop io t reg workdir mode w =
     (case wk_recv io t w of
        (None, w) \<Rightarrow> Some (0, w)
      | (Some m, w) \<Rightarrow>
          if wm_type m = ProtocolMessage.DISPATCH then Some (wk_dispatch io t reg workdir mode m w)
          else if wm_type m = ProtocolMessage.SHUTDOWN then Some (0, w)
          else wk_loop io t reg workdir mode w)"

text \<open>After the connection is made: registration, acknowledgement, loop.\<close>

definition wk_session ::
  "('g \<Rightarrow> u64 \<times> 'g) \<Rightarrow> 's Io \<Rightarrow> TcpSocket \<Rightarrow> string \<Rightarrow> string \<Rightarrow> 'g \<Rightarrow> 's Worker \<Rightarrow> (int \<times> 's Worker) option" where
  "wk_session draw io t workdir mode g w =
     (let (wid, g) = Id_generate draw g; (boot, g) = Id_generate draw g;
          reg = worker_register wid boot workdir;
          (ok, w) = wk_send io t reg w in
      if \<not> ok then Some (2, w)
      else case wk_recv io t w of
          (None, w) \<Rightarrow> Some (2, w)
        | (Some ack, w) \<Rightarrow>
            if wm_type ack \<noteq> ProtocolMessage.REGISTER_ACK then Some (2, w)
            else wk_loop io t reg workdir mode w)"

text \<open>\<open>main\<close>, with the arguments after the name of the program; the socket is destroyed on return.\<close>

definition worker_main ::
  "('g \<Rightarrow> u64 \<times> 'g) \<Rightarrow> 's Io \<Rightarrow> string list \<Rightarrow> 'g \<Rightarrow> 's Worker \<Rightarrow> (int \<times> 's Worker) option" where
  "worker_main draw io argv g w =
     (case argv of
        host # port # workdir # mode # rest \<Rightarrow>
          let (ok, n) = winsock_init (io_ws io) (wk_net w); w = w\<lparr>wk_net := n\<rparr> in
          if \<not> ok then Some (2, w)
          else let (ok, t, n) = connect_to (io_ws io) host (word_of_int (atoi port)) new_tcp (wk_net w);
                   w = w\<lparr>wk_net := n\<rparr>;
                   result = (if \<not> ok then Some (2, w) else wk_session draw io t workdir mode g w)
               in map_option (\<lambda>(code, w). (code, w\<lparr>wk_net := ts_destroy (io_ws io) t (wk_net w)\<rparr>)) result
      | _ \<Rightarrow> Some (2, w))"

subsection \<open>Both directions of a connection\<close>

text \<open>
  A connection that stays up: every send accepts something, and the two directions do not disturb
  each other.
\<close>

locale duplex = byte_sink sys_send sent + closing_source sys_recv arriving
  for sys_send :: "'s sys_send" and sent and sys_recv :: "'s sys_recv" and arriving +
  assumes accepts_some: "bs \<noteq> [] \<Longrightarrow> 0 < fst (sys_send bs s)"
    and send_keeps: "arriving (snd (sys_send bs s)) = arriving s"
    and recv_keeps: "sent (snd (sys_recv n s)) = sent s"
begin

lemma send_all_succeeds:
  "\<exists>s'. send_all sys_send p s = (True, s') \<and> arriving s' = arriving s"
proof (induction "length p" arbitrary: p s rule: less_induct)
  case less
  show ?case
  proof (cases "p = []")
    case False
    let ?q = "take (request (length p)) p"
    obtain n s1 where r: "sys_send ?q s = (n, s1)" by fastforce
    have "?q \<noteq> []" using False by (auto simp: request_def INT_MAX_def)
    then have n: "0 < n" "arriving s1 = arriving s"
      using accepts_some [of ?q s] send_keeps [of ?q s] r by simp_all
    then have "length (drop n p) < length p" using False by simp
    from less.hyps [OF this, of s1] show ?thesis using n r False by (subst send_all.simps) simp
  qed (simp add: send_all.simps)
qed

lemma send_frame_succeeds:
  assumes "h \<noteq> INVALID_SOCKET"
  shows "\<exists>s'. send_frame sys_send h m s = (True, s') \<and> arriving s' = arriving s \<and>
    sent s' = sent s @ wire_frame m"
proof -
  obtain s' where s': "send_frame sys_send h m s = (True, s')" "arriving s' = arriving s"
    using assms send_all_succeeds by (simp add: send_frame_def Let_def) blast
  then show ?thesis using send_frame_sent by blast
qed

lemma recv_all_keeps: "sent (snd (recv_all sys_recv n s)) = sent s"
proof (induction n arbitrary: s rule: less_induct)
  case (less n)
  obtain got s1 where r: "sys_recv (request n) s = (got, s1)" by fastforce
  have k: "sent s1 = sent s" using recv_keeps [of "request n" s] r by simp
  show ?case using less.IH [of "n - length got" s1] r k
    by (subst recv_all.simps) (auto simp: Let_def case_prod_beta)
qed

lemma recv_all_keepsD: "recv_all sys_recv n s = (x, s') \<Longrightarrow> sent s' = sent s"
  using recv_all_keeps [of n s] by simp

lemma recv_frame_keeps: "recv_frame sys_recv s = (x, s') \<Longrightarrow> sent s' = sent s"
  by (auto simp: recv_frame_def Let_def split: prod.splits option.splits if_splits dest!: recv_all_keepsD)

end

interpretation seg_duplex: duplex seg_send seg_out seg_recv seg_in
proof unfold_locales
  fix bs :: "byte list" and s :: seg_socket
  assume "bs \<noteq> []"
  then show "0 < fst (seg_send bs s)" using seg_amount_le(2) [of "length bs" s] by (simp add: seg_send_def Let_def)
qed (simp_all add: seg_send_def seg_recv_def Let_def)

subsection \<open>The loop ends\<close>

lemma wk_recv_parts:
  "wk_recv io t w = (m, w') \<Longrightarrow> recv_frame (io_recv io (ts_s t)) (net_sys (wk_net w)) = (m, net_sys (wk_net w')) \<and>
    wk_marks w' = wk_marks w"
  by (auto simp: wk_recv_def split: prod.splits)

lemma wk_dispatch_code: "fst (wk_dispatch io t reg workdir mode m w) \<in> {0, 2}"
  by (simp add: wk_dispatch_def Let_def case_prod_beta)

lemma wk_loop_ends:
  assumes "closing_source (io_recv io (ts_s t)) arriving"
  shows "\<exists>code w'. wk_loop io t reg workdir mode w = Some (code, w') \<and> code \<in> {0, 2}"
proof (induction "length (arriving (net_sys (wk_net w)))" arbitrary: w rule: less_induct)
  case less
  obtain m w1 where r: "wk_recv io t w = (m, w1)" by fastforce
  show ?case
  proof (cases m)
    case (Some msg)
    have "length (arriving (net_sys (wk_net w1))) < length (arriving (net_sys (wk_net w)))"
      using closing_source.recv_frame_consumes [OF assms] wk_recv_parts [OF r] Some by blast
    note rest = less.hyps [OF this]
    obtain code w2 where d: "wk_dispatch io t reg workdir mode msg w1 = (code, w2)" by fastforce
    show ?thesis
      using Some r rest d wk_dispatch_code [of io t reg workdir mode msg w1]
      by (subst (1) wk_loop.simps) simp
  qed (subst wk_loop.simps, simp add: r)
qed

text \<open>
  C15: the worker process ends. If every stream a socket delivers ends (a closed connection makes
  \<open>recv\<close> return nothing), then \<open>main\<close> returns for all arguments, random numbers, messages and
  failures of the system, and its exit code is 0 or 2.
\<close>

theorem worker_terminates:
  assumes "\<forall>h. closing_source (io_recv io h) (arriving h)"
  shows "\<exists>code w'. worker_main draw io argv g w = Some (code, w') \<and> code \<in> {0, 2}"
proof -
  have loop: "\<exists>code w'. wk_session draw io t workdir mode g w = Some (code, w') \<and> code \<in> {0, 2}" for t workdir mode w
    using wk_loop_ends [of io t "arriving (ts_s t)"] assms
    by (simp add: wk_session_def Let_def case_prod_beta split: option.split)
  show ?thesis using loop
    by (auto simp: worker_main_def Let_def case_prod_beta split: list.split)
qed

text \<open>A system on one cut-up connection: connecting always succeeds and every file can be written.\<close>

definition seg_winsock :: "seg_socket winsock" where
  "seg_winsock = \<lparr>ws_startup = (\<lambda>s. (True, s)), ws_cleanup = (\<lambda>s. s), ws_socket = (\<lambda>s. (7, s)),
     ws_connect = (\<lambda>h host port s. (True, s)), ws_setsockopt = (\<lambda>h s. s), ws_bind = (\<lambda>h port s. (True, s)),
     ws_listen = (\<lambda>h s. (True, s)), ws_accept = (\<lambda>l s. (7, s)), ws_shutdown_both = (\<lambda>h s. s),
     ws_shutdown_send = (\<lambda>h s. (True, s)), ws_closesocket = (\<lambda>h s. s)\<rparr>"

definition seg_io :: "seg_socket Io" where
  "seg_io = \<lparr>io_ws = seg_winsock, io_send = (\<lambda>h. seg_send), io_recv = (\<lambda>h. seg_recv), io_append = (\<lambda>path. True)\<rparr>"

definition seg_worker :: "WireMessage list \<Rightarrow> seg_socket Worker" where
  "seg_worker ms = \<lparr>wk_net = \<lparr>net_init_done = False,
       net_sys = \<lparr>seg_in = concat (map wire_frame ms), seg_out = [], seg_schedule = [3, 0, 7]\<rparr>\<rparr>, wk_marks = []\<rparr>"

theorem worker_terminates_witness:
  "\<exists>code w'. worker_main (\<lambda>g. (g, g + 1)) seg_io [''127.0.0.1'', ''5000'', ''work'', ''normal''] (5 :: u64)
      (seg_worker [default_message]) = Some (code, w') \<and> code \<in> {0, 2}"
  by (rule worker_terminates [where arriving = "\<lambda>h. seg_in"]) (simp add: seg_io_def seg_source.closing_source_axioms)

subsection \<open>What a worker reports\<close>

lemma wk_send_works:
  assumes "duplex (io_send io (ts_s t)) sent sys_recv arriving" "ts_s t \<noteq> INVALID_SOCKET"
  shows "\<exists>w'. wk_send io t m w = (True, w') \<and> wk_marks w' = wk_marks w \<and>
    arriving (net_sys (wk_net w')) = arriving (net_sys (wk_net w)) \<and>
    sent (net_sys (wk_net w')) = sent (net_sys (wk_net w)) @ wire_frame m"
  using duplex.send_frame_succeeds [OF assms, of m "net_sys (wk_net w)"] by (auto simp: wk_send_def)

lemma wk_recv_works:
  assumes "duplex sys_send sent (io_recv io (ts_s t)) arriving" "wire_sendable m"
    "arriving (net_sys (wk_net w)) = wire_frame m @ rest"
  shows "\<exists>w'. wk_recv io t w = (Some m, w') \<and> wk_marks w' = wk_marks w \<and>
    arriving (net_sys (wk_net w')) = rest \<and> sent (net_sys (wk_net w')) = sent (net_sys (wk_net w))"
proof -
  have "byte_source (io_recv io (ts_s t)) arriving"
    using assms(1) by (simp add: duplex_def closing_source_def)
  from byte_source.recv_frame_message [OF this assms(2,3)]
  obtain s' where s': "recv_frame (io_recv io (ts_s t)) (net_sys (wk_net w)) = (Some m, s')" "arriving s' = rest"
    by blast
  then show ?thesis using duplex.recv_frame_keeps [OF assms(1) s'(1)] by (simp add: wk_recv_def)
qed

abbreviation passed_over :: "WireMessage \<Rightarrow> bool" where
  "passed_over m \<equiv> wm_type m \<notin> {ProtocolMessage.DISPATCH, ProtocolMessage.SHUTDOWN}"

lemma wk_loop_skips:
  assumes "duplex sys_send sent (io_recv io (ts_s t)) arriving"
  shows "list_all wire_sendable ms \<Longrightarrow> list_all passed_over ms \<Longrightarrow>
    arriving (net_sys (wk_net w)) = concat (map wire_frame ms) @ rest \<Longrightarrow>
    \<exists>w'. wk_loop io t reg workdir mode w = wk_loop io t reg workdir mode w' \<and> wk_marks w' = wk_marks w \<and>
      arriving (net_sys (wk_net w')) = rest \<and> sent (net_sys (wk_net w')) = sent (net_sys (wk_net w))"
proof (induction ms arbitrary: w)
  case (Cons m ms)
  obtain w1 where w1: "wk_recv io t w = (Some m, w1)" "wk_marks w1 = wk_marks w"
    "arriving (net_sys (wk_net w1)) = concat (map wire_frame ms) @ rest"
    "sent (net_sys (wk_net w1)) = sent (net_sys (wk_net w))"
    using wk_recv_works [OF assms, of m w "concat (map wire_frame ms) @ rest"] Cons.prems by auto
  have "wk_loop io t reg workdir mode w = wk_loop io t reg workdir mode w1"
    using w1(1) Cons.prems(2) by (subst wk_loop.simps) simp
  then show ?case using Cons.IH [of w1] Cons.prems(1,2) w1 by auto
qed auto

lemma wk_dispatch_reports:
  fixes workdir :: string
  assumes "duplex (io_send io (ts_s t)) sent sys_recv arriving" "ts_s t \<noteq> INVALID_SOCKET"
    "wm_type m = ProtocolMessage.DISPATCH"
  defines "path \<equiv> marker_path workdir (ae_attempt_generation (wm_authority m))"
  shows "\<exists>w'. wk_dispatch io t reg workdir mode m w = (0, w') \<and>
    sent (net_sys (wk_net w')) = sent (net_sys (wk_net w)) @ concat (map wire_frame (wr_sends (worker_on reg mode m))) \<and>
    wk_marks w' = wk_marks w @ (if io_append io path then [(path, the (wr_marker (worker_on reg mode m)))] else [])"
proof -
  obtain a b line where reply: "wr_sends (worker_on reg mode m) = [a, b]" "wr_marker (worker_on reg mode m) = Some line"
    using assms(3) by (cases "mode = ''fail''") (auto simp: worker_on_def Let_def)
  obtain w1 where w1: "wk_send io t a w = (True, w1)" "wk_marks w1 = wk_marks w"
    "sent (net_sys (wk_net w1)) = sent (net_sys (wk_net w)) @ wire_frame a"
    using wk_send_works [OF assms(1,2)] by blast
  define w2 where "w2 = wk_mark io workdir m line w1"
  have w2: "wk_net w2 = wk_net w1"
    "wk_marks w2 = wk_marks w1 @ (if io_append io path then [(path, line)] else [])"
    by (simp_all add: w2_def wk_mark_def path_def Let_def)
  obtain w3 where w3: "wk_send io t b w2 = (True, w3)" "wk_marks w3 = wk_marks w2"
    "sent (net_sys (wk_net w3)) = sent (net_sys (wk_net w2)) @ wire_frame b"
    using wk_send_works [OF assms(1,2)] by blast
  have "wk_dispatch io t reg workdir mode m w = (0, w3)"
    using w1(1) w3(1) by (simp add: wk_dispatch_def reply w2_def [symmetric])
  then show ?thesis using w1 w2 w3 by (simp add: reply)
qed

text \<open>The replies and the marker line of a worker that does not fail on purpose.\<close>

definition running_report :: "WorkerId \<Rightarrow> WorkerBootId \<Rightarrow> WireMessage \<Rightarrow> WireMessage" where
  "running_report wid boot m = default_message\<lparr>wm_type := ProtocolMessage.RUNNING, wm_op := wm_op m,
     wm_attempt := wm_attempt m, wm_worker := wid, wm_boot := boot, wm_authority := wm_authority m\<rparr>"

definition completion_report :: "WorkerId \<Rightarrow> WorkerBootId \<Rightarrow> WireMessage \<Rightarrow> WireMessage" where
  "completion_report wid boot m = default_message\<lparr>wm_type := ProtocolMessage.COMPLETE, wm_op := wm_op m,
     wm_attempt := wm_attempt m, wm_worker := wid, wm_boot := boot, wm_authority := wm_authority m,
     wm_text := ''result=done''\<rparr>"

lemma worker_on_normal:
  assumes "wm_type m = ProtocolMessage.DISPATCH" "mode \<noteq> ''fail''"
  shows "worker_on (worker_register wid boot workdir) mode m =
    \<lparr>wr_sends = [running_report wid boot m, completion_report wid boot m],
     wr_marker = Some (''worker_'' @ mode @ ''_attempt_'' @
       show_word (gen_value (ae_attempt_generation (wm_authority m))) @ '' marker''), wr_exit = True\<rparr>"
  using assms by (simp add: worker_on_def worker_register_def running_report_def completion_report_def Let_def)

text \<open>
  C17: a worker that is dispatched reports. On a connection that stays up, whatever way it cuts the
  stream into segments, a worker in a mode other than \<open>fail\<close> that is acknowledged, then gets any
  messages that are neither a dispatch nor a shutdown, and then a dispatch, ends with exit code 0; it
  has sent its registration, that it is running and that it has completed, both with the operation,
  attempt and authority of the dispatch and its own identity, in this order and nothing else. If the
  file of the attempt's generation can be opened, it has appended one marker line to it, and nothing
  to any file otherwise.
\<close>

theorem worker_reports:
  assumes "duplex (io_send io (ts_s t)) sent (io_recv io (ts_s t)) arriving" "ts_s t \<noteq> INVALID_SOCKET"
    and "arriving (net_sys (wk_net w)) = concat (map wire_frame (ack # ignored @ [m])) @ rest"
    and "list_all wire_sendable (ack # ignored @ [m])" "wm_type ack = ProtocolMessage.REGISTER_ACK"
    and "list_all passed_over ignored" "wm_type m = ProtocolMessage.DISPATCH" "mode \<noteq> ''fail''"
  shows "\<exists>w'. wk_session draw io t workdir mode g w = Some (0, w') \<and>
    (let (wid, g1) = Id_generate draw g; (boot, g2) = Id_generate draw g1;
         path = marker_path workdir (ae_attempt_generation (wm_authority m)) in
     sent (net_sys (wk_net w')) = sent (net_sys (wk_net w)) @ concat (map wire_frame
       [worker_register wid boot workdir, running_report wid boot m, completion_report wid boot m]) \<and>
     wk_marks w' = wk_marks w @ (if io_append io path then [(path, ''worker_'' @ mode @ ''_attempt_'' @
       show_word (gen_value (ae_attempt_generation (wm_authority m))) @ '' marker'')] else []))"
proof -
  obtain wid :: WorkerId and g1 and boot :: WorkerBootId and g2
    where gen: "Id_generate draw g = (wid, g1)" "Id_generate draw g1 = (boot, g2)" by fastforce
  define reg where "reg = worker_register wid boot workdir"
  note up = assms(1)
  obtain w1 where w1: "wk_send io t reg w = (True, w1)" "wk_marks w1 = wk_marks w"
    "arriving (net_sys (wk_net w1)) = wire_frame ack @ concat (map wire_frame ignored) @ wire_frame m @ rest"
    "sent (net_sys (wk_net w1)) = sent (net_sys (wk_net w)) @ wire_frame reg"
    using wk_send_works [OF up assms(2), of reg w] assms(3) by auto
  obtain w2 where w2: "wk_recv io t w1 = (Some ack, w2)" "wk_marks w2 = wk_marks w1"
    "arriving (net_sys (wk_net w2)) = concat (map wire_frame ignored) @ wire_frame m @ rest"
    "sent (net_sys (wk_net w2)) = sent (net_sys (wk_net w1))"
    using wk_recv_works [OF up _ w1(3)] assms(4) by auto
  obtain w3 where w3: "wk_loop io t reg workdir mode w2 = wk_loop io t reg workdir mode w3" "wk_marks w3 = wk_marks w2"
    "arriving (net_sys (wk_net w3)) = wire_frame m @ rest" "sent (net_sys (wk_net w3)) = sent (net_sys (wk_net w2))"
    using wk_loop_skips [OF up _ assms(6) w2(3), of reg workdir mode] assms(4) by auto
  obtain w4 where w4: "wk_recv io t w3 = (Some m, w4)" "wk_marks w4 = wk_marks w3"
    "sent (net_sys (wk_net w4)) = sent (net_sys (wk_net w3))"
    using wk_recv_works [OF up _ w3(3)] assms(4) by auto
  have "wk_session draw io t workdir mode g w = wk_loop io t reg workdir mode w2"
    using w1(1) w2(1) assms(5) by (simp add: wk_session_def gen reg_def [symmetric])
  also have "\<dots> = Some (wk_dispatch io t reg workdir mode m w4)"
    using w3(1) w4(1) assms(7) by (simp add: wk_loop.simps [of io t reg workdir mode w3])
  finally show ?thesis
    using wk_dispatch_reports [OF up assms(2,7), of reg workdir mode w4] w1 w2 w3 w4
    by (auto simp: gen reg_def [symmetric] worker_on_normal [OF assms(7,8), of wid boot workdir, folded reg_def])
qed

theorem worker_reports_witness:
  "let disp = dispatch_message null_id null_id (empty_envelope\<lparr>ae_attempt_generation := Generation 3\<rparr>);
       ack = default_message\<lparr>wm_type := ProtocolMessage.REGISTER_ACK\<rparr> in
   \<exists>w'. wk_session (\<lambda>g. (g, g + 1)) seg_io \<lparr>ts_s = 7\<rparr> ''work'' ''normal'' (5 :: u64)
       (seg_worker [ack, default_message, disp]) = Some (0, w') \<and>
     length (wk_marks w') = 1"
proof -
  let ?disp = "dispatch_message null_id null_id (empty_envelope\<lparr>ae_attempt_generation := Generation 3\<rparr>)"
  let ?ack = "default_message\<lparr>wm_type := ProtocolMessage.REGISTER_ACK\<rparr>"
  have "duplex (io_send seg_io 7) seg_out (io_recv seg_io 7) seg_in"
    by (simp add: seg_io_def seg_duplex.duplex_axioms)
  then obtain w' where "wk_session (\<lambda>g. (g, g + 1)) seg_io \<lparr>ts_s = 7\<rparr> ''work'' ''normal'' (5 :: u64)
      (seg_worker [?ack, default_message, ?disp]) = Some (0, w')" "length (wk_marks w') = 1"
    using worker_reports [of seg_io "\<lparr>ts_s = 7\<rparr>" seg_out seg_in "seg_worker [?ack, default_message, ?disp]"
        ?ack "[default_message]" ?disp "[]" "''normal''" "\<lambda>g. (g, g + 1)" "''work''" 5]
    by (auto simp: seg_worker_def dispatch_message_def default_message_def wire_sendable_def seg_io_def
        INVALID_SOCKET_def Let_def case_prod_beta)
  then show ?thesis by (auto simp: Let_def)
qed

end
