(* ===== verification/FF_Server.thy ===== *)
theory FF_Server
  imports FF_Worker FF_Coordinator_Inv
begin

text \<open>
  The coordinator as a process (\<open>src/coordinator.cpp\<close>): \<open>main\<close> with its options, its listener and its
  accept loop, and the read loop of a connection's thread, which turns the bytes of a socket into the
  events of \<open>FF_Coordinator\<close>. The last property joins the two processes over the wire.
\<close>

subsection \<open>Start\<close>


text \<open>
  The running server: the network, the listener, the coordinator, the connections (\<open>None\<close> for one whose
  object is gone, and its socket with it), and those whose thread runs. Connection \<open>k\<close> is the \<open>k\<close>-th
  of the list.
\<close>

record ('s, 'g) Server =
  sv_net :: "'s Net"
  sv_listener :: TcpListener
  sv_coord :: "'g Coord"
  sv_conns :: "TcpSocket option list"
  sv_threads :: "ConnId set"


text \<open>
  One round of the accept loop. The accepted socket is moved into a new connection, which gets a
  thread; the variable it was accepted into is destroyed at the end of the round.
\<close>

definition accept_once :: "'s winsock \<Rightarrow> ('s, 'g) Server \<Rightarrow> ('s, 'g) Server" where
  "accept_once ws sv =
     (let (cli, n) = tl_accept ws (sv_listener sv) (sv_net sv) in
      if \<not> ts_valid cli then sv\<lparr>sv_net := ts_destroy ws cli n\<rparr>
      else let (sock, cli, n) = ts_move ws new_tcp cli n
           in sv\<lparr>sv_conns := sv_conns sv @ [Some sock],
                 sv_threads := insert (length (sv_conns sv)) (sv_threads sv), sv_net := ts_destroy ws cli n\<rparr>)"

text \<open>
  A connection is shared (\<open>shared_ptr\<close>) by its thread and the globals of the coordinator. When the last
  of them lets go of it, it is destroyed, and closes its socket.
\<close>

definition referenced :: "ConnId \<Rightarrow> 'g Coord \<Rightarrow> bool" where
  "referenced cn c \<longleftrightarrow> cn \<in> snd ` set (co_workers c) \<or> cn \<in> set (co_reg_order c) \<or> co_running c = Some cn"

definition release_conn :: "'s winsock \<Rightarrow> ConnId \<Rightarrow> ('s, 'g) Server \<Rightarrow> ('s, 'g) Server" where
  "release_conn ws cn sv =
     (case sv_conns sv ! cn of None \<Rightarrow> sv
      | Some t \<Rightarrow> if cn \<in> sv_threads sv \<or> referenced cn (sv_coord sv) then sv
          else sv\<lparr>sv_conns := (sv_conns sv)[cn := None], sv_net := ts_destroy ws t (sv_net sv)\<rparr>)"

definition release :: "'s winsock \<Rightarrow> ('s, 'g) Server \<Rightarrow> ('s, 'g) Server" where
  "release ws sv = fold (release_conn ws) [0..<length (sv_conns sv)] sv"

text \<open>
  What the server reacts to: a connection, a message read by a connection's thread, and the end of a
  thread, after its read loop and what follows it. What the handlers send is in the coordinator's
  state; \<open>send\<close> and \<open>recv\<close> do not change which handles are open.
\<close>

datatype sv_event = Accept | Arrived ConnId WireMessage | Ended ConnId u64

fun sv_step ::
  "('g \<Rightarrow> u64 \<times> 'g) \<Rightarrow> ((WorkerId, ConnId) umap \<Rightarrow> ConnId) \<Rightarrow> 's winsock \<Rightarrow> sv_event \<Rightarrow>
    ('s, 'g) Server \<Rightarrow> ('s, 'g) Server" where
  "sv_step draw pick ws Accept sv = accept_once ws sv"
| "sv_step draw pick ws (Arrived cn m) sv =
     (if cn \<notin> sv_threads sv then sv
      else release ws (sv\<lparr>sv_coord := handle_message draw pick cn m (sv_coord sv)\<rparr>))"
| "sv_step draw pick ws (Ended cn now) sv =
     (if cn \<notin> sv_threads sv then sv
      else release ws (sv\<lparr>sv_coord := connection_lost draw pick cn now (sv_coord sv),
        sv_threads := sv_threads sv - {cn}\<rparr>))"

subsection \<open>The thread of a connection\<close>

partial_function (option) worker_thread ::
  "('g \<Rightarrow> u64 \<times> 'g) \<Rightarrow> ((WorkerId, ConnId) umap \<Rightarrow> ConnId) \<Rightarrow> 's sys_recv \<Rightarrow> ConnId \<Rightarrow> u64 \<Rightarrow> 's \<Rightarrow> 'g Coord \<Rightarrow>
    ('s \<times> 'g Coord) option" where
  "worker_thread draw pick sys_recv cn now s c =
     (case recv_frame sys_recv s of
        (None, s) \<Rightarrow> Some (s, connection_lost draw pick cn now c)
      | (Some m, s) \<Rightarrow> worker_thread draw pick sys_recv cn now s (handle_message draw pick cn m c))"

text \<open>
  C18: the thread of a connection ends, and its effect is a run of the handlers. For every stream of
  bytes that ends, well-formed or not, the read loop returns; what it did to the coordinator is the
  handling of a finite sequence of messages followed by exactly one loss of the connection.
\<close>

theorem thread_is_a_run:
  assumes "closing_source sys_recv arriving"
  shows "\<exists>s' ms. worker_thread draw pick sys_recv cn now s c =
    Some (s', fold (co_step draw pick) (map (Message cn) ms @ [Lost cn now]) c)"
proof (induction "length (arriving s)" arbitrary: s c rule: less_induct)
  case less
  obtain m s1 where r: "recv_frame sys_recv s = (m, s1)" by fastforce
  show ?case
  proof (cases m)
    case None
    then show ?thesis using r
      by (intro exI [of _ s1] exI [of _ "[]"], subst worker_thread.simps) simp
  next
    case (Some msg)
    have "length (arriving s1) < length (arriving s)"
      using closing_source.recv_frame_consumes [OF assms] r Some by blast
    from less.hyps [OF this, of "handle_message draw pick cn msg c"]
    obtain s' ms where "worker_thread draw pick sys_recv cn now s1 (handle_message draw pick cn msg c) =
        Some (s', fold (co_step draw pick) (map (Message cn) ms @ [Lost cn now]) (handle_message draw pick cn msg c))"
      by blast
    then show ?thesis using r Some
      by (intro exI [of _ s'] exI [of _ "msg # ms"], subst worker_thread.simps) simp
  qed
qed

theorem thread_is_a_run_witness:
  "\<exists>s' ms. worker_thread (\<lambda>g. (g, g + 1)) (snd \<circ> hd) seg_recv 0 1
      \<lparr>seg_in = [1, 2, 3], seg_out = [], seg_schedule = []\<rparr> (co_start new_store (5 :: u64)) =
    Some (s', fold (co_step (\<lambda>g. (g, g + 1)) (snd \<circ> hd)) (map (Message 0) ms @ [Lost 0 1]) (co_start new_store (5 :: u64)))"
  by (rule thread_is_a_run [OF seg_source.closing_source_axioms])

subsection \<open>Handles of the server\<close>

text \<open>The handle of a connection while its object exists.\<close>

definition conn_handle :: "('s, 'g) Server \<Rightarrow> ConnId \<rightharpoonup> u64" where
  "conn_handle sv k = (if k < length (sv_conns sv) then map_option ts_s (sv_conns sv ! k) else None)"

text \<open>
  The server holds its handles, each once, beside the \<open>others\<close> of the process, and a connection exists
  as long as its thread or the coordinator needs it.
\<close>

definition owns_handles :: "('s \<Rightarrow> u64 set) \<Rightarrow> u64 set \<Rightarrow> ('s, 'g) Server \<Rightarrow> bool" where
  "owns_handles opens others sv \<longleftrightarrow>
     net_opens opens (sv_net sv) = others \<union> insert (tl_s (sv_listener sv)) (ran (conn_handle sv)) \<and>
     tl_s (sv_listener sv) \<notin> others \<union> ran (conn_handle sv) \<and> others \<inter> ran (conn_handle sv) = {} \<and>
     inj_on (conn_handle sv) (dom (conn_handle sv))"

definition conns_needed :: "('s, 'g) Server \<Rightarrow> bool" where
  "conns_needed sv \<longleftrightarrow> (\<forall>k. conn_handle sv k \<noteq> None \<longleftrightarrow> k \<in> sv_threads sv \<or> referenced k (sv_coord sv))"

definition sv_ok :: "('s \<Rightarrow> u64 set) \<Rightarrow> u64 set \<Rightarrow> ('s, 'g) Server \<Rightarrow> bool" where
  "sv_ok opens others sv \<longleftrightarrow> owns_handles opens others sv \<and> 0 \<notin> net_opens opens (sv_net sv) \<and>
     INVALID_SOCKET \<notin> ran (conn_handle sv)"

lemma accept_once_ok:
  assumes "tracks ws opens" "sv_ok opens others sv" "conns_needed sv"
  shows "sv_ok opens others (accept_once ws sv) \<and> conns_needed (accept_once ws sv)"
proof -
  obtain t n1 where c: "tl_accept ws (sv_listener sv) (sv_net sv) = (t, n1)" by fastforce
  have zero: "net_opens opens n - {0} = net_opens opens n" if "0 \<notin> net_opens opens n" for n using that by auto
  let ?n = "length (sv_conns sv)"
  from accept_handles [OF assms(1) c] consider
      (none) "ts_s t = 0" "net_opens opens (ts_destroy ws t n1) = net_opens opens (sv_net sv)"
    | (one) "ts_s t \<noteq> 0" "ts_s t \<notin> net_opens opens (sv_net sv)" "ts_s t \<noteq> INVALID_SOCKET"
        "net_opens opens n1 = insert (ts_s t) (net_opens opens (sv_net sv))"
    using assms(2) tracksD(6,7) [OF assms(1)]
    by (cases "ts_s t = 0") (auto simp: ts_destroy_def ts_close_def new_tcp_def sv_ok_def)
  then show ?thesis
  proof cases
    case none
    then have "accept_once ws sv = sv\<lparr>sv_net := ts_destroy ws t n1\<rparr>" by (simp add: accept_once_def c ts_valid_def)
    moreover have "conn_handle (sv\<lparr>sv_net := m\<rparr>) = conn_handle sv" for m by (simp add: conn_handle_def fun_eq_iff)
    ultimately show ?thesis using assms(2,3) none(2) unfolding sv_ok_def owns_handles_def conns_needed_def by auto
  next
    case one
    let ?sv = "accept_once ws sv"
    have o: "net_opens opens (sv_net ?sv) = insert (ts_s t) (net_opens opens (sv_net sv))"
      using one assms(2) tracksD(6,7) [OF assms(1)] c
      by (auto simp: accept_once_def ts_valid_def ts_destroy_def ts_close_def ts_move_def new_tcp_def Let_def sv_ok_def)
    have h: "conn_handle ?sv = (conn_handle sv)(?n \<mapsto> ts_s t)" "conn_handle sv ?n = None"
      using one(1) c by (auto simp: accept_once_def ts_valid_def ts_move_def Let_def conn_handle_def case_prod_beta
          nth_append new_tcp_def ts_close_def fun_eq_iff)
    have r: "sv_listener ?sv = sv_listener sv" "sv_coord ?sv = sv_coord sv" "sv_threads ?sv = insert ?n (sv_threads sv)"
      using one(1) c by (simp_all add: accept_once_def ts_valid_def ts_move_def Let_def case_prod_beta)
    have new: "ts_s t \<notin> ran (conn_handle sv)" "ts_s t \<notin> others" "ts_s t \<noteq> tl_s (sv_listener sv)"
      using one(2) assms(2) by (auto simp: sv_ok_def owns_handles_def)
    have "inj_on (conn_handle ?sv) (dom (conn_handle ?sv))"
      using assms(2) h new(1) by (auto simp: sv_ok_def owns_handles_def inj_on_def ran_def split: if_splits)
    moreover have "ran (conn_handle ?sv) = insert (ts_s t) (ran (conn_handle sv))" using h by simp
    ultimately have "sv_ok opens others ?sv" using assms(2) o one(1,3) new by (auto simp: sv_ok_def owns_handles_def r)
    moreover have "conns_needed ?sv" using assms(3) h(1) by (auto simp: conns_needed_def r)
    ultimately show ?thesis by blast
  qed
qed

lemma ran_removed:
  assumes "inj_on m (dom m)" "m k = Some h"
  shows "ran (m(k := None)) = ran m - {h}"
proof -
  have "m j \<noteq> Some h" if "j \<noteq> k" for j using assms that by (metis domI inj_onD)
  then show ?thesis using assms(2) by (auto simp: ran_def) (metis option.inject)
qed

text \<open>A release closes the sockets of the connections nobody needs, and no others.\<close>

lemma release_conn_ok:
  assumes "tracks ws opens" "sv_ok opens others sv" "k < length (sv_conns sv)"
  shows "sv_ok opens others (release_conn ws k sv)"
    and "conn_handle (release_conn ws k sv) =
      (if k \<in> sv_threads sv \<or> referenced k (sv_coord sv) then conn_handle sv else (conn_handle sv)(k := None))"
proof -
  let ?sv = "release_conn ws k sv"
  show h: "conn_handle ?sv =
      (if k \<in> sv_threads sv \<or> referenced k (sv_coord sv) then conn_handle sv else (conn_handle sv)(k := None))"
    using assms(3) by (auto simp: release_conn_def conn_handle_def fun_eq_iff nth_list_update split: option.split)
  show "sv_ok opens others ?sv"
  proof (cases "sv_conns sv ! k = None \<or> k \<in> sv_threads sv \<or> referenced k (sv_coord sv)")
    case True
    then have "?sv = sv" by (auto simp: release_conn_def split: option.split)
    then show ?thesis using assms(2) by simp
  next
    case False
    then obtain t where t: "sv_conns sv ! k = Some t" by auto
    then have k: "conn_handle sv k = Some (ts_s t)" using assms(3) by (simp add: conn_handle_def)
    have v: "ts_s t \<noteq> INVALID_SOCKET" using assms(2) k by (auto simp: sv_ok_def ran_def)
    have o: "net_opens opens (sv_net ?sv) = net_opens opens (sv_net sv) - {ts_s t}"
      using False t close_removes [OF assms(1) v] by (simp add: release_conn_def ts_destroy_def)
    have "ran ((conn_handle sv)(k := None)) = ran (conn_handle sv) - {ts_s t}"
      using assms(2) by (intro ran_removed k) (simp add: sv_ok_def owns_handles_def)
    moreover have "inj_on ((conn_handle sv)(k := None)) (dom ((conn_handle sv)(k := None)))"
      using assms(2) by (auto simp: sv_ok_def owns_handles_def inj_on_def)
    moreover have "ts_s t \<in> ran (conn_handle sv)" using k by (rule ranI)
    moreover have "sv_listener ?sv = sv_listener sv" using False t by (simp add: release_conn_def)
    ultimately show ?thesis using assms(2) o False h by (auto simp: sv_ok_def owns_handles_def)
  qed
qed

lemma release_conn_fields [simp]:
  "sv_threads (release_conn ws k sv) = sv_threads sv" "sv_coord (release_conn ws k sv) = sv_coord sv"
  "length (sv_conns (release_conn ws k sv)) = length (sv_conns sv)"
  by (simp_all add: release_conn_def split: option.split)

lemma release_all:
  "tracks ws opens \<Longrightarrow> sv_ok opens others sv \<Longrightarrow> set ks \<subseteq> {..<length (sv_conns sv)} \<Longrightarrow>
    sv_ok opens others (fold (release_conn ws) ks sv) \<and>
    sv_threads (fold (release_conn ws) ks sv) = sv_threads sv \<and> sv_coord (fold (release_conn ws) ks sv) = sv_coord sv \<and>
    conn_handle (fold (release_conn ws) ks sv) =
      (\<lambda>k. if k \<in> set ks \<and> k \<notin> sv_threads sv \<and> \<not> referenced k (sv_coord sv) then None else conn_handle sv k)"
proof (induction ks arbitrary: sv)
  case (Cons k ks)
  have k: "k < length (sv_conns sv)" using Cons.prems(3) by simp
  note h = release_conn_ok [OF Cons.prems(1,2) k]
  show ?case using Cons.IH [OF Cons.prems(1) h(1)] Cons.prems(3) by (auto simp: h(2))
qed simp

lemma release_needed:
  assumes "tracks ws opens" "sv_ok opens others sv"
    and "\<And>k. k \<in> sv_threads sv \<or> referenced k (sv_coord sv) \<Longrightarrow> conn_handle sv k \<noteq> None"
  shows "sv_ok opens others (release ws sv) \<and> conns_needed (release ws sv)"
proof -
  have sub: "set [0..<length (sv_conns sv)] \<subseteq> {..<length (sv_conns sv)}" by auto
  have r: "sv_ok opens others (release ws sv)" "sv_threads (release ws sv) = sv_threads sv"
    "sv_coord (release ws sv) = sv_coord sv"
    "conn_handle (release ws sv) = (\<lambda>k. if k \<in> set [0..<length (sv_conns sv)] \<and> k \<notin> sv_threads sv \<and>
       \<not> referenced k (sv_coord sv) then None else conn_handle sv k)"
    using release_all [OF assms(1,2) sub] by (simp_all add: release_def)
  have "k < length (sv_conns sv)" if "conn_handle sv k \<noteq> None" for k
    using that by (simp add: conn_handle_def split: if_splits)
  then show ?thesis using assms(3) r by (auto simp: conns_needed_def)
qed

text \<open>A handler makes the coordinator refer to no connection but the one it handles a message of.\<close>

lemma referenced_simps [simp]:
  "referenced k (send_msg cn m c) = referenced k c" "referenced k (snd (co_reg call c)) = referenced k c"
  "referenced k (snd (fresh_id draw c)) = referenced k c" "referenced k (snd (new_attempt draw a c)) = referenced k c"
  "referenced k (record_loss draw a now c) = referenced k c" "referenced k (save_state c) = referenced k c"
  "referenced k (c\<lparr>co_finished := True\<rparr>) = referenced k c"
  by (simp_all add: referenced_def)

lemma dispatch_to_refers: "referenced k (dispatch_to cn op a c) \<Longrightarrow> referenced cn c \<Longrightarrow> referenced k c"
  by (auto simp: referenced_def)

lemma picked_referenced: "picks_listed pick \<Longrightarrow> co_workers c \<noteq> [] \<Longrightarrow> referenced (pick (co_workers c)) c"
  by (simp add: picks_listed_def referenced_def)

lemma replacement_referenced: "picks_listed pick \<Longrightarrow> choose_replacement pick c = Some cn \<Longrightarrow> referenced cn c"
  using picked_referenced [of pick c]
  by (auto simp: choose_replacement_def Let_def referenced_def split: if_splits list.splits option.splits)

lemma message_refers:
  assumes "picks_listed pick" "referenced k (handle_message draw pick cn m c)"
  shows "referenced k c \<or> k = cn"
proof -
  obtain wid where w: "co_workers (on_register draw cn m c) = um_assign wid cn (co_workers c)"
    using on_register_tables(1) by blast
  have reg: "referenced k (on_register draw cn m c) \<Longrightarrow> referenced k c \<or> k = cn"
    using um_assign_values [of wid cn "co_workers c"]
    unfolding referenced_def w on_register_tables(2,3) by auto
  have disp: "referenced k (on_dispatch draw pick m c) \<Longrightarrow> referenced k c"
  proof (cases "co_workers c = []")
    case False
    then show "referenced k (on_dispatch draw pick m c) \<Longrightarrow> referenced k c"
      using picked_referenced [OF assms(1) False] by (auto simp: on_dispatch_eq drawn_attempt_def dest!: dispatch_to_refers)
  qed (simp add: on_dispatch_def Let_def case_prod_beta)
  show ?thesis using assms(2) reg disp
    by (cases "wm_type m") (simp_all add: handle_message_def on_running_def on_failure_def complete_defs Let_def
        case_prod_beta split: if_splits)
qed

lemma lost_refers:
  assumes "picks_listed pick" "referenced k (connection_lost draw pick cn now c)"
  shows "referenced k c"
proof -
  have red: "referenced k (redispatch draw pick cur c) \<Longrightarrow> referenced k c" for cur and c :: "'a Coord"
  proof (cases "choose_replacement pick c")
    case (Some cn')
    then show "referenced k (redispatch draw pick cur c) \<Longrightarrow> referenced k c"
      using replacement_referenced [OF assms(1) Some]
      by (auto simp: redispatch_some Let_def dest!: dispatch_to_refers split: if_splits)
  qed (simp add: redispatch_none)
  define c1 where "c1 = c\<lparr>co_workers := um_erase (cn_wid (co_conns c cn)) (co_workers c), co_running := None\<rparr>"
  have c1: "referenced k c1 \<Longrightarrow> referenced k c" by (auto simp: c1_def referenced_def um_erase_def)
  have "connection_lost draw pick cn now c = (if co_running c = Some cn
      then if co_finished c then c1
        else let cur = reg_current_authority (co_current_op c1) (co_ops c1)
          in redispatch draw pick cur (record_loss draw cur now c1)
      else c)"
    by (simp add: connection_lost_def recover_operation_def Let_def c1_def)
  then show ?thesis using assms(2) c1 red [of _ "record_loss draw _ now c1"]
    by (simp add: Let_def split: if_splits)
qed

lemma sv_step_ok:
  assumes "tracks ws opens" "picks_listed pick" "sv_ok opens others sv" "conns_needed sv"
  shows "sv_ok opens others (sv_step draw pick ws e sv) \<and> conns_needed (sv_step draw pick ws e sv)"
proof -
  have conns: "conn_handle (sv\<lparr>sv_coord := c, sv_threads := T\<rparr>) = conn_handle sv"
    "conn_handle (sv\<lparr>sv_coord := c\<rparr>) = conn_handle sv" for c T
    by (simp_all add: conn_handle_def fun_eq_iff)
  then have same: "sv_ok opens others (sv\<lparr>sv_coord := c, sv_threads := T\<rparr>) = sv_ok opens others sv"
    "sv_ok opens others (sv\<lparr>sv_coord := c\<rparr>) = sv_ok opens others sv" for c T
    by (simp_all add: sv_ok_def owns_handles_def)
  show ?thesis
  proof (cases e)
    case Accept
    then show ?thesis using accept_once_ok [OF assms(1,3,4)] by simp
  next
    case (Arrived cn m)
    let ?sv = "sv\<lparr>sv_coord := handle_message draw pick cn m (sv_coord sv)\<rparr>"
    have "sv_ok opens others (release ws ?sv) \<and> conns_needed (release ws ?sv)" if "cn \<in> sv_threads sv"
    proof (rule release_needed [OF assms(1)])
      show "conn_handle ?sv k \<noteq> None" if "k \<in> sv_threads ?sv \<or> referenced k (sv_coord ?sv)" for k
        using that \<open>cn \<in> sv_threads sv\<close> message_refers [OF assms(2), of k draw cn m "sv_coord sv"] assms(4)
        unfolding conns by (auto simp: conns_needed_def)
    qed (use assms(3) in \<open>simp add: same\<close>)
    then show ?thesis using assms(3,4) Arrived by simp
  next
    case (Ended cn now)
    let ?sv = "sv\<lparr>sv_coord := connection_lost draw pick cn now (sv_coord sv), sv_threads := sv_threads sv - {cn}\<rparr>"
    have "sv_ok opens others (release ws ?sv) \<and> conns_needed (release ws ?sv)"
    proof (rule release_needed [OF assms(1)])
      show "conn_handle ?sv k \<noteq> None" if "k \<in> sv_threads ?sv \<or> referenced k (sv_coord ?sv)" for k
        using that lost_refers [OF assms(2), of k draw cn now "sv_coord sv"] assms(4)
        unfolding conns by (auto simp: conns_needed_def)
    qed (use assms(3) in \<open>simp add: same\<close>)
    then show ?thesis using assms(3,4) Ended by simp
  qed
qed

lemma sv_run_ok:
  assumes "tracks ws opens" "picks_listed pick"
  shows "sv_ok opens others sv \<Longrightarrow> conns_needed sv \<Longrightarrow>
    sv_ok opens others (fold (sv_step draw pick ws) es sv) \<and> conns_needed (fold (sv_step draw pick ws) es sv)"
proof (induction es arbitrary: sv)
  case (Cons e es)
  then show ?case using sv_step_ok [OF assms Cons.prems, of draw e] by (simp del: sv_step.simps)
qed simp



text \<open>
  A connection that has registered as a worker is never closed: the order of registration is never
  shortened, and refers to it for ever.
\<close>

lemma registered_stays_open:
  assumes "tracks ws opens" "picks_listed pick" "sv_ok opens others sv" "conns_needed sv"
    and "cn \<in> set (co_reg_order (sv_coord (fold (sv_step draw pick ws) es sv)))"
  shows "conn_handle (fold (sv_step draw pick ws) es sv) cn \<noteq> None"
  using sv_run_ok [OF assms(1-4), of draw es] assms(5) by (auto simp: conns_needed_def referenced_def)

subsection \<open>A dispatch over the wire\<close>

text \<open>A thread whose peer sends whole messages and closes handles exactly these.\<close>

lemma thread_handles:
  assumes "closing_source sys_recv arriving"
  shows "list_all wire_sendable ms \<Longrightarrow> arriving s = concat (map wire_frame ms) \<Longrightarrow>
    \<exists>s'. worker_thread draw pick sys_recv cn now s c =
      Some (s', connection_lost draw pick cn now (fold (handle_message draw pick cn) ms c))"
proof (induction ms arbitrary: s c)
  case Nil
  obtain m s1 where r: "recv_frame sys_recv s = (m, s1)" by fastforce
  have "m = None" using closing_source.recv_frame_consumes [OF assms, of s] r Nil by (cases m) auto
  then show ?case using r by (subst worker_thread.simps) simp
next
  case (Cons m ms)
  have src: "byte_source sys_recv arriving" using assms by (simp add: closing_source_def)
  obtain s1 where "recv_frame sys_recv s = (Some m, s1)" "arriving s1 = concat (map wire_frame ms)"
    using byte_source.recv_frame_message [OF src, of m s "concat (map wire_frame ms)"] Cons.prems by auto
  then show ?case using Cons.IH [of s1 "handle_message draw pick cn m c"] Cons.prems
    by (subst worker_thread.simps) simp
qed

lemma lost_when_finished:
  "co_finished c \<Longrightarrow> let c' = connection_lost draw pick cn now c in
    co_ops c' = co_ops c \<and> co_sent c' = co_sent c \<and> co_saved c' = co_saved c \<and> co_store c' = co_store c"
  by (simp add: connection_lost_def Let_def)

lemma replies_sendable: "list_all wire_sendable (wr_sends (worker_on reg mode m))"
  by (simp add: worker_on_def wire_sendable_def default_message_def Let_def)

text \<open>
  C5: a dispatch over the wire is completed. Let a worker, not in mode \<open>fail\<close>, wait in its loop on a
  connection that stays up, with the coordinator's dispatch of an operation arriving after any
  messages it passes over; the coordinator has the operation dispatched or running under that
  authority, with no outcome yet. Then the worker exits with 0, and when the bytes it sent have
  arrived, cut into any segments, the coordinator's thread of that connection, not interrupted by
  others, ends with the operation recorded as completed and acknowledged once, and the state file
  written once, with the completion in it unless the writing fails.
\<close>

theorem dispatch_completes_over_the_wire:
  fixes draw :: "'g \<Rightarrow> u64 \<times> 'g"
  assumes "duplex (io_send io (ts_s t)) sent (io_recv io (ts_s t)) waiting" "ts_s t \<noteq> INVALID_SOCKET"
    and "waiting (net_sys (wk_net w)) =
      concat (map wire_frame ignored) @ wire_frame (dispatch_message wid op (rt_authority r)) @ rest"
    and "list_all wire_sendable ignored" "list_all passed_over ignored" "mode \<noteq> ''fail''"
    and "closing_source sys_recv arriving" "map_of (co_ops c) op = Some r" "\<not> rt_terminal_recorded r"
    and "rt_terminal r = empty_envelope" "rt_state r = OperationState.DISPATCHED \<or> rt_state r = OperationState.RUNNING"
    and "rt_authority r \<noteq> empty_envelope"
  shows "\<exists>w' out. wk_loop io t reg workdir mode w = Some (0, w') \<and>
    sent (net_sys (wk_net w')) = sent (net_sys (wk_net w)) @ out \<and>
    (\<forall>s. arriving s = out \<longrightarrow> (\<exists>s' c'. worker_thread draw pick sys_recv cn now s c = Some (s', c') \<and>
      has_outcome op ''COMPLETED'' (co_ops c') \<and> co_sent c' = co_sent c @ [(cn, ack_message op)] \<and>
      co_saves c' = Suc (co_saves c) \<and>
      (co_disk c (co_saves c) = Written \<longrightarrow> co_saved c' = Some (save (co_store c')))))"
proof -
  let ?m = "dispatch_message wid op (rt_authority r)"
  have m: "wm_type ?m = ProtocolMessage.DISPATCH" "wire_sendable ?m"
    by (simp_all add: dispatch_message_def wire_sendable_def default_message_def)
  obtain w1 where w1: "wk_loop io t reg workdir mode w = wk_loop io t reg workdir mode w1"
    "waiting (net_sys (wk_net w1)) = wire_frame ?m @ rest" "sent (net_sys (wk_net w1)) = sent (net_sys (wk_net w))"
    using wk_loop_skips [OF assms(1,4,5,3), of reg workdir mode] by auto
  obtain w2 where w2: "wk_recv io t w1 = (Some ?m, w2)" "sent (net_sys (wk_net w2)) = sent (net_sys (wk_net w1))"
    using wk_recv_works [OF assms(1) m(2) w1(2)] by auto
  obtain w3 where w3: "wk_dispatch io t reg workdir mode ?m w2 = (0, w3)"
    "sent (net_sys (wk_net w3)) = sent (net_sys (wk_net w2)) @ concat (map wire_frame (wr_sends (worker_on reg mode ?m)))"
    using wk_dispatch_reports [OF assms(1,2) m(1)] by blast
  have loop: "wk_loop io t reg workdir mode w = Some (0, w3)"
    using w1(1) w2(1) w3(1) m(1) by (simp add: wk_loop.simps [of io t reg workdir mode w1])
  let ?c = "fold (handle_message draw pick cn) (wr_sends (worker_on reg mode ?m)) c"
  note completed = worker_completes [OF assms(8-12,6), of draw pick cn reg wid]
  show ?thesis
  proof (intro exI [of _ w3] exI [of _ "concat (map wire_frame (wr_sends (worker_on reg mode ?m)))"] conjI allI impI)
    fix s assume "arriving s = concat (map wire_frame (wr_sends (worker_on reg mode ?m)))"
    from thread_handles [OF assms(7) replies_sendable this, of draw pick cn now c]
    show "\<exists>s' c'. worker_thread draw pick sys_recv cn now s c = Some (s', c') \<and>
      has_outcome op ''COMPLETED'' (co_ops c') \<and> co_sent c' = co_sent c @ [(cn, ack_message op)] \<and>
      co_saves c' = Suc (co_saves c) \<and>
      (co_disk c (co_saves c) = Written \<longrightarrow> co_saved c' = Some (save (co_store c')))"
      using completed lost_when_finished [of ?c draw pick cn now] by (auto simp: Let_def)
  qed (use loop w1(3) w2(2) w3(2) in simp_all)
qed

theorem dispatch_completes_over_the_wire_witness:
  "\<exists>w' out. wk_loop seg_io \<lparr>ts_s = 7\<rparr> default_message ''work'' ''slow''
      (seg_worker [default_message, dispatch_message (sample_id 1) (sample_id 7) (sample_env 1)]) = Some (0, w') \<and>
    seg_out (net_sys (wk_net w')) = out \<and>
    (\<exists>s' c'. worker_thread (\<lambda>g. (5, g)) (snd \<circ> hd) seg_recv 1 0
        \<lparr>seg_in = out, seg_out = [], seg_schedule = [1, 0, 4]\<rparr> one_running = Some (s', c') \<and>
      has_outcome (sample_id 7) ''COMPLETED'' (co_ops c') \<and> co_sent c' = [(1, ack_message (sample_id 7))] \<and>
      co_saved c' = Some (save (co_store c')))"
proof -
  let ?r = "default_runtime\<lparr>rt_machine := OperationStateMachine OperationState.RUNNING, rt_authority := sample_env 1\<rparr>"
  let ?w = "seg_worker [default_message, dispatch_message (sample_id 1) (sample_id 7) (sample_env 1)]"
  have up: "duplex (io_send seg_io (ts_s \<lparr>ts_s = 7\<rparr>)) seg_out (io_recv seg_io (ts_s \<lparr>ts_s = 7\<rparr>)) seg_in"
    by (simp add: seg_io_def seg_duplex.duplex_axioms)
  have op: "map_of (co_ops one_running) (sample_id 7) = Some ?r"
    by (simp add: one_running_def running_store_def)
  have w: "seg_in (net_sys (wk_net ?w)) = concat (map wire_frame [default_message]) @
      wire_frame (dispatch_message (sample_id 1) (sample_id 7) (rt_authority ?r)) @ []"
    "seg_out (net_sys (wk_net ?w)) = []" by (simp_all add: seg_worker_def)
  have "list_all wire_sendable [default_message]" "list_all passed_over [default_message]" "''slow'' \<noteq> ''fail''"
    "ts_s \<lparr>ts_s = 7\<rparr> \<noteq> INVALID_SOCKET" "\<not> rt_terminal_recorded ?r" "rt_terminal ?r = empty_envelope"
    "rt_state ?r = OperationState.DISPATCHED \<or> rt_state ?r = OperationState.RUNNING" "rt_authority ?r \<noteq> empty_envelope"
    by (simp_all add: wire_sendable_def default_message_def INVALID_SOCKET_def default_runtime_def sample_env_def
        empty_envelope_def gen_zero_def)
  note h = this
  have "co_sent one_running = []" "co_disk one_running (co_saves one_running) = Written"
    by (simp_all add: one_running_def two_workers_def co_start_def)
  then show ?thesis
    using dispatch_completes_over_the_wire [OF up h(4) w(1) h(1-3) seg_source.closing_source_axioms op h(5-8),
        of default_message "''work''" "\<lambda>g. (5, g)" "snd \<circ> hd" 1 0] w(2)
    by (metis append_Nil seg_socket.select_convs(1))
qed

end
