(* ===== verification/FF_Retry.thy ===== *)
theory FF_Retry
  imports FF_Failure_Record
begin

text \<open>
  Retry classification (\<open>include/failure_fabric/retry.hpp\<close>, \<open>src/retry.cpp\<close>): the verdict on
  a failure under a policy, with its reason and factors, and the deterministic backoff.
\<close>

subsection \<open>Data\<close>

datatype RetryVerdict = RETRY | DO_NOT_RETRY | RETRY_ELSEWHERE | ROLLBACK_FIRST

fun RetryVerdict_to_string :: "RetryVerdict \<Rightarrow> string" where
  "RetryVerdict_to_string RetryVerdict.RETRY = ''RETRY''"
| "RetryVerdict_to_string RetryVerdict.DO_NOT_RETRY = ''DO_NOT_RETRY''"
| "RetryVerdict_to_string RetryVerdict.RETRY_ELSEWHERE = ''RETRY_ELSEWHERE''"
| "RetryVerdict_to_string RetryVerdict.ROLLBACK_FIRST = ''ROLLBACK_FIRST''"

record RetryDecision =
  rd_verdict :: RetryVerdict
  rd_requires_fresh_attempt :: bool
  rd_same_idempotency_key :: bool
  rd_rollback_first :: bool
  rd_compensation_required :: bool
  rd_fenced_permanently :: bool
  rd_reason :: string
  rd_factors :: "string list"

definition default_decision :: RetryDecision where
  "default_decision = \<lparr>rd_verdict = RetryVerdict.DO_NOT_RETRY, rd_requires_fresh_attempt = True,
     rd_same_idempotency_key = True, rd_rollback_first = False,
     rd_compensation_required = False, rd_fenced_permanently = False, rd_reason = [],
     rd_factors = []\<rparr>"

record RetryPolicy =
  pol_max_attempts :: u32
  pol_allow_retry_unknown_side_effects :: bool
  pol_require_same_key :: bool
  pol_allow_retry_elsewhere :: bool
  pol_allow_retry_after_ambiguous :: bool
  pol_backoff_ms_base :: u32
  pol_backoff_ms_max :: u32

definition default_policy :: RetryPolicy where
  "default_policy = \<lparr>pol_max_attempts = 3, pol_allow_retry_unknown_side_effects = False,
     pol_require_same_key = True, pol_allow_retry_elsewhere = True,
     pol_allow_retry_after_ambiguous = True, pol_backoff_ms_base = 10,
     pol_backoff_ms_max = 5000\<rparr>"

record RetryInput =
  ri_attempt_count :: u32
  ri_worker_healthy :: bool
  ri_device_healthy :: bool
  ri_dependency_ready :: bool
  ri_reservation_active :: bool
  ri_deadline_exceeded :: bool
  ri_idempotent_retry_possible :: bool

definition default_retry_input :: RetryInput where
  "default_retry_input = \<lparr>ri_attempt_count = 0, ri_worker_healthy = True, ri_device_healthy = True,
     ri_dependency_ready = True, ri_reservation_active = True, ri_deadline_exceeded = False,
     ri_idempotent_retry_possible = False\<rparr>"

subsection \<open>Classification\<close>

definition eff_retryability :: "FailureRecord \<Rightarrow> Retryability" where
  "eff_retryability fail =
     (if fr_retryability fail \<noteq> Retryability.UNKNOWN then fr_retryability fail
      else case fr_failure_class fail of
        FailureClass.TRANSIENT \<Rightarrow> Retryability.RETRYABLE
      | FailureClass.RETRYABLE \<Rightarrow> Retryability.RETRYABLE
      | FailureClass.PREEMPTED \<Rightarrow> Retryability.RETRYABLE
      | FailureClass.RESOURCE_EXHAUSTION \<Rightarrow> Retryability.RETRYABLE
      | FailureClass.EXECUTION_FAILURE \<Rightarrow> Retryability.RETRYABLE
      | FailureClass.AMBIGUOUS \<Rightarrow> Retryability.CONDITIONALLY_RETRYABLE
      | FailureClass.PARTIAL_SUCCESS \<Rightarrow> Retryability.CONDITIONALLY_RETRYABLE
      | FailureClass.LOST_WORKER \<Rightarrow> Retryability.CONDITIONALLY_RETRYABLE
      | FailureClass.LOST_DEVICE \<Rightarrow> Retryability.CONDITIONALLY_RETRYABLE
      | FailureClass.TRANSPORT_FAILURE \<Rightarrow> Retryability.CONDITIONALLY_RETRYABLE
      | FailureClass.TIMEOUT_OBSERVED \<Rightarrow> Retryability.CONDITIONALLY_RETRYABLE
      | FailureClass.DEPENDENCY_FAILURE \<Rightarrow> Retryability.CONDITIONALLY_RETRYABLE
      | FailureClass.STORAGE_FAILURE \<Rightarrow> Retryability.CONDITIONALLY_RETRYABLE
      | _ \<Rightarrow> Retryability.NON_RETRYABLE)"

definition completion_ambiguous :: "FailureRecord \<Rightarrow> bool" where
  "completion_ambiguous fail \<longleftrightarrow>
     fr_completion fail = Ambiguity.AMBIGUOUS \<or> fr_completion fail = Ambiguity.UNKNOWN_OUTCOME"

definition retry_may_effect :: "FailureRecord \<Rightarrow> bool" where
  "retry_may_effect fail \<longleftrightarrow>
     fr_side_effect_state fail = SideEffectState.MAY_OCCURRED \<or>
     fr_side_effect_state fail = SideEffectState.UNKNOWN"

text \<open>The classes the first switch returns on.\<close>

definition fenced_class :: "FailureClass \<Rightarrow> bool" where
  "fenced_class c \<longleftrightarrow>
     c = FailureClass.PERMANENT \<or> c = FailureClass.NON_RETRYABLE \<or>
     c = FailureClass.VALIDATION_FAILURE \<or> c = FailureClass.INCOMPATIBILITY \<or>
     c = FailureClass.CANCELLED \<or> c = FailureClass.RECOVERY_FAILURE \<or>
     c = FailureClass.STALE_AUTHORITY"

text \<open>The decision before any rule has fired: the default verdict and the factors.\<close>

definition start_decision :: "FailureRecord \<Rightarrow> RetryInput \<Rightarrow> RetryPolicy \<Rightarrow> RetryDecision" where
  "start_decision fail inp policy =
     default_decision\<lparr>rd_reason := ''DO_NOT_RETRY by default'',
       rd_factors :=
         [''failure_class='' @ FailureClass_to_string (fr_failure_class fail),
          ''completion='' @ Ambiguity_to_string (fr_completion fail),
          ''side_effects='' @ SideEffectState_to_string (fr_side_effect_state fail),
          ''attempts='' @ show_word (ri_attempt_count inp) @ ''/'' @
            show_word (pol_max_attempts policy)]\<rparr>"

definition classify :: "FailureRecord \<Rightarrow> RetryInput \<Rightarrow> RetryPolicy \<Rightarrow> RetryDecision" where
  "classify fail inp policy =
    (let d = start_decision fail inp policy
     in
     if ri_attempt_count inp \<ge> pol_max_attempts policy
     then d\<lparr>rd_verdict := RetryVerdict.DO_NOT_RETRY, rd_requires_fresh_attempt := False,
            rd_reason := ''attempt limit reached; bounded retries exhausted''\<rparr>
     else if fenced_class (fr_failure_class fail)
     then d\<lparr>rd_verdict := RetryVerdict.DO_NOT_RETRY, rd_requires_fresh_attempt := False,
            rd_fenced_permanently := True,
            rd_reason := ''non-retryable failure class: '' @
              FailureClass_to_string (fr_failure_class fail)\<rparr>
     else if completion_ambiguous fail
     then if \<not> ri_idempotent_retry_possible inp
          then if fr_rollback fail = RollbackRequirement.REQUIRED \<or> retry_may_effect fail
               then d\<lparr>rd_verdict := RetryVerdict.ROLLBACK_FIRST, rd_rollback_first := True,
                      rd_requires_fresh_attempt := True,
                      rd_reason :=
                        ''ambiguous completion with possible side effects; rollback before retry''\<rparr>
               else d\<lparr>rd_verdict := RetryVerdict.DO_NOT_RETRY,
                      rd_reason :=
                        ''ambiguous completion and not idempotent-safe; manual resolution''\<rparr>
          else d\<lparr>rd_verdict := RetryVerdict.RETRY,
                 rd_same_idempotency_key := pol_require_same_key policy,
                 rd_requires_fresh_attempt := True,
                 rd_reason := ''ambiguous but idempotent; retry same key with fresh attempt''\<rparr>
     else if fr_side_effect_state fail = SideEffectState.KNOWN_OCCURRED \<and>
             \<not> ri_idempotent_retry_possible inp
     then d\<lparr>rd_verdict := RetryVerdict.ROLLBACK_FIRST, rd_rollback_first := True,
            rd_requires_fresh_attempt := False,
            rd_reason := ''known side effect occurred; rollback required before any retry''\<rparr>
     else if retry_may_effect fail \<and> \<not> pol_allow_retry_unknown_side_effects policy
     then d\<lparr>rd_verdict := RetryVerdict.ROLLBACK_FIRST, rd_rollback_first := True,
            rd_requires_fresh_attempt := True,
            rd_reason := ''unknown side effects; policy requires rollback before retry''\<rparr>
     else if eff_retryability fail = Retryability.RETRYABLE \<or>
             eff_retryability fail = Retryability.CONDITIONALLY_RETRYABLE
     then if ri_deadline_exceeded inp
          then d\<lparr>rd_verdict := RetryVerdict.DO_NOT_RETRY, rd_reason := ''deadline/SLO exceeded''\<rparr>
          else if \<not> ri_worker_healthy inp \<and> pol_allow_retry_elsewhere policy
          then d\<lparr>rd_verdict := RetryVerdict.RETRY_ELSEWHERE, rd_requires_fresh_attempt := True,
                 rd_reason := ''worker unhealthy; retry elsewhere''\<rparr>
          else if \<not> ri_dependency_ready inp
          then d\<lparr>rd_verdict := RetryVerdict.DO_NOT_RETRY, rd_reason := ''dependency not ready''\<rparr>
          else d\<lparr>rd_verdict := RetryVerdict.RETRY, rd_requires_fresh_attempt := True,
                 rd_reason := ''transient/retryable; retry with fresh attempt''\<rparr>
     else d\<lparr>rd_verdict := RetryVerdict.DO_NOT_RETRY, rd_reason := ''unclassified; not retryable''\<rparr>)"

definition backoff_ms :: "u32 \<Rightarrow> u32" where
  "backoff_ms attempt =
     (let v = push_bit (unat (if attempt < 12 then attempt else 12)) 10 :: u64;
          v = (if v > 5000 then 5000 else v)
      in ucast v)"

subsection \<open>Lemmas\<close>

definition retries :: "RetryVerdict \<Rightarrow> bool" where
  "retries v \<longleftrightarrow> v = RetryVerdict.RETRY \<or> v = RetryVerdict.RETRY_ELSEWHERE"

lemma start_decision_sel [simp]:
  "rd_verdict (start_decision f i p) = RetryVerdict.DO_NOT_RETRY"
  "rd_requires_fresh_attempt (start_decision f i p)"
  "rd_same_idempotency_key (start_decision f i p)"
  "\<not> rd_rollback_first (start_decision f i p)"
  "\<not> rd_compensation_required (start_decision f i p)"
  "\<not> rd_fenced_permanently (start_decision f i p)"
  by (simp_all add: start_decision_def default_decision_def)

text \<open>The verdict alone, without the explanation fields.\<close>

lemma classify_verdict:
  "rd_verdict (classify fail inp pol) =
    (if pol_max_attempts pol \<le> ri_attempt_count inp then RetryVerdict.DO_NOT_RETRY
     else if fenced_class (fr_failure_class fail) then RetryVerdict.DO_NOT_RETRY
     else if completion_ambiguous fail
     then if \<not> ri_idempotent_retry_possible inp
          then if fr_rollback fail = RollbackRequirement.REQUIRED \<or> retry_may_effect fail
               then RetryVerdict.ROLLBACK_FIRST else RetryVerdict.DO_NOT_RETRY
          else RetryVerdict.RETRY
     else if fr_side_effect_state fail = SideEffectState.KNOWN_OCCURRED \<and>
             \<not> ri_idempotent_retry_possible inp
     then RetryVerdict.ROLLBACK_FIRST
     else if retry_may_effect fail \<and> \<not> pol_allow_retry_unknown_side_effects pol
     then RetryVerdict.ROLLBACK_FIRST
     else if eff_retryability fail = Retryability.RETRYABLE \<or>
             eff_retryability fail = Retryability.CONDITIONALLY_RETRYABLE
     then if ri_deadline_exceeded inp then RetryVerdict.DO_NOT_RETRY
          else if \<not> ri_worker_healthy inp \<and> pol_allow_retry_elsewhere pol
          then RetryVerdict.RETRY_ELSEWHERE
          else if \<not> ri_dependency_ready inp then RetryVerdict.DO_NOT_RETRY
          else RetryVerdict.RETRY
     else RetryVerdict.DO_NOT_RETRY)"
  unfolding classify_def Let_def by (simp add: if_distrib [of "rd_verdict :: RetryDecision \<Rightarrow> _"] cong: if_cong split del: if_split)

lemma classify_fresh:
  "rd_requires_fresh_attempt (classify fail inp pol) =
    (if pol_max_attempts pol \<le> ri_attempt_count inp then False
     else if fenced_class (fr_failure_class fail) then False
     else if completion_ambiguous fail then True
     else \<not> (fr_side_effect_state fail = SideEffectState.KNOWN_OCCURRED \<and>
             \<not> ri_idempotent_retry_possible inp))"
  unfolding classify_def Let_def
  by (simp add: if_distrib [of "rd_requires_fresh_attempt :: RetryDecision \<Rightarrow> _"] cong: if_cong
      split del: if_split) simp

lemma classify_flags:
  "rd_compensation_required (classify fail inp pol) = False"
  "rd_rollback_first (classify fail inp pol) \<longleftrightarrow>
     rd_verdict (classify fail inp pol) = RetryVerdict.ROLLBACK_FIRST"
  "rd_fenced_permanently (classify fail inp pol) \<longleftrightarrow>
     \<not> pol_max_attempts pol \<le> ri_attempt_count inp \<and> fenced_class (fr_failure_class fail)"
proof -
  show "rd_compensation_required (classify fail inp pol) = False"
    unfolding classify_def Let_def
    by (simp add: if_distrib [of "rd_compensation_required :: RetryDecision \<Rightarrow> _"] cong: if_cong split del: if_split)
  have "rd_rollback_first (classify fail inp pol) =
      (rd_verdict (classify fail inp pol) = RetryVerdict.ROLLBACK_FIRST)"
    unfolding classify_verdict unfolding classify_def Let_def
    by (simp add: if_distrib [of "rd_rollback_first :: RetryDecision \<Rightarrow> _"]
        cong: if_cong split del: if_split) simp
  then show "rd_rollback_first (classify fail inp pol) \<longleftrightarrow>
      rd_verdict (classify fail inp pol) = RetryVerdict.ROLLBACK_FIRST" by simp
  show "rd_fenced_permanently (classify fail inp pol) \<longleftrightarrow>
     \<not> pol_max_attempts pol \<le> ri_attempt_count inp \<and> fenced_class (fr_failure_class fail)"
    unfolding classify_def Let_def
    by (simp add: if_distrib [of "rd_fenced_permanently :: RetryDecision \<Rightarrow> _"] cong: if_cong
        split del: if_split) simp
qed

lemma retry_below_bound:
  "rd_verdict (classify fail inp pol) \<noteq> RetryVerdict.DO_NOT_RETRY \<Longrightarrow>
    ri_attempt_count inp < pol_max_attempts pol"
  by (auto simp: classify_verdict not_le [symmetric] split: if_splits)

lemma backoff_eq: "unat (backoff_ms a) = min 5000 (10 * 2 ^ min (unat a) 12)"
proof -
  have table: "\<forall>k \<in> set [0, 1, 2, 3, 4, 5, 6, 7, 8, 9, 10, 11, 12].
      unat (ucast (if push_bit k 10 > (5000 :: u64) then 5000 else push_bit k 10 :: u64) :: u32) =
      min 5000 (10 * 2 ^ k)"
    by simp
  have k: "unat (if a < 12 then a else 12) = min (unat a) 12"
    by (auto simp: word_less_nat_alt min_def)
  have "min (unat a) 12 \<in> set [0, 1, 2, 3, 4, 5, 6, 7, 8, 9, 10, 11, 12]"
    by (simp add: min_def) presburger
  then have "unat (ucast (if push_bit (min (unat a) 12) 10 > (5000 :: u64) then 5000
      else push_bit (min (unat a) 12) 10 :: u64) :: u32) = min 5000 (10 * 2 ^ min (unat a) 12)"
    using table by blast
  then show ?thesis by (simp add: backoff_ms_def Let_def k)
qed

text \<open>
  The exact condition under which the classifier lets an operation run again, on the same worker or
  elsewhere.
\<close>

definition retry_permitted :: "FailureRecord \<Rightarrow> RetryInput \<Rightarrow> RetryPolicy \<Rightarrow> bool" where
  "retry_permitted fail inp pol \<longleftrightarrow>
     ri_attempt_count inp < pol_max_attempts pol \<and> \<not> fenced_class (fr_failure_class fail) \<and>
     (if completion_ambiguous fail then ri_idempotent_retry_possible inp
      else (fr_side_effect_state fail = SideEffectState.KNOWN_OCCURRED \<longrightarrow>
              ri_idempotent_retry_possible inp) \<and>
           (retry_may_effect fail \<longrightarrow> pol_allow_retry_unknown_side_effects pol) \<and>
           (eff_retryability fail = Retryability.RETRYABLE \<or>
            eff_retryability fail = Retryability.CONDITIONALLY_RETRYABLE) \<and>
           \<not> ri_deadline_exceeded inp \<and>
           (\<not> ri_worker_healthy inp \<and> pol_allow_retry_elsewhere pol \<or> ri_dependency_ready inp))"

lemma retries_simps [simp]:
  "retries RetryVerdict.RETRY" "retries RetryVerdict.RETRY_ELSEWHERE"
  "\<not> retries RetryVerdict.DO_NOT_RETRY" "\<not> retries RetryVerdict.ROLLBACK_FIRST"
  by (simp_all add: retries_def)

lemma classify_permitted:
  "retries (rd_verdict (classify fail inp pol)) \<longleftrightarrow> retry_permitted fail inp pol"
  unfolding classify_verdict retry_permitted_def not_le [symmetric]
  by (simp add: if_distrib [of retries] cong: if_cong split del: if_split) simp

text \<open>
  A caller that feeds the classifier its own attempt counter: one failure after the other, the
  counter goes up with every retry that is granted, and the first refusal ends the series.
\<close>

fun retry_series ::
  "RetryPolicy \<Rightarrow> u32 \<Rightarrow> (FailureRecord \<times> RetryInput) list \<Rightarrow> nat" where
  "retry_series pol n [] = 0"
| "retry_series pol n ((fail, inp) # rest) =
     (if retries (rd_verdict (classify fail (inp\<lparr>ri_attempt_count := n\<rparr>) pol))
      then Suc (retry_series pol (n + 1) rest) else 0)"

lemma unat_Suc_below: "(n :: u32) < m \<Longrightarrow> unat (n + 1) = Suc (unat n)"
  using unsigned_less [of m, where ?'a = nat]
  by (simp add: word_less_nat_alt unat_word_ariths(1))

lemma retry_series_bound:
  "retry_series pol n fs \<le> unat (pol_max_attempts pol) - unat n"
proof (induction pol n fs rule: retry_series.induct)
  case (2 pol n fail inp rest)
  show ?case
  proof (cases "retries (rd_verdict (classify fail (inp\<lparr>ri_attempt_count := n\<rparr>) pol))")
    case True
    then have "n < pol_max_attempts pol"
      using retry_below_bound [of fail "inp\<lparr>ri_attempt_count := n\<rparr>" pol] by (auto simp: retries_def)
    then have "unat n < unat (pol_max_attempts pol)" "unat (n + 1) = Suc (unat n)"
      by (simp_all add: unat_Suc_below word_less_nat_alt)
    then show ?thesis using 2 True by simp
  qed simp
qed simp

subsection \<open>Properties\<close>

text \<open>
  C8: The classifier lets an operation run again exactly when the attempt bound is not reached, the
  failure class is not one of the fenced ones, and the possible side effects are covered: an
  ambiguous completion needs an idempotent retry, a known effect needs an idempotent retry, a
  possible effect needs the policy's permission; otherwise the failure must be of a retryable kind,
  the deadline not passed, and there must be either another worker to go to or a ready dependency.
\<close>

theorem classify_retries_iff:
  "retries (rd_verdict (classify fail inp pol)) \<longleftrightarrow> retry_permitted fail inp pol"
  by (rule classify_permitted)

text \<open>
  C27: The hard bound: whatever failures occur and whatever their inputs are, a caller that counts its
  attempts from zero is granted at most \<open>max_attempts\<close> retries.
\<close>

theorem retries_bounded:
  "retry_series pol 0 fs \<le> unat (pol_max_attempts pol)"
  using retry_series_bound [of pol 0 fs] by simp

text \<open>
  C26: No unsafe repetition: when the retry is not idempotent, the classifier grants it only if the
  completion is not ambiguous, the effect is not known to have happened, and the policy allows
  retries under unknown side effects whenever the effect may have happened; and every retry it
  grants demands a fresh attempt and neither a rollback nor a permanent fence.
\<close>

theorem retry_is_safe:
  assumes "retries (rd_verdict (classify fail inp pol))"
  shows "rd_requires_fresh_attempt (classify fail inp pol) \<and>
    \<not> rd_rollback_first (classify fail inp pol) \<and>
    \<not> rd_fenced_permanently (classify fail inp pol) \<and>
    (ri_idempotent_retry_possible inp \<or>
     \<not> completion_ambiguous fail \<and>
     fr_side_effect_state fail \<noteq> SideEffectState.KNOWN_OCCURRED \<and>
     (pol_allow_retry_unknown_side_effects pol \<or> \<not> retry_may_effect fail))"
proof -
  have p: "retry_permitted fail inp pol"
    using assms by (simp only: classify_permitted)
  then have b: "\<not> pol_max_attempts pol \<le> ri_attempt_count inp" "\<not> fenced_class (fr_failure_class fail)"
    by (simp_all add: retry_permitted_def not_le)
  have "rd_requires_fresh_attempt (classify fail inp pol)"
    using p b by (simp add: classify_fresh retry_permitted_def split: if_splits)
  moreover have "\<not> rd_rollback_first (classify fail inp pol)"
    using assms by (auto simp: classify_flags retries_def)
  moreover have "\<not> rd_fenced_permanently (classify fail inp pol)"
    using b by (simp add: classify_flags)
  ultimately show ?thesis using p by (auto simp: retry_permitted_def split: if_splits)
qed

theorem retry_is_safe_witness:
  "rd_requires_fresh_attempt (classify
      (default_record\<lparr>fr_failure_class := FailureClass.TRANSIENT,
         fr_completion := Ambiguity.KNOWN,
         fr_side_effect_state := SideEffectState.KNOWN_NOT_OCCURRED\<rparr>) default_retry_input default_policy)"
proof -
  have "retries (rd_verdict (classify (default_record\<lparr>fr_failure_class := FailureClass.TRANSIENT,
         fr_completion := Ambiguity.KNOWN,
         fr_side_effect_state := SideEffectState.KNOWN_NOT_OCCURRED\<rparr>) default_retry_input default_policy))"
    by (simp add: classify_verdict retries_def default_retry_input_def default_policy_def
        default_record_def fenced_class_def completion_ambiguous_def retry_may_effect_def
        eff_retryability_def)
  from retry_is_safe [OF this] show ?thesis by blast
qed

text \<open>
  The backoff of the n-th attempt is ten milliseconds doubled n times, capped at five seconds:
  it never wraps, whatever the 32-bit attempt number is.
\<close>

lemma backoff_exponential_capped:
  "unat (backoff_ms a) = min 5000 (10 * 2 ^ unat a)"
proof (cases "unat a \<le> 12")
  case False
  then have "(2 :: nat) ^ 12 \<le> 2 ^ unat a" by (intro power_increasing) auto
  then show ?thesis using False by (simp add: backoff_eq min_def)
qed (simp add: backoff_eq min_def)

end
