(* ===== verification/FF_Explain.thy ===== *)
theory FF_Explain
  imports FF_Retry FF_Recovery
begin

text \<open>
  Explanations of failures and decisions as text and as JSON (\<open>include/failure_fabric/explain.hpp\<close>,
  \<open>src/explain.cpp\<close>, and \<open>to_json\<close> of \<open>src/failure_record.cpp\<close>). The JSON output is checked against
  a reference parser of flat JSON objects, written here after the JSON grammar.
\<close>

subsection \<open>Text\<close>

abbreviation newline :: string where "newline \<equiv> [CHR 0x0A]"
abbreviation dquote :: string where "dquote \<equiv> [CHR 0x22]"

fun quote_char :: "char \<Rightarrow> string" where
  "quote_char ch =
     (if ch = CHR 0x22 then [CHR 0x5C, CHR 0x22]
      else if ch = CHR 0x5C then [CHR 0x5C, CHR 0x5C]
      else if ch = CHR 0x0A then [CHR 0x5C, CHR ''n'']
      else [ch])"

definition quote_json :: "string \<Rightarrow> string" where
  "quote_json s = dquote @ concat (map quote_char s) @ dquote"

definition boolstr :: "bool \<Rightarrow> string" where
  "boolstr b = (if b then ''true'' else ''false'')"

definition explain_failure :: "FailureRecord \<Rightarrow> string" where
  "explain_failure rec =
     ''Failure '' @ Id_to_hex (fr_failure_id rec) @ '' on operation '' @ Id_to_hex (fr_operation rec) @
     '' attempt '' @ Id_to_hex (fr_attempt rec) @ '' classified '' @ FailureClass_to_string (fr_failure_class rec) @
     '' (origin '' @ FailureOrigin_to_string (fr_origin rec) @ '', code '' @ show_word (fr_failure_code rec) @
     '', phase '' @ FailurePhase_to_string (fr_phase rec) @ '').'' @ newline @
     ''  completion status: '' @ Ambiguity_to_string (fr_completion rec) @ newline @
     ''  side-effect state: '' @ SideEffectState_to_string (fr_side_effect_state rec) @
     '' (unknown side effects: '' @ show_word (fr_unknown_side_effects rec) @ '')'' @ newline @
     ''  retryability: '' @ Retryability_to_string (fr_retryability rec) @
     ''; rollback requirement: '' @ RollbackRequirement_to_string (fr_rollback rec) @
     ''; compensation requirement: '' @ CompensationRequirement_to_string (fr_compensation rec) @
     ''; terminality: '' @ Terminality_to_string (fr_terminality rec) @ newline @
     ''  recovery owner: '' @ RecoveryOwner_to_string (fr_recovery_owner rec) @ newline @
     ''  authority: epoch='' @ show_word (gen_value (ae_coordinator_epoch (fr_authority rec))) @
     '' attempt_gen='' @ show_word (gen_value (ae_attempt_generation (fr_authority rec))) @
     '' op_gen='' @ show_word (gen_value (ae_operation_generation (fr_authority rec))) @
     '' fail_gen='' @ show_word (gen_value (ae_failure_generation (fr_authority rec))) @
     '' recovery_gen='' @ show_word (gen_value (ae_recovery_generation (fr_authority rec))) @ newline @
     ''  summary: '' @ fr_summary rec @
     (if fr_reason rec \<noteq> [] then ''  reason: '' @ fr_reason rec else [])"

text \<open>\<open>"key":\<close>, as the string literals of the JSON writers spell it.\<close>

definition json_key :: "string \<Rightarrow> string" where
  "json_key k = dquote @ k @ dquote @ '':''"

definition explain_failure_json :: "FailureRecord \<Rightarrow> string" where
  "explain_failure_json rec =
     ''{'' @
     json_key ''failure_id'' @ quote_json (Id_to_hex (fr_failure_id rec)) @ '','' @
     json_key ''operation'' @ quote_json (Id_to_hex (fr_operation rec)) @ '','' @
     json_key ''attempt'' @ quote_json (Id_to_hex (fr_attempt rec)) @ '','' @
     json_key ''failure_class'' @ quote_json (FailureClass_to_string (fr_failure_class rec)) @ '','' @
     json_key ''origin'' @ quote_json (FailureOrigin_to_string (fr_origin rec)) @ '','' @
     json_key ''completion'' @ quote_json (Ambiguity_to_string (fr_completion rec)) @ '','' @
     json_key ''side_effect_state'' @ quote_json (SideEffectState_to_string (fr_side_effect_state rec)) @ '','' @
     json_key ''retryability'' @ quote_json (Retryability_to_string (fr_retryability rec)) @ '','' @
     json_key ''rollback'' @ quote_json (RollbackRequirement_to_string (fr_rollback rec)) @ '','' @
     json_key ''compensation'' @ quote_json (CompensationRequirement_to_string (fr_compensation rec)) @ '','' @
     json_key ''terminality'' @ quote_json (Terminality_to_string (fr_terminality rec)) @ '','' @
     json_key ''recovery_owner'' @ quote_json (RecoveryOwner_to_string (fr_recovery_owner rec)) @ '','' @
     json_key ''unknown_side_effects'' @ show_word (fr_unknown_side_effects rec) @ '','' @
     json_key ''summary'' @ quote_json (fr_summary rec) @
     ''}''"

text \<open>The loop over the rejected alternatives, whose reasons are printed while there are any.\<close>

fun explain_rejected :: "RecoveryAction list \<Rightarrow> string list \<Rightarrow> string" where
  "explain_rejected [] rs = []"
| "explain_rejected (a # as) [] = '' '' @ RecoveryAction_to_string a @ explain_rejected as []"
| "explain_rejected (a # as) (r # rs) =
     '' '' @ RecoveryAction_to_string a @ '' ('' @ r @ '')'' @ explain_rejected as rs"

definition explain_decision :: "FailureRecord \<Rightarrow> RetryDecision \<Rightarrow> RecoveryPlan \<Rightarrow> string" where
  "explain_decision rec retry pl =
     ''Retry decision: '' @ RetryVerdict_to_string (rd_verdict retry) @
     (if rd_same_idempotency_key retry then '' (same idempotency key)'' else []) @
     (if rd_requires_fresh_attempt retry then '' (fresh attempt required)'' else []) @
     ''. Reason: '' @ rd_reason retry @ newline @
     ''Recovery plan id '' @ Id_to_hex (rp_plan_id pl) @ '' selected action '' @
     RecoveryAction_to_string (rp_action pl) @
     '' (generation '' @ show_word (gen_value (rp_generation pl)) @ '').'' @ newline @
     ''  expected preserved: '' @ rp_expected_preserved pl @ newline @
     ''  expected discarded: '' @ rp_expected_discarded pl @ newline @
     ''  rejected alternatives:'' @
     explain_rejected (rp_rejected_alternatives pl) (rp_rejection_reasons pl) @
     newline @ ''  reason factors:'' @ concat (map (\<lambda>f. '' ['' @ f @ '']'') (rp_reason_factors pl)) @ newline"

definition explain_decision_json :: "FailureRecord \<Rightarrow> RetryDecision \<Rightarrow> RecoveryPlan \<Rightarrow> string" where
  "explain_decision_json rec retry pl =
     ''{'' @
     json_key ''verdict'' @ quote_json (RetryVerdict_to_string (rd_verdict retry)) @ '','' @
     json_key ''fresh_attempt'' @ boolstr (rd_requires_fresh_attempt retry) @ '','' @
     json_key ''same_key'' @ boolstr (rd_same_idempotency_key retry) @ '','' @
     json_key ''rollback_first'' @ boolstr (rd_rollback_first retry) @ '','' @
     json_key ''recovery_action'' @ quote_json (RecoveryAction_to_string (rp_action pl)) @ '','' @
     json_key ''recovery_generation'' @ show_word (gen_value (rp_generation pl)) @ '','' @
     json_key ''reason'' @ quote_json (rd_reason retry) @ '','' @
     json_key ''expected_preserved'' @ quote_json (rp_expected_preserved pl) @ '','' @
     json_key ''expected_discarded'' @ quote_json (rp_expected_discarded pl) @
     ''}''"

text \<open>\<open>to_json\<close>: one member per line, strings between quotes as they are.\<close>

definition json_id :: "string \<Rightarrow> 'tag Id \<Rightarrow> string" where
  "json_id k i = json_key k @ dquote @ Id_to_hex i @ dquote"

definition json_name :: "string \<Rightarrow> string \<Rightarrow> string" where
  "json_name k v = json_key k @ dquote @ v @ dquote"

definition to_json :: "FailureRecord \<Rightarrow> string" where
  "to_json r =
     ''{'' @ newline @
     json_id ''failure_id'' (fr_failure_id r) @ '','' @ newline @
     json_id ''operation'' (fr_operation r) @ '','' @ newline @
     json_id ''request'' (fr_request r) @ '','' @ newline @
     json_id ''workload'' (fr_workload r) @ '','' @ newline @
     json_id ''attempt'' (fr_attempt r) @ '','' @ newline @
     json_id ''dispatch'' (fr_dispatch r) @ '','' @ newline @
     json_id ''worker'' (fr_worker r) @ '','' @ newline @
     json_id ''node'' (fr_node r) @ '','' @ newline @
     json_id ''device'' (fr_device r) @ '','' @ newline @
     json_name ''failure_class'' (FailureClass_to_string (fr_failure_class r)) @ '','' @ newline @
     json_name ''origin'' (FailureOrigin_to_string (fr_origin r)) @ '','' @ newline @
     json_key ''failure_code'' @ show_word (fr_failure_code r) @ '','' @ newline @
     json_name ''phase'' (FailurePhase_to_string (fr_phase r)) @ '','' @ newline @
     json_key ''timestamp_ms'' @ show_word (fr_timestamp_ms r) @ '','' @ newline @
     json_name ''completion'' (Ambiguity_to_string (fr_completion r)) @ '','' @ newline @
     json_name ''side_effect_state'' (SideEffectState_to_string (fr_side_effect_state r)) @ '','' @ newline @
     json_key ''unknown_side_effects'' @ show_word (fr_unknown_side_effects r) @ '','' @ newline @
     json_name ''retryability'' (Retryability_to_string (fr_retryability r)) @ '','' @ newline @
     json_name ''rollback'' (RollbackRequirement_to_string (fr_rollback r)) @ '','' @ newline @
     json_name ''compensation'' (CompensationRequirement_to_string (fr_compensation r)) @ '','' @ newline @
     json_name ''terminality'' (Terminality_to_string (fr_terminality r)) @ '','' @ newline @
     json_name ''recovery_owner'' (RecoveryOwner_to_string (fr_recovery_owner r)) @ '','' @ newline @
     json_name ''provenance'' (Provenance_to_string (fr_provenance r)) @ newline @
     ''}'' @ newline"

subsection \<open>A reference reader of flat JSON objects\<close>

datatype jvalue = JString string | JNum nat | JBool bool

fun json_unescape :: "char \<Rightarrow> char option" where
  "json_unescape c =
     (if c = CHR 0x22 \<or> c = CHR 0x5C \<or> c = CHR ''/'' then Some c
      else if c = CHR ''n'' then Some (CHR 0x0A) else if c = CHR ''t'' then Some (CHR 0x09)
      else if c = CHR ''r'' then Some (CHR 0x0D) else if c = CHR ''b'' then Some (CHR 0x08)
      else if c = CHR ''f'' then Some (CHR 0x0C) else None)"

text \<open>The rest of a string after its opening quote; control characters must be escaped.\<close>

fun json_chars :: "string \<Rightarrow> (string \<times> string) option" where
  "json_chars [] = None"
| "json_chars (c # cs) =
     (if c = CHR 0x22 then Some ([], cs)
      else if c = CHR 0x5C
      then (case cs of [] \<Rightarrow> None
            | e # cs' \<Rightarrow> (case json_unescape e of None \<Rightarrow> None
                | Some d \<Rightarrow> map_option (\<lambda>(s, r). (d # s, r)) (json_chars cs')))
      else if of_char c < (0x20 :: nat) then None
      else map_option (\<lambda>(s, r). (c # s, r)) (json_chars cs))"

definition json_number :: "string \<Rightarrow> (nat \<times> string) option" where
  "json_number s =
     (let ds = takeWhile is_digit s
      in if ds = [] \<or> (hd ds = CHR ''0'' \<and> length ds > 1) then None
         else Some (decimal ds, dropWhile is_digit s))"

fun skip_ws :: "string \<Rightarrow> string" where
  "skip_ws (c # cs) = (if c \<in> {CHR 0x20, CHR 0x09, CHR 0x0A, CHR 0x0D} then skip_ws cs else c # cs)"
| "skip_ws [] = []"

definition json_value :: "string \<Rightarrow> (jvalue \<times> string) option" where
  "json_value s =
     (case s of [] \<Rightarrow> None
      | c # cs \<Rightarrow>
         if c = CHR 0x22 then map_option (\<lambda>(t, r). (JString t, r)) (json_chars cs)
         else if take 4 s = ''true'' then Some (JBool True, drop 4 s)
         else if take 5 s = ''false'' then Some (JBool False, drop 5 s)
         else map_option (\<lambda>(n, r). (JNum n, r)) (json_number s))"

definition json_member :: "string \<Rightarrow> ((string \<times> jvalue) \<times> string) option" where
  "json_member s =
     (case skip_ws s of [] \<Rightarrow> None
      | c # cs \<Rightarrow> if c \<noteq> CHR 0x22 then None
         else case json_chars cs of None \<Rightarrow> None
          | Some (k, r) \<Rightarrow> (case skip_ws r of [] \<Rightarrow> None
             | d # r' \<Rightarrow> if d \<noteq> CHR '':'' then None
                else map_option (\<lambda>(v, t). ((k, v), t)) (json_value (skip_ws r'))))"

fun json_members :: "nat \<Rightarrow> string \<Rightarrow> ((string \<times> jvalue) list \<times> string) option" where
  "json_members 0 s = None"
| "json_members (Suc n) s =
     (case json_member s of None \<Rightarrow> None
      | Some (kv, r) \<Rightarrow> (case skip_ws r of [] \<Rightarrow> None
          | c # r' \<Rightarrow>
             if c = CHR '','' then map_option (\<lambda>(kvs, t). (kv # kvs, t)) (json_members n r')
             else if c = CHR ''}'' then Some ([kv], r') else None))"

text \<open>A whole text that is one object with at least one member; a text has fewer members than characters.\<close>

definition json_object :: "string \<Rightarrow> (string \<times> jvalue) list option" where
  "json_object s =
     (case skip_ws s of [] \<Rightarrow> None
      | c # r \<Rightarrow> if c \<noteq> CHR ''{'' then None
         else case json_members (length r) r of None \<Rightarrow> None
          | Some (kvs, t) \<Rightarrow> if skip_ws t = [] then Some kvs else None)"

subsection \<open>Rendering and reading back\<close>

definition json_safe :: "string \<Rightarrow> bool" where
  "json_safe s \<longleftrightarrow> list_all (\<lambda>c. 0x20 \<le> (of_char c :: nat) \<or> c = CHR 0x0A) s"

lemma json_chars_quoted:
  "json_chars (concat (map quote_char s) @ CHR 0x22 # r) = (if json_safe s then Some (s, r) else None)"
proof (induction s)
  case (Cons c s)
  consider "c = CHR 0x22" | "c = CHR 0x5C" | "c = CHR 0x0A"
    | "c \<noteq> CHR 0x22" "c \<noteq> CHR 0x5C" "c \<noteq> CHR 0x0A" by blast
  then show ?case using Cons by cases (auto simp: json_safe_def not_less)
qed (simp add: json_safe_def)

fun json_text :: "jvalue \<Rightarrow> string" where
  "json_text (JString s) = quote_json s"
| "json_text (JNum n) = show_nat n"
| "json_text (JBool b) = boolstr b"

fun value_safe :: "jvalue \<Rightarrow> bool" where
  "value_safe (JString s) = json_safe s"
| "value_safe _ = True"

lemma digit_char: "n < 10 \<Longrightarrow> is_digit (char_of (48 + n))" "n < 10 \<Longrightarrow> of_char (char_of (48 + n :: nat) :: char) = 48 + n"
  by (simp_all add: is_digit_def)

lemma show_nat_digits: "list_all is_digit (show_nat n)" "show_nat n \<noteq> []"
proof (induction n rule: show_nat.induct)
  case (1 n)
  {
    case 1
    then show ?case using "1.IH" by (subst show_nat.simps) (simp add: digit_char)
  next
    case 2
    show ?case by (subst show_nat.simps) simp
  }
qed

lemma decimal_show_nat: "decimal (show_nat n) = n"
proof (induction n rule: show_nat.induct)
  case (1 n)
  then show ?case by (subst show_nat.simps) (simp add: decimal_def digit_char)
qed

lemma show_nat_leading: "hd (show_nat n) = CHR ''0'' \<Longrightarrow> length (show_nat n) = 1"
proof (induction n rule: show_nat.induct)
  case (1 n)
  show ?case
  proof (cases "n < 10")
    case True
    then show ?thesis by (subst show_nat.simps) simp
  next
    case False
    have "length (show_nat (n div 10)) = 1"
      using 1 False show_nat_digits(2) [of "n div 10"] by (subst (asm) (2) show_nat.simps) simp
    moreover have "hd (show_nat (n div 10)) = CHR ''0''"
      using "1.prems" False show_nat_digits(2) [of "n div 10"] by (subst (asm) show_nat.simps) simp
    ultimately have "show_nat (n div 10) = [CHR ''0'']" by (cases "show_nat (n div 10)") auto
    then have "decimal (show_nat (n div 10)) = 0" by (simp add: decimal_def)
    then show ?thesis using False by (simp add: decimal_show_nat)
  qed
qed

text \<open>What may follow a value: nothing, or a character that does not continue a number.\<close>

definition value_ends :: "string \<Rightarrow> bool" where
  "value_ends r \<longleftrightarrow> (case r of [] \<Rightarrow> True | c # _ \<Rightarrow> \<not> is_digit c)"

lemma json_number_show_nat: "value_ends r \<Longrightarrow> json_number (show_nat n @ r) = Some (n, r)"
proof -
  assume e: "value_ends r"
  have all: "\<forall>c \<in> set (show_nat n). is_digit c" using show_nat_digits(1) [of n] by (simp add: list_all_iff)
  have "takeWhile is_digit r = []" "dropWhile is_digit r = r"
    using e by (cases r; simp add: value_ends_def)+
  then have "takeWhile is_digit (show_nat n @ r) = show_nat n" "dropWhile is_digit (show_nat n @ r) = r"
    using all by (simp_all add: takeWhile_append2 dropWhile_append2)
  then show ?thesis
    using show_nat_digits(2) [of n] show_nat_leading [of n] by (auto simp: json_number_def Let_def decimal_show_nat)
qed

lemma json_value_text:
  assumes "value_ends r"
  shows "json_value (json_text v @ r) = (if value_safe v then Some (v, r) else None)"
proof (cases v)
  case (JString s)
  then show ?thesis by (simp add: json_value_def quote_json_def json_chars_quoted)
next
  case (JNum n)
  obtain d ds where d: "show_nat n = d # ds" "is_digit d"
    using show_nat_digits [of n] by (cases "show_nat n") simp_all
  have "d \<noteq> CHR 0x22" "d \<noteq> CHR ''t''" "d \<noteq> CHR ''f''" using d(2) by (auto simp: is_digit_def)
  then show ?thesis using JNum json_number_show_nat [OF assms, of n] d(1) by (simp add: json_value_def)
next
  case (JBool b)
  then show ?thesis by (simp add: json_value_def boolstr_def)
qed

text \<open>An object with its members, \<open>ws\<close> standing after each brace and comma.\<close>

definition member_text :: "string \<times> jvalue \<Rightarrow> string" where
  "member_text kv = quote_json (fst kv) @ '':'' @ json_text (snd kv)"

fun members_text :: "string \<Rightarrow> (string \<times> jvalue) list \<Rightarrow> string" where
  "members_text ws [] = []"
| "members_text ws [kv] = member_text kv @ ws"
| "members_text ws (kv # kvs) = member_text kv @ '','' @ ws @ members_text ws kvs"

definition object_text :: "string \<Rightarrow> (string \<times> jvalue) list \<Rightarrow> string" where
  "object_text ws kvs = ''{'' @ ws @ members_text ws kvs @ ''}'' @ ws"

definition all_ws :: "string \<Rightarrow> bool" where
  "all_ws ws \<longleftrightarrow> set ws \<subseteq> {CHR 0x20, CHR 0x09, CHR 0x0A, CHR 0x0D}"

definition member_safe :: "string \<times> jvalue \<Rightarrow> bool" where
  "member_safe kv \<longleftrightarrow> json_safe (fst kv) \<and> value_safe (snd kv)"

lemma skip_all_ws: "all_ws ws \<Longrightarrow> skip_ws (ws @ r) = skip_ws r"
  by (induction ws) (auto simp: all_ws_def)

lemma skip_ws_char: "c \<notin> {CHR 0x20, CHR 0x09, CHR 0x0A, CHR 0x0D} \<Longrightarrow> skip_ws (c # r) = c # r"
  by simp

lemma skip_json_text: "skip_ws (json_text v @ r) = json_text v @ r"
proof (cases v)
  case (JNum n)
  obtain d ds where d: "show_nat n = d # ds" "is_digit d"
    using show_nat_digits [of n] by (cases "show_nat n") simp_all
  then have "d \<notin> {CHR 0x20, CHR 0x09, CHR 0x0A, CHR 0x0D}" by (auto simp: is_digit_def)
  then show ?thesis using JNum d(1) by simp
qed (simp_all add: quote_json_def boolstr_def)

lemma value_ends_ws: "all_ws ws \<Longrightarrow> \<not> is_digit c \<Longrightarrow> value_ends (ws @ c # r)"
  by (cases ws) (auto simp: value_ends_def all_ws_def is_digit_def)

lemma json_member_text:
  assumes "value_ends r" "all_ws ws"
  shows "json_member (ws @ member_text kv @ r) = (if member_safe kv then Some (kv, r) else None)"
proof -
  have m: "member_text kv @ r = CHR 0x22 # concat (map quote_char (fst kv)) @ CHR 0x22 # CHR '':'' # json_text (snd kv) @ r"
    by (simp add: member_text_def quote_json_def)
  have "skip_ws (ws @ member_text kv @ r) = member_text kv @ r"
    unfolding skip_all_ws [OF assms(2)] m by simp
  then show ?thesis
    using json_value_text [OF assms(1), of "snd kv"]
    by (simp add: json_member_def m json_chars_quoted member_safe_def skip_json_text)
qed

lemma json_members_text:
  "kvs \<noteq> [] \<Longrightarrow> all_ws ws \<Longrightarrow> length kvs \<le> n \<Longrightarrow>
    json_members n (ws @ members_text ws kvs @ ''}'' @ t) = (if list_all member_safe kvs then Some (kvs, t) else None)"
proof (induction ws kvs arbitrary: n rule: members_text.induct)
  case (2 ws kv)
  then obtain n' where n: "n = Suc n'" by (cases n) auto
  have "json_member (ws @ member_text kv @ ws @ ''}'' @ t) = (if member_safe kv then Some (kv, ws @ ''}'' @ t) else None)"
    using 2 by (intro json_member_text) (auto simp: is_digit_def intro: value_ends_ws)
  then show ?case using 2 by (simp add: n skip_all_ws)
next
  case (3 ws kv kv' kvs)
  then obtain n' where n: "n = Suc n'" by (cases n) auto
  let ?r = "'','' @ ws @ members_text ws (kv' # kvs) @ ''}'' @ t"
  have "json_member (ws @ member_text kv @ ?r) = (if member_safe kv then Some (kv, ?r) else None)"
    using 3 by (intro json_member_text) (auto simp: value_ends_def is_digit_def)
  then show ?case using 3 by (simp add: n)
qed simp

lemma members_text_length: "length kvs \<le> length (members_text ws kvs)"
proof (induction ws kvs rule: members_text.induct)
  case (2 ws kv)
  then show ?case by (simp add: member_text_def)
next
  case (3 ws kv kv' kvs)
  then show ?case by (simp add: member_text_def)
qed simp

lemma json_object_text:
  assumes "kvs \<noteq> []" "all_ws ws"
  shows "json_object (object_text ws kvs) = (if list_all member_safe kvs then Some kvs else None)"
proof -
  have "length kvs \<le> length (ws @ members_text ws kvs @ ''}'' @ ws)"
    using members_text_length [of kvs ws] by simp
  then have "json_members (length (ws @ members_text ws kvs @ ''}'' @ ws))
      (ws @ members_text ws kvs @ ''}'' @ ws) = (if list_all member_safe kvs then Some (kvs, ws) else None)"
    by (rule json_members_text [OF assms])
  then show ?thesis using skip_all_ws [OF assms(2), of "[]"] by (simp add: json_object_def object_text_def)
qed

subsection \<open>Names and identities need no escaping\<close>

definition plain :: "string \<Rightarrow> bool" where
  "plain s \<longleftrightarrow> list_all (\<lambda>c. 0x20 \<le> (of_char c :: nat) \<and> c \<noteq> CHR 0x22 \<and> c \<noteq> CHR 0x5C) s"

lemma plain_simps [simp]:
  "plain []"
  "plain (c # s) \<longleftrightarrow> 0x20 \<le> (of_char c :: nat) \<and> c \<noteq> CHR 0x22 \<and> c \<noteq> CHR 0x5C \<and> plain s"
  by (simp_all add: plain_def)

lemma plain_safe: "plain s \<Longrightarrow> json_safe s"
  by (auto simp: plain_def json_safe_def list_all_iff)

lemma plain_quote: "plain s \<Longrightarrow> quote_json s = dquote @ s @ dquote"
proof -
  assume "plain s"
  then have "concat (map quote_char s) = s" by (induction s) (auto simp: plain_def)
  then show ?thesis by (simp add: quote_json_def)
qed

lemma plain_hex [simp]: "plain (Id_to_hex i)"
proof -
  have "is_hex_char c \<Longrightarrow> 0x20 \<le> (of_char c :: nat) \<and> c \<noteq> CHR 0x22 \<and> c \<noteq> CHR 0x5C" for c
    by (auto simp: is_hex_char_def less_eq_char_def)
  moreover have "list_all is_hex_char (uuid128_to_hex (raw i))"
    using hex_valid(1) [of "raw i"] by (simp add: is_valid_hex_def list_all_iff)
  ultimately show ?thesis by (auto simp: plain_def Id_to_hex_def list_all_iff)
qed

lemma plain_names [simp]:
  "plain (FailureClass_to_string a)" "plain (FailureOrigin_to_string b)"
  "plain (Ambiguity_to_string c)" "plain (SideEffectState_to_string d)"
  "plain (Retryability_to_string e)" "plain (RollbackRequirement_to_string f)"
  "plain (CompensationRequirement_to_string g)" "plain (Terminality_to_string h)"
  "plain (RecoveryOwner_to_string i)" "plain (FailurePhase_to_string j)"
  "plain (Provenance_to_string k)" "plain (RetryVerdict_to_string l)"
  "plain (RecoveryAction_to_string m)"
proof -
  show "plain (FailureClass_to_string a)" by (cases a) simp_all
  show "plain (FailureOrigin_to_string b)" by (cases b) simp_all
  show "plain (Ambiguity_to_string c)" by (cases c) simp_all
  show "plain (SideEffectState_to_string d)" by (cases d) simp_all
  show "plain (Retryability_to_string e)" by (cases e) simp_all
  show "plain (RollbackRequirement_to_string f)" by (cases f) simp_all
  show "plain (CompensationRequirement_to_string g)" by (cases g) simp_all
  show "plain (Terminality_to_string h)" by (cases h) simp_all
  show "plain (RecoveryOwner_to_string i)" by (cases i) simp_all
  show "plain (FailurePhase_to_string j)" by (cases j) simp_all
  show "plain (Provenance_to_string k)" by (cases k) simp_all
  show "plain (RetryVerdict_to_string l)" by (cases l) simp_all
  show "plain (RecoveryAction_to_string m)" by (cases m) simp_all
qed

text \<open>The fields each writer prints, in order.\<close>

definition failure_fields :: "FailureRecord \<Rightarrow> (string \<times> jvalue) list" where
  "failure_fields r =
     [(''failure_id'', JString (Id_to_hex (fr_failure_id r))),
      (''operation'', JString (Id_to_hex (fr_operation r))),
      (''attempt'', JString (Id_to_hex (fr_attempt r))),
      (''failure_class'', JString (FailureClass_to_string (fr_failure_class r))),
      (''origin'', JString (FailureOrigin_to_string (fr_origin r))),
      (''completion'', JString (Ambiguity_to_string (fr_completion r))),
      (''side_effect_state'', JString (SideEffectState_to_string (fr_side_effect_state r))),
      (''retryability'', JString (Retryability_to_string (fr_retryability r))),
      (''rollback'', JString (RollbackRequirement_to_string (fr_rollback r))),
      (''compensation'', JString (CompensationRequirement_to_string (fr_compensation r))),
      (''terminality'', JString (Terminality_to_string (fr_terminality r))),
      (''recovery_owner'', JString (RecoveryOwner_to_string (fr_recovery_owner r))),
      (''unknown_side_effects'', JNum (unat (fr_unknown_side_effects r))),
      (''summary'', JString (fr_summary r))]"

definition record_fields :: "FailureRecord \<Rightarrow> (string \<times> jvalue) list" where
  "record_fields r =
     [(''failure_id'', JString (Id_to_hex (fr_failure_id r))),
      (''operation'', JString (Id_to_hex (fr_operation r))),
      (''request'', JString (Id_to_hex (fr_request r))),
      (''workload'', JString (Id_to_hex (fr_workload r))),
      (''attempt'', JString (Id_to_hex (fr_attempt r))),
      (''dispatch'', JString (Id_to_hex (fr_dispatch r))),
      (''worker'', JString (Id_to_hex (fr_worker r))),
      (''node'', JString (Id_to_hex (fr_node r))),
      (''device'', JString (Id_to_hex (fr_device r))),
      (''failure_class'', JString (FailureClass_to_string (fr_failure_class r))),
      (''origin'', JString (FailureOrigin_to_string (fr_origin r))),
      (''failure_code'', JNum (unat (fr_failure_code r))),
      (''phase'', JString (FailurePhase_to_string (fr_phase r))),
      (''timestamp_ms'', JNum (unat (fr_timestamp_ms r))),
      (''completion'', JString (Ambiguity_to_string (fr_completion r))),
      (''side_effect_state'', JString (SideEffectState_to_string (fr_side_effect_state r))),
      (''unknown_side_effects'', JNum (unat (fr_unknown_side_effects r))),
      (''retryability'', JString (Retryability_to_string (fr_retryability r))),
      (''rollback'', JString (RollbackRequirement_to_string (fr_rollback r))),
      (''compensation'', JString (CompensationRequirement_to_string (fr_compensation r))),
      (''terminality'', JString (Terminality_to_string (fr_terminality r))),
      (''recovery_owner'', JString (RecoveryOwner_to_string (fr_recovery_owner r))),
      (''provenance'', JString (Provenance_to_string (fr_provenance r)))]"

definition decision_fields :: "RetryDecision \<Rightarrow> RecoveryPlan \<Rightarrow> (string \<times> jvalue) list" where
  "decision_fields d p =
     [(''verdict'', JString (RetryVerdict_to_string (rd_verdict d))),
      (''fresh_attempt'', JBool (rd_requires_fresh_attempt d)),
      (''same_key'', JBool (rd_same_idempotency_key d)),
      (''rollback_first'', JBool (rd_rollback_first d)),
      (''recovery_action'', JString (RecoveryAction_to_string (rp_action p))),
      (''recovery_generation'', JNum (unat (gen_value (rp_generation p)))),
      (''reason'', JString (rd_reason d)),
      (''expected_preserved'', JString (rp_expected_preserved p)),
      (''expected_discarded'', JString (rp_expected_discarded p))]"

lemma member_text_key: "plain k \<Longrightarrow> member_text (k, v) = json_key k @ json_text v"
  by (simp add: member_text_def json_key_def plain_quote)

lemmas json_writers = object_text_def member_text_key show_word_def

lemma explain_failure_json_text: "explain_failure_json r = object_text [] (failure_fields r)"
  by (simp add: explain_failure_json_def failure_fields_def json_writers)

lemma explain_decision_json_text: "explain_decision_json r d p = object_text [] (decision_fields d p)"
  by (simp add: explain_decision_json_def decision_fields_def json_writers)

lemma json_id_quoted: "json_id k i = json_key k @ quote_json (Id_to_hex i)"
  by (simp add: json_id_def plain_quote)

lemma to_json_text: "to_json r = object_text newline (record_fields r)"
proof -
  have "plain v \<Longrightarrow> json_name k v = json_key k @ quote_json v" for k v
    by (simp add: json_name_def plain_quote)
  then show ?thesis
    by (simp add: to_json_def record_fields_def json_writers json_id_quoted)
qed

subsection \<open>Properties\<close>

lemma json_safe_simps [simp]:
  "json_safe []" "json_safe (c # s) \<longleftrightarrow> (0x20 \<le> (of_char c :: nat) \<or> c = CHR 0x0A) \<and> json_safe s"
  by (simp_all add: json_safe_def)

lemma all_ws_newline [simp]: "all_ws []" "all_ws newline"
  by (simp_all add: all_ws_def)

lemma all_safe_fields:
  "list_all member_safe (failure_fields r) \<longleftrightarrow> json_safe (fr_summary r)"
  "list_all member_safe (decision_fields d p) \<longleftrightarrow>
     json_safe (rd_reason d) \<and> json_safe (rp_expected_preserved p) \<and> json_safe (rp_expected_discarded p)"
  "list_all member_safe (record_fields r)"
  by (simp_all add: failure_fields_def decision_fields_def record_fields_def member_safe_def plain_safe)

text \<open>The texts the classifier and the planner write have no control characters.\<close>

lemma json_safe_append [simp]: "json_safe (s @ t) \<longleftrightarrow> json_safe s \<and> json_safe t"
  by (simp add: json_safe_def)

lemma reason_safe_if:
  "json_safe (rd_reason a) \<Longrightarrow> json_safe (rd_reason b) \<Longrightarrow> json_safe (rd_reason (if c then a else b))"
  by simp

definition plan_texts_safe :: "RecoveryPlan \<Rightarrow> bool" where
  "plan_texts_safe p \<longleftrightarrow> json_safe (rp_expected_preserved p) \<and> json_safe (rp_expected_discarded p)"

lemma plan_texts_if: "plan_texts_safe a \<Longrightarrow> plan_texts_safe b \<Longrightarrow> plan_texts_safe (if c then a else b)"
  by simp

lemma plan_texts_simps [simp]:
  "plan_texts_safe (decide a p) = plan_texts_safe p" "plan_texts_safe (decide_given a t p) = plan_texts_safe p"
  "plan_texts_safe (reject a t p) = plan_texts_safe p" "plan_texts_safe (factor t p) = plan_texts_safe p"
  by (simp_all add: plan_texts_safe_def decide_def decide_given_def reject_def factor_def)

lemma plan_texts_set:
  "json_safe t \<Longrightarrow> json_safe u \<Longrightarrow> plan_texts_safe (p\<lparr>rp_expected_preserved := t, rp_expected_discarded := u\<rparr>)"
  "json_safe t \<Longrightarrow> plan_texts_safe p \<Longrightarrow> plan_texts_safe (p\<lparr>rp_expected_preserved := t\<rparr>)"
  "json_safe u \<Longrightarrow> plan_texts_safe p \<Longrightarrow> plan_texts_safe (p\<lparr>rp_expected_discarded := u\<rparr>)"
  by (simp_all add: plan_texts_safe_def)

lemma plan_rules_texts: "plan_texts_safe p \<Longrightarrow> plan_texts_safe (plan_rules f i p)"
  unfolding plan_rules_def plan_hardware_loss_def plan_ambiguous_outcome_def plan_known_effect_def
    plan_bounded_retry_def plan_terminal_def Let_def
  by (intro plan_texts_if plan_texts_set) simp_all

lemma library_texts_safe:
  "json_safe (rd_reason (classify f inp pol))"
  "json_safe (rp_expected_preserved (fst (plan draw f i g)))"
  "json_safe (rp_expected_discarded (fst (plan draw f i g)))"
proof -
  have n: "json_safe (FailureClass_to_string c)" for c by (rule plain_safe) simp
  show "json_safe (rd_reason (classify f inp pol))"
    unfolding classify_def Let_def by (intro reason_safe_if) (simp_all add: n)
  have "plan_texts_safe (plan_start pid f i)" for pid
    by (simp add: plan_start_def Let_def) (simp add: plan_texts_safe_def default_plan_def)
  then have "plan_texts_safe (fst (plan draw f i g))"
    by (simp add: plan_def Let_def case_prod_beta plan_rules_texts)
  then show "json_safe (rp_expected_preserved (fst (plan draw f i g)))"
    "json_safe (rp_expected_discarded (fst (plan draw f i g)))"
    by (simp_all add: plan_texts_safe_def)
qed

text \<open>
  C36: when the JSON explanations are JSON. Read back by the JSON grammar (on bytes; the encoding of
  the text is not looked at), the dump of a record, and the explanation of any decision the classifier
  and the planner make, are objects with exactly the fields of their arguments, in order and with
  their values. The explanation of a failure, and that of a decision whose texts come from elsewhere,
  are such objects exactly when the free texts have no control characters other than newlines, and
  otherwise are not JSON at all.
\<close>

theorem json_explanations_parse:
  "json_object (to_json r) = Some (record_fields r) \<and>
   json_object (explain_decision_json r (classify f inp pol) (fst (plan draw f' i g))) =
     Some (decision_fields (classify f inp pol) (fst (plan draw f' i g))) \<and>
   json_object (explain_failure_json r) =
     (if json_safe (fr_summary r) then Some (failure_fields r) else None) \<and>
   json_object (explain_decision_json r d p) =
     (if json_safe (rd_reason d) \<and> json_safe (rp_expected_preserved p) \<and> json_safe (rp_expected_discarded p)
      then Some (decision_fields d p) else None)"
proof -
  have "failure_fields r \<noteq> []" "decision_fields d p \<noteq> []" "record_fields r \<noteq> []" for d p
    by (simp_all add: failure_fields_def decision_fields_def record_fields_def)
  then show ?thesis
    by (simp add: explain_failure_json_text explain_decision_json_text to_json_text json_object_text
        all_safe_fields library_texts_safe)
qed

text \<open>The quoted form of a text alone.\<close>

lemma quote_json_exact:
  "json_value (quote_json s @ r) = (if json_safe s then Some (JString s, r) else None)"
  by (simp add: json_value_def quote_json_def json_chars_quoted)

end
