(* ===== verification/FF_Rollback.thy ===== *)
theory FF_Rollback
  imports FF_Authority
begin

text \<open>
  Rollback plans and their executor (\<open>include/failure_fabric/rollback.hpp\<close>,
  \<open>src/rollback.cpp\<close>): steps are executed one at a time, in order, each under a current recovery
  authority, and the position survives a restart through \<open>resume_from\<close>.
\<close>

subsection \<open>Data and operations\<close>

record RollbackStep =
  rs_action :: RollbackAction
  rs_target :: string
  rs_idempotent :: bool
  rs_executed :: bool
  rs_failed :: bool
  rs_detail :: string

definition default_step :: RollbackStep where
  "default_step = \<lparr>rs_action = RollbackAction.RELEASE_RESERVATION, rs_target = [],
     rs_idempotent = True, rs_executed = False, rs_failed = False, rs_detail = []\<rparr>"

definition step_describe :: "RollbackStep \<Rightarrow> string" where
  "step_describe st =
     (let s = RollbackAction_to_string (rs_action st)
      in if rs_target st \<noteq> [] then s @ '':'' @ rs_target st else s)"

record RollbackPlan =
  rb_operation :: OperationId
  rb_generation :: RecoveryGeneration
  rb_owner :: RecoveryOwner
  rb_authority :: AuthorityEnvelope
  rb_steps :: "RollbackStep list"

record RollbackExecutor =
  rx_plan :: RollbackPlan
  rx_completed :: nat
  rx_failed :: bool
  rx_failure_reason :: string

definition new_executor :: "RollbackPlan \<Rightarrow> RollbackExecutor" where
  "new_executor p = \<lparr>rx_plan = p, rx_completed = 0, rx_failed = False, rx_failure_reason = []\<rparr>"

definition rx_is_complete :: "RollbackExecutor \<Rightarrow> bool" where
  "rx_is_complete e \<longleftrightarrow> rx_completed e \<ge> length (rb_steps (rx_plan e))"

definition run_next :: "bool \<Rightarrow> RollbackExecutor \<Rightarrow> bool \<times> RollbackExecutor" where
  "run_next authority_current e =
     (if rx_is_complete e then (True, e)
      else if \<not> authority_current
      then (False, e\<lparr>rx_failed := True,
              rx_failure_reason := ''rollback blocked: recovery authority no longer current''\<rparr>)
      else
        let steps = rb_steps (rx_plan e);
            i = rx_completed e;
            steps = steps[i := (steps ! i)\<lparr>rs_executed := True\<rparr>]
        in (True, e\<lparr>rx_plan := (rx_plan e)\<lparr>rb_steps := steps\<rparr>, rx_completed := i + 1\<rparr>))"

definition resume_from :: "nat \<Rightarrow> RollbackExecutor \<Rightarrow> RollbackExecutor" where
  "resume_from completed e = e\<lparr>rx_completed := completed\<rparr>"

subsection \<open>Runs\<close>

text \<open>A series of calls of \<open>run_next\<close>, each with the authority check of its time.\<close>

definition run_all :: "bool list \<Rightarrow> RollbackExecutor \<Rightarrow> RollbackExecutor" where
  "run_all fs e = fold (\<lambda>f e. snd (run_next f e)) fs e"

definition authorised :: "bool list \<Rightarrow> nat" where
  "authorised fs = length (filter id fs)"

text \<open>The steps with indices from \<open>lo\<close> up to but not including \<open>hi\<close> marked as executed.\<close>

definition mark_executed :: "nat \<Rightarrow> nat \<Rightarrow> RollbackStep list \<Rightarrow> RollbackStep list" where
  "mark_executed lo hi xs =
     map (\<lambda>i. if lo \<le> i \<and> i < hi then (xs ! i)\<lparr>rs_executed := True\<rparr> else xs ! i) [0..<length xs]"

lemma mark_executed_empty [simp]: "mark_executed lo lo xs = xs"
  by (rule nth_equalityI) (auto simp: mark_executed_def)

lemma length_mark_executed [simp]: "length (mark_executed lo hi xs) = length xs"
  by (simp add: mark_executed_def)

lemma mark_executed_Suc:
  "lo \<le> hi \<Longrightarrow> hi < length xs \<Longrightarrow>
    (mark_executed lo hi xs)[hi := (mark_executed lo hi xs ! hi)\<lparr>rs_executed := True\<rparr>] =
    mark_executed lo (Suc hi) xs"
  by (rule nth_equalityI) (auto simp: mark_executed_def nth_list_update less_Suc_eq)

lemma run_all_snoc: "run_all (fs @ [f]) e = snd (run_next f (run_all fs e))"
  by (simp add: run_all_def)

lemma run_all_append: "run_all (fs @ gs) e = run_all gs (run_all fs e)"
  by (simp add: run_all_def)

lemma run_all_state:
  assumes "rx_completed e \<le> length (rb_steps (rx_plan e))"
  shows "rx_completed (run_all fs e) =
      min (length (rb_steps (rx_plan e))) (rx_completed e + authorised fs) \<and>
    rx_plan (run_all fs e) = (rx_plan e)\<lparr>rb_steps :=
      mark_executed (rx_completed e)
        (min (length (rb_steps (rx_plan e))) (rx_completed e + authorised fs))
        (rb_steps (rx_plan e))\<rparr>"
proof (induction fs rule: rev_induct)
  case Nil
  then show ?case using assms by (simp add: run_all_def authorised_def)
next
  case (snoc f fs)
  let ?n = "length (rb_steps (rx_plan e))"
  let ?k = "rx_completed e + authorised fs"
  show ?case
  proof (cases "f \<and> ?k < ?n")
    case True
    then have "authorised (fs @ [f]) = Suc (authorised fs)" by (simp add: authorised_def)
    moreover have "min ?n ?k = ?k" "min ?n (Suc ?k) = Suc ?k" using True by auto
    ultimately show ?thesis
      using snoc True by (simp add: run_all_snoc run_next_def rx_is_complete_def Let_def mark_executed_Suc)
  next
    case False
    then have "min ?n (rx_completed e + authorised (fs @ [f])) = min ?n ?k"
      by (auto simp: authorised_def)
    then show ?thesis
      using snoc False by (cases f) (simp_all add: run_all_snoc run_next_def rx_is_complete_def)
  qed
qed

lemma run_all_completed:
  "rx_completed e \<le> length (rb_steps (rx_plan e)) \<Longrightarrow>
    rx_completed (run_all fs e) =
      min (length (rb_steps (rx_plan e))) (rx_completed e + authorised fs)"
  by (simp add: run_all_state)

lemma run_all_steps:
  "rx_completed e \<le> length (rb_steps (rx_plan e)) \<Longrightarrow>
    rb_steps (rx_plan (run_all fs e)) =
      mark_executed (rx_completed e) (rx_completed (run_all fs e)) (rb_steps (rx_plan e))"
  by (simp add: run_all_state)

subsection \<open>Properties\<close>

text \<open>
  A rollback executes its steps in order and only under current authority: after any series of
  calls on a new executor, the completed count is the number of authorised calls, capped at the
  length of the plan, and exactly that prefix of the steps has been marked executed; in particular
  as many authorised calls as the plan has steps complete it.
\<close>

lemma rollback_in_order:
  "rx_completed (run_all fs (new_executor p)) = min (length (rb_steps p)) (authorised fs) \<and>
   rb_steps (rx_plan (run_all fs (new_executor p))) =
     map (\<lambda>st. st\<lparr>rs_executed := True\<rparr>) (take (authorised fs) (rb_steps p)) @
     drop (authorised fs) (rb_steps p) \<and>
   (rx_is_complete (run_all fs (new_executor p)) \<longleftrightarrow> length (rb_steps p) \<le> authorised fs)"
proof -
  let ?e = "run_all fs (new_executor p)"
  have c: "rx_completed ?e = min (length (rb_steps p)) (authorised fs)"
    using run_all_completed [of "new_executor p" fs] by (simp add: new_executor_def)
  have steps: "rb_steps (rx_plan ?e) = mark_executed 0 (rx_completed ?e) (rb_steps p)"
    using run_all_steps [of "new_executor p" fs] by (simp add: new_executor_def)
  also have "\<dots> = map (\<lambda>st. st\<lparr>rs_executed := True\<rparr>) (take (authorised fs) (rb_steps p)) @
     drop (authorised fs) (rb_steps p)"
    by (rule nth_equalityI) (auto simp: c mark_executed_def nth_append)
  finally show ?thesis using c steps by (auto simp: rx_is_complete_def)
qed

text \<open>
  Resuming after a restart executes every step exactly once: a fresh executor for the same plan
  that resumes from the position the lost one had reached executes exactly the remaining steps, and
  the steps executed by the two together are those one uninterrupted executor would have executed.
\<close>

lemma rollback_resume_exact:
  "rx_completed (run_all gs (resume_from (rx_completed (run_all fs (new_executor p))) (new_executor p)))
     = rx_completed (run_all (fs @ gs) (new_executor p)) \<and>
   rb_steps (rx_plan (run_all gs
       (resume_from (rx_completed (run_all fs (new_executor p))) (new_executor p)))) =
     mark_executed (rx_completed (run_all fs (new_executor p)))
       (rx_completed (run_all (fs @ gs) (new_executor p))) (rb_steps p)"
proof -
  let ?c = "rx_completed (run_all fs (new_executor p))"
  let ?r = "resume_from ?c (new_executor p)"
  have c: "?c = min (length (rb_steps p)) (authorised fs)"
    using run_all_completed [of "new_executor p" fs] by (simp add: new_executor_def)
  then have le: "rx_completed ?r \<le> length (rb_steps (rx_plan ?r))"
    by (simp add: resume_from_def new_executor_def)
  have "rx_completed (run_all (fs @ gs) (new_executor p)) =
      min (length (rb_steps p)) (authorised fs + authorised gs)"
    using run_all_completed [of "new_executor p" "fs @ gs"]
    by (simp add: new_executor_def authorised_def)
  moreover have "rx_completed (run_all gs ?r) = min (length (rb_steps p)) (?c + authorised gs)"
    using run_all_completed [OF le, of gs] by (simp add: resume_from_def new_executor_def)
  ultimately have eq: "rx_completed (run_all gs ?r) = rx_completed (run_all (fs @ gs) (new_executor p))"
    using c by auto
  then show ?thesis
    using run_all_steps [OF le, of gs] by (simp add: resume_from_def new_executor_def)
qed

end
