(* ===== verification/FF_Compensation.thy ===== *)
theory FF_Compensation
  imports FF_Authority
begin

text \<open>
  Compensation (\<open>include/failure_fabric/compensation.hpp\<close>, \<open>src/compensation.cpp\<close>): a record that
  is run at most once, under a current authority.
\<close>

datatype CompletionState = PENDING | COMPLETE | FAILURE

record CompensationRecord =
  cr_compensation_id :: CompensationId
  cr_target_operation :: OperationId
  cr_reason :: string
  cr_preconditions :: string
  cr_authority :: AuthorityEnvelope
  cr_side_effects :: SideEffectState
  cr_completion :: CompletionState
  cr_failed :: bool
  cr_failure_reason :: string
  cr_attempts :: u32

definition default_compensation :: CompensationRecord where
  "default_compensation = \<lparr>cr_compensation_id = null_id, cr_target_operation = null_id,
     cr_reason = [], cr_preconditions = [], cr_authority = empty_envelope,
     cr_side_effects = SideEffectState.UNKNOWN, cr_completion = CompletionState.PENDING,
     cr_failed = False, cr_failure_reason = [], cr_attempts = 0\<rparr>"

definition comp_is_complete :: "CompensationRecord \<Rightarrow> bool" where
  "comp_is_complete r \<longleftrightarrow> cr_completion r = CompletionState.COMPLETE"

definition comp_is_failed :: "CompensationRecord \<Rightarrow> bool" where
  "comp_is_failed r \<longleftrightarrow> cr_completion r = CompletionState.FAILURE"

definition comp_run :: "bool \<Rightarrow> CompensationRecord \<Rightarrow> CompensationRecord" where
  "comp_run authority_current r =
     (if cr_completion r = CompletionState.COMPLETE then r
      else if cr_completion r = CompletionState.FAILURE then r
      else if \<not> authority_current
      then r\<lparr>cr_completion := CompletionState.FAILURE, cr_failed := True,
             cr_failure_reason := ''compensation blocked: authority no longer current''\<rparr>
      else r\<lparr>cr_completion := CompletionState.COMPLETE, cr_failed := False,
             cr_side_effects := SideEffectState.KNOWN_NOT_OCCURRED,
             cr_attempts := cr_attempts r + 1\<rparr>)"

definition resume_failure :: "string \<Rightarrow> CompensationRecord \<Rightarrow> CompensationRecord" where
  "resume_failure reason r =
     r\<lparr>cr_completion := CompletionState.FAILURE, cr_failed := True, cr_failure_reason := reason\<rparr>"

subsection \<open>Runs\<close>

datatype comp_event = Run bool | ResumeFailure string

fun comp_step :: "comp_event \<Rightarrow> CompensationRecord \<Rightarrow> CompensationRecord" where
  "comp_step (Run a) r = comp_run a r"
| "comp_step (ResumeFailure why) r = resume_failure why r"

definition comp_inv :: "CompensationRecord \<Rightarrow> bool" where
  "comp_inv r \<longleftrightarrow> (cr_failed r \<longleftrightarrow> cr_completion r = CompletionState.FAILURE)"

text \<open>
  How a record may evolve: a pending one is attempted at most once more, a settled one is never
  pending again, and its attempts and side effects stay as they are. A complete record can still
  become a failure (by \<open>resume_failure\<close>), but not the other way round.
\<close>

definition comp_evolves :: "CompensationRecord \<Rightarrow> CompensationRecord \<Rightarrow> bool" where
  "comp_evolves r r' \<longleftrightarrow>
     (if cr_completion r = CompletionState.PENDING
      then r' = r \<or> cr_completion r' \<noteq> CompletionState.PENDING \<and>
           (cr_attempts r' = cr_attempts r \<or>
            cr_attempts r' = cr_attempts r + 1 \<and>
            cr_side_effects r' = SideEffectState.KNOWN_NOT_OCCURRED)
      else cr_completion r' \<noteq> CompletionState.PENDING \<and> cr_attempts r' = cr_attempts r \<and>
           cr_side_effects r' = cr_side_effects r \<and>
           (cr_completion r = CompletionState.FAILURE \<longrightarrow> cr_completion r' = CompletionState.FAILURE))"

lemma comp_step_inv: "comp_inv r \<Longrightarrow> comp_inv (comp_step e r)"
  by (cases e) (auto simp: comp_inv_def comp_run_def resume_failure_def)

interpretation comp: monotone_system comp_step comp_inv comp_evolves
proof unfold_locales
  show "comp_inv s \<Longrightarrow> comp_inv (comp_step e s)" for s e by (rule comp_step_inv)
  show "comp_evolves s s" for s by (simp add: comp_evolves_def)
  show "comp_evolves s t \<Longrightarrow> comp_evolves t u \<Longrightarrow> comp_evolves s u" for s t u
    by (auto simp: comp_evolves_def split: if_splits)
  show "comp_inv s \<Longrightarrow> comp_evolves s (comp_step e s)" for s e
    by (cases e) (auto simp: comp_evolves_def comp_run_def resume_failure_def
        intro: CompletionState.exhaust [of "cr_completion s"])
qed

lemma comp_run_settled: "cr_completion r \<noteq> CompletionState.PENDING \<Longrightarrow> comp_run a r = r"
  by (cases "cr_completion r") (auto simp: comp_run_def)

lemma comp_runs_settled:
  "cr_completion r \<noteq> CompletionState.PENDING \<Longrightarrow> fold comp_run fs r = r"
  by (induction fs) (simp_all add: comp_run_settled)

subsection \<open>Properties\<close>

lemma comp_settles: "cr_completion (comp_step e r) \<noteq> CompletionState.PENDING"
  by (cases e; cases "cr_completion r") (auto simp: comp_run_def resume_failure_def)

lemma comp_settled_step:
  assumes "cr_completion r \<noteq> CompletionState.PENDING"
  shows "cr_attempts (comp_step e r) = cr_attempts r"
    and "cr_completion (comp_step e r) = (if \<exists>why. e = ResumeFailure why then CompletionState.FAILURE else cr_completion r)"
  using assms by (cases e; simp add: comp_run_settled resume_failure_def)+

lemma comp_settled_run:
  "cr_completion r \<noteq> CompletionState.PENDING \<Longrightarrow> cr_attempts (fold comp_step es r) = cr_attempts r \<and>
    cr_completion (fold comp_step es r) =
      (if \<exists>why. ResumeFailure why \<in> set es then CompletionState.FAILURE else cr_completion r)"
proof (induction es arbitrary: r)
  case (Cons e es)
  then show ?case using Cons.IH [of "comp_step e r"] comp_settles [of e r] comp_settled_step [OF Cons.prems, of e]
    by (auto simp del: comp_step.simps)
qed simp

text \<open>
  C40: Compensation runs at most once. Whatever calls follow, the compensation is attempted again
  exactly if the record was pending and the first call is a run under a current authority. The first
  call settles a pending record, as complete for such a run and as a failure otherwise; from then on
  runs change nothing, and a reported failure makes the record, even a complete one, a failure for
  good.
\<close>

theorem compensation_at_most_once:
  "cr_attempts (fold comp_step es r) =
     cr_attempts r + (if cr_completion r = CompletionState.PENDING \<and> take 1 es = [Run True] then 1 else 0) \<and>
   cr_completion (fold comp_step es r) =
     (if \<exists>why. ResumeFailure why \<in> set es then CompletionState.FAILURE
      else if cr_completion r = CompletionState.PENDING \<and> es \<noteq> []
      then if hd es = Run True then CompletionState.COMPLETE else CompletionState.FAILURE
      else cr_completion r)"
proof (cases es)
  case (Cons e es')
  note settled = comp_settled_run [OF comp_settles [of e r], of es']
  show ?thesis
  proof (cases "cr_completion r = CompletionState.PENDING")
    case True
    then have "cr_attempts (comp_step e r) = cr_attempts r + (if e = Run True then 1 else 0)"
      "cr_completion (comp_step e r) = (if e = Run True then CompletionState.COMPLETE else CompletionState.FAILURE)"
      by (cases e; simp add: comp_run_def resume_failure_def)+
    then show ?thesis using settled True Cons by auto
  next
    case False
    then show ?thesis using comp_settled_run [OF False, of es] by simp
  qed
qed simp

text \<open>
  Running a compensation repeatedly has the effect of running it once: only the first call
  decides, with its authority check, between completion and failure.
\<close>

lemma compensation_idempotent:
  "fold comp_run (a # fs) r = comp_run a r"
proof -
  have "cr_completion (comp_run a r) \<noteq> CompletionState.PENDING"
    by (cases "cr_completion r") (auto simp: comp_run_def)
  then show ?thesis by (simp add: comp_runs_settled)
qed

end
