(* ===== verification/FF_Cli.thy ===== *)
theory FF_Cli
  imports FF_Store FF_Explain FF_Rollback FF_Compensation
begin

text \<open>
  The command-line tool (\<open>tools/ff_cli.cpp\<close>): each command as the text it prints, its exit code and the
  file it writes. Parameters are the random engines (\<open>seed n\<close> is the engine \<open>std::mt19937_64 rng(n)\<close>,
  \<open>g\<close> the engine of \<open>generate()\<close>), the command interpreter (\<open>shell\<close>), the path of the executable and
  the files (what a file holds, and whether it can be written).
\<close>

subsection \<open>Paths and arguments\<close>

definition is_separator :: "char \<Rightarrow> bool" where
  "is_separator c \<longleftrightarrow> c = CHR 0x5C \<or> c = CHR ''/''"

definition dir :: "string \<Rightarrow> string" where
  "dir path =
     (if \<not> list_ex is_separator path then ''.''
      else rev (tl (dropWhile (\<lambda>c. \<not> is_separator c) (rev path))))"

definition sibling :: "string \<Rightarrow> string \<Rightarrow> string" where
  "sibling path name = dir path @ [CHR 0x5C] @ name"

definition show_int :: "int \<Rightarrow> string" where
  "show_int i = (if i < 0 then ''-'' @ show_nat (nat (- i)) else show_nat (nat i))"

definition usage :: string where
  "usage =
     ''usage: ff_cli <command> [args]'' @ newline @
     ''  list                         list operations and failures'' @ newline @
     ''  inspect <op_hex>             show operation state + authority'' @ newline @
     ''  failure <fail_hex>           show a failure record'' @ newline @
     ''  operation <op_hex>           show operation runtime'' @ newline @
     ''  attempt <op_hex>             show attempt authority'' @ newline @
     ''  classify <class>             classify a failure (dimensions)'' @ newline @
     ''  retry <class>                classify retry decision'' @ newline @
     ''  rollback                     run a typed rollback plan'' @ newline @
     ''  compensate                   run a compensation'' @ newline @
     ''  recover <class>              generate a recovery plan'' @ newline @
     ''  plan <class>                 generate a RecoveryPlan (with rejected alts)'' @ newline @
     ''  owner                        show recovery ownership + transfer'' @ newline @
     ''  explain <fail_hex>           deterministic explanation'' @ newline @
     ''  snapshot                     store snapshot summary'' @ newline @
     ''  save <file>                  persist store'' @ newline @
     ''  reload <file>                load store'' @ newline @
     ''  replay <file>                deterministic replay -> terminal outcomes'' @ newline @
     ''  serve <port>                 run the coordinator server'' @ newline @
     ''  worker <port> <mode>         run a worker (normal|slow|fail)'' @ newline @
     ''  multiprocess                 run the real multiprocess failure proof'' @ newline @
     ''  cuda                         run the CUDA failure/recovery proof'' @ newline @
     ''  benchmark <n>                run the benchmark suite'' @ newline @
     ''  help                         this message'' @ newline"

definition demo_auth :: "u64 \<Rightarrow> AuthorityEnvelope" where
  "demo_auth gen = empty_envelope\<lparr>ae_coordinator_epoch := Generation 1,
     ae_attempt := Id_from_hex ''a1b2c3d4'', ae_dispatch := Id_from_hex ''feedbeef'',
     ae_attempt_generation := Generation gen, ae_operation_generation := Generation gen,
     ae_worker_boot := Id_from_hex ''1234abcd''\<rparr>"

record CliResult =
  cli_code :: int
  cli_out :: string
  cli_file :: "(string \<times> byte list) option"

definition prints :: "int \<Rightarrow> string \<Rightarrow> CliResult" where
  "prints code out = \<lparr>cli_code = code, cli_out = out, cli_file = None\<rparr>"

subsection \<open>Commands\<close>

definition cmd_list :: "FailureStore \<Rightarrow> CliResult" where
  "cmd_list st = prints 0
     (concat (map (\<lambda>op. ''  op '' @ Id_to_display op @ '' state='' @
        OperationState_to_string (reg_state op (fs_ops st)) @ newline) (reg_operations (fs_ops st))) @
      concat (map (\<lambda>f. ''  fail '' @ Id_to_display (fr_failure_id f) @ '' class='' @
        FailureClass_to_string (fr_failure_class f) @ '' op='' @ Id_to_display (fr_operation f) @ newline)
        (failures st)) @
      ''  '' @ show_nat (reg_size (fs_ops st)) @ '' operations, '' @ show_nat (failure_count st) @
      '' failures'' @ newline)"

definition demo_builder :: "FailureClass \<Rightarrow> OperationId \<Rightarrow> AttemptId \<Rightarrow> FailureRecordBuilder" where
  "demo_builder fc op att =
     b_authority (demo_auth 1)
       (b_side_effect_state (if fc = FailureClass.AMBIGUOUS then SideEffectState.MAY_OCCURRED
          else SideEffectState.NONE_POSSIBLE)
         (b_completion (if fc = FailureClass.AMBIGUOUS then Ambiguity.AMBIGUOUS else Ambiguity.KNOWN)
           (b_phase FailurePhase.EXECUTE (b_origin FailureOrigin.WORKER
             (b_attempt att (b_operation op (b_failure_class fc new_builder)))))))"

definition cmd_decide ::
  "('g \<Rightarrow> u64 \<times> 'g) \<Rightarrow> (nat \<Rightarrow> 'g) \<Rightarrow> 'g \<Rightarrow> string \<Rightarrow> string list \<Rightarrow> CliResult" where
  "cmd_decide draw seed g cmd args =
     (let cls = (case args of [] \<Rightarrow> ''TRANSIENT'' | a # _ \<Rightarrow> a) in
      case FailureClass_from_string cls of
        None \<Rightarrow> prints 2 (''unknown class: '' @ cls @ newline)
      | Some fc \<Rightarrow>
          let (op, rng) = Id_generate draw (seed 1);
              (att, rng) = Id_generate draw rng;
              (rec, rng) = build draw (demo_builder fc op att) rng;
              out = explain_failure rec @ newline
          in if cmd = ''classify''
             then prints 0 (out @ ''  derived: retryability='' @ Retryability_to_string (fr_retryability rec) @
               '' rollback='' @ RollbackRequirement_to_string (fr_rollback rec) @
               '' compensation='' @ CompensationRequirement_to_string (fr_compensation rec) @
               '' terminality='' @ Terminality_to_string (fr_terminality rec) @ newline)
             else let d = classify rec (default_retry_input\<lparr>ri_idempotent_retry_possible := True,
                        ri_attempt_count := 1, ri_worker_healthy := True\<rparr>) default_policy;
                      (pl, g) = plan draw rec (default_plan_input\<lparr>pi_idempotent_retry_possible := True,
                        pi_rollback_possible := True\<rparr>) g
                  in prints 0 (out @ explain_decision rec d pl @ newline @
                       ''  JSON: '' @ explain_decision_json rec d pl @ newline))"

lemma run_next_progress:
  "\<not> rx_is_complete ex \<Longrightarrow> run_next True ex = (ok, ex') \<Longrightarrow>
    length (rb_steps (rx_plan ex')) - rx_completed ex' < length (rb_steps (rx_plan ex)) - rx_completed ex"
  by (auto simp: run_next_def rx_is_complete_def Let_def)

function rollback_loop :: "RollbackExecutor \<Rightarrow> string \<times> RollbackExecutor" where
  "rollback_loop ex =
     (if rx_is_complete ex then ([], ex)
      else case run_next True ex of (ok, ex') \<Rightarrow>
        let line = ''  rollback step '' @ show_nat (rx_completed ex') @ ''/'' @
              show_nat (length (rb_steps (rx_plan ex'))) @ '' '' @ (if ok then ''ok'' else ''blocked'') @ newline
        in if \<not> ok
           then (line @ ''  rollback failed: '' @ rx_failure_reason ex' @ '' (record RecoveryFailure)'' @ newline, ex')
           else let (out, ex'') = rollback_loop ex' in (line @ out, ex''))"
  by auto

termination rollback_loop
  by (relation "measure (\<lambda>ex. length (rb_steps (rx_plan ex)) - rx_completed ex)")
    (simp_all add: run_next_progress [OF _ sym])

declare rollback_loop.simps [simp del]

definition demo_rollback :: RollbackPlan where
  "demo_rollback = \<lparr>rb_operation = Id_from_hex ''cafe0001'', rb_generation = Generation 1,
     rb_owner = RecoveryOwner.COORDINATOR, rb_authority = empty_envelope,
     rb_steps = [default_step\<lparr>rs_action := RollbackAction.RELEASE_RESERVATION, rs_target := ''res-1''\<rparr>,
       default_step\<lparr>rs_action := RollbackAction.FREE_ALLOCATION, rs_target := ''alloc-1''\<rparr>]\<rparr>"

definition cmd_rollback :: CliResult where
  "cmd_rollback =
     (let (out, ex) = rollback_loop (new_executor demo_rollback)
      in prints (if rx_is_complete ex then 0 else 1)
           (out @ ''  rollback '' @ (if rx_is_complete ex then ''complete (monotonic)'' else ''interrupted'') @ newline))"

definition cmd_compensate :: "('g \<Rightarrow> u64 \<times> 'g) \<Rightarrow> 'g \<Rightarrow> CliResult" where
  "cmd_compensate draw g =
     (let (cid, g) = Id_generate draw g;
          rec = default_compensation\<lparr>cr_compensation_id := cid,
            cr_target_operation := Id_from_hex ''cafe0002'',
            cr_reason := ''external side effect escaped; logical adjustment required''\<rparr>;
          comp = comp_run True rec
      in prints (if comp_is_complete comp then 0 else 1)
           (''  compensation '' @ (if comp_is_complete comp then ''complete'' else ''failed'') @
            '' side_effect='' @ SideEffectState_to_string (cr_side_effects comp) @
            '' attempts='' @ show_word (cr_attempts comp) @ newline))"

definition show_flag :: "bool \<Rightarrow> string" where
  "show_flag b = (if b then ''1'' else ''0'')"

text \<open>The owner and the low 32 bits of the generation.\<close>

definition show_owner :: "RecoveryOwnership \<Rightarrow> string" where
  "show_owner ow = ''owner='' @ RecoveryOwner_to_string (ro_owner ow) @ '' gen='' @
     show_word (ucast (gen_value (ro_generation ow)) :: u32)"

definition cmd_owner :: "('g \<Rightarrow> u64 \<times> 'g) \<Rightarrow> 'g \<Rightarrow> CliResult" where
  "cmd_owner draw g =
     (let a = demo_auth 1;
          (boot, g) = Id_generate draw g;
          (adopted, own1) = adopt RecoveryOwner.COORDINATOR (Generation 1) boot a new_ownership;
          (boot, g) = Id_generate draw g;
          (transferred, own2) = transfer RecoveryOwner.REPLACEMENT_WORKER (Generation 2) boot a own1;
          (boot, g) = Id_generate draw g;
          (stale, own3) = transfer RecoveryOwner.OPERATOR (Generation 1) boot a own2
      in prints (if adopted \<and> transferred \<and> \<not> stale then 0 else 1)
           (''  adopt='' @ show_flag adopted @ '' '' @ show_owner own1 @ newline @
            ''  transfer->replacement worker (gen2) ='' @ show_flag transferred @ '' '' @ show_owner own2 @ newline @
            ''  stale transfer (gen1 <= gen2) rejected='' @ show_flag (\<not> stale) @ newline))"

definition cmd_snapshot :: "FailureStore \<Rightarrow> CliResult" where
  "cmd_snapshot st = prints 0
     (''  store: '' @ show_nat (failure_count st) @ '' failures, '' @ show_nat (reg_size (fs_ops st)) @
      '' ops, ownership '' @ show_owner (fs_ownership st) @ newline)"

text \<open>The store that \<open>save\<close> fills and writes.\<close>

definition demo_store :: "('g \<Rightarrow> u64 \<times> 'g) \<Rightarrow> (nat \<Rightarrow> 'g) \<Rightarrow> FailureStore \<Rightarrow> FailureStore" where
  "demo_store draw seed st =
     (let op = Id_from_hex ''00dd00ee''; a = demo_auth 1;
          ops = snd (reg_create op a (fs_ops st)); ops = snd (reg_dispatch op a ops);
          ops = snd (reg_run op a ops); ops = snd (reg_report_completion op a False ops);
          ops = snd (reg_confirm_completion op a ops);
          b = b_authority a (b_attempt (ae_attempt a) (b_operation op
            (b_failure_class FailureClass.PARTIAL_SUCCESS new_builder)))
      in snd (append_failure (fst (build draw b (seed 3))) (st\<lparr>fs_ops := ops\<rparr>)))"

definition cmd_save ::
  "('g \<Rightarrow> u64 \<times> 'g) \<Rightarrow> (nat \<Rightarrow> 'g) \<Rightarrow> (string \<Rightarrow> bool) \<Rightarrow> string \<Rightarrow> FailureStore \<Rightarrow> CliResult" where
  "cmd_save draw seed writable path st =
     (let ok = writable path
      in \<lparr>cli_code = (if ok then 0 else 1),
          cli_out = ''  save '' @ path @ '' -> '' @ (if ok then ''ok'' else ''failed'') @ newline,
          cli_file = (if ok then Some (path, save (demo_store draw seed st)) else None)\<rparr>)"

definition replay_line :: "FailureStore \<Rightarrow> OperationId \<Rightarrow> string" where
  "replay_line st op = ''  op '' @ Id_to_display op @ '' terminal='' @
     (case reg_find op (fs_ops st) of None \<Rightarrow> ''no''
      | Some rt \<Rightarrow> if rt_terminal_recorded rt then ''yes'' else ''no'') @
     '' state='' @ OperationState_to_string (reg_state op (fs_ops st)) @ newline"

definition cmd_load :: "(string \<Rightarrow> byte list option) \<Rightarrow> string \<Rightarrow> string \<Rightarrow> FailureStore \<Rightarrow> CliResult" where
  "cmd_load files cmd path st =
     (let (ok, st) = load (files path) st;
          out = ''  load '' @ path @ '' -> '' @ (if ok then ''ok'' else ''corrupt/unsupported'') @ newline
      in if \<not> ok then prints 1 out
         else if cmd = ''replay''
         then prints 0 (out @ concat (map (replay_line st) (reg_operations (fs_ops st))))
         else prints 0 out)"

definition cmd_inspect ::
  "('g \<Rightarrow> u64 \<times> 'g) \<Rightarrow> (nat \<Rightarrow> 'g) \<Rightarrow> string list \<Rightarrow> FailureStore \<Rightarrow> CliResult" where
  "cmd_inspect draw seed args st =
     (case args of [] \<Rightarrow> prints 2 (''need an id (hex)'' @ newline)
      | idhex # _ \<Rightarrow>
          case find (\<lambda>f. take (length idhex) (Id_to_hex (fr_failure_id f)) = idhex) (failures st) of
            Some f \<Rightarrow> prints 0 (explain_failure f @ newline)
          | None \<Rightarrow>
              let (op, rng) = Id_generate draw (seed 4);
                  (att, rng) = Id_generate draw rng;
                  rec = fst (build draw (b_authority (demo_auth 1) (b_attempt att (b_operation op
                    (b_failure_class FailureClass.TRANSIENT new_builder)))) rng)
              in prints 0 (''  (no persisted failures; showing a demo explaining a TRANSIENT failure)'' @ newline @
                   explain_failure rec @ newline))"

subsection \<open>The tool\<close>

definition quoted :: "string \<Rightarrow> string" where
  "quoted s = dquote @ s @ dquote"

definition port_arg :: "string list \<Rightarrow> u16" where
  "port_arg args = (case args of [] \<Rightarrow> 57321 | a # _ \<Rightarrow> word_of_int (atoi a))"

text \<open>\<open>main\<close>, with the arguments after the name of the program.\<close>

definition cli_main ::
  "('g \<Rightarrow> u64 \<times> 'g) \<Rightarrow> (nat \<Rightarrow> 'g) \<Rightarrow> 'g \<Rightarrow> (string \<Rightarrow> int) \<Rightarrow> string \<Rightarrow> (string \<Rightarrow> byte list option) \<Rightarrow>
    (string \<Rightarrow> bool) \<Rightarrow> string list \<Rightarrow> CliResult" where
  "cli_main draw seed g shell exe files writable argv =
     (case argv of [] \<Rightarrow> prints 0 usage
      | cmd # args \<Rightarrow>
         if cmd = ''help'' then prints 0 usage
         else if cmd = ''list'' then cmd_list new_store
         else if cmd = ''classify'' \<or> cmd = ''retry'' \<or> cmd = ''recover'' \<or> cmd = ''plan''
         then cmd_decide draw seed g cmd args
         else if cmd = ''rollback'' then cmd_rollback
         else if cmd = ''compensate'' then cmd_compensate draw g
         else if cmd = ''owner'' then cmd_owner draw g
         else if cmd = ''snapshot'' then cmd_snapshot new_store
         else if cmd = ''save'' \<or> cmd = ''reload'' \<or> cmd = ''replay''
         then let path = (case args of [] \<Rightarrow> ''ff_state.bin'' | a # _ \<Rightarrow> a)
              in if cmd = ''save'' then cmd_save draw seed writable path new_store
                 else cmd_load files cmd path new_store
         else if cmd = ''serve''
         then prints (shell (quoted (sibling exe ''ff_coordinator.exe'') @ '' --port '' @
                show_word (port_arg args) @ '' --state ff_coord_state.bin'')) []
         else if cmd = ''worker''
         then prints (shell (quoted (sibling exe ''ff_worker.exe'') @ '' 127.0.0.1 '' @
                show_word (port_arg args) @ '' . '' @ (case args of _ # mode # _ \<Rightarrow> mode | _ \<Rightarrow> ''normal''))) []
         else if cmd = ''multiprocess'' then prints (shell (quoted (sibling exe ''test_multiprocess.exe''))) []
         else if cmd = ''cuda'' then prints (shell (quoted (sibling exe ''ff_cuda_proof.exe''))) []
         else if cmd = ''benchmark''
         then prints (shell (quoted (sibling exe ''ff_benchmark.exe'') @ '' '' @
                show_int (case args of [] \<Rightarrow> 100000 | a # _ \<Rightarrow> atoi a))) []
         else if cmd = ''inspect'' \<or> cmd = ''operation'' \<or> cmd = ''attempt'' \<or> cmd = ''failure'' \<or> cmd = ''explain''
         then cmd_inspect draw seed args new_store
         else prints 0 usage)"

subsection \<open>Rollback to the end\<close>

lemma rollback_loop_state:
  assumes "rx_completed ex \<le> length (rb_steps (rx_plan ex))"
  shows "rx_completed (snd (rollback_loop ex)) = length (rb_steps (rx_plan ex)) \<and>
    rx_plan (snd (rollback_loop ex)) = (rx_plan ex)\<lparr>rb_steps :=
      mark_executed (rx_completed ex) (length (rb_steps (rx_plan ex))) (rb_steps (rx_plan ex))\<rparr>"
proof -
  define n where "n = length (rb_steps (rx_plan ex)) - rx_completed ex"
  have "rx_completed ex \<le> length (rb_steps (rx_plan ex)) \<Longrightarrow> n = length (rb_steps (rx_plan ex)) - rx_completed ex \<Longrightarrow>
    snd (rollback_loop ex) = run_all (replicate n True) ex" for n
  proof (induction n arbitrary: ex)
    case 0
    then show ?case by (simp add: rollback_loop.simps rx_is_complete_def run_all_def)
  next
    case (Suc n)
    let ?ex = "snd (run_next True ex)"
    have nc: "\<not> rx_is_complete ex" using Suc.prems by (simp add: rx_is_complete_def)
    then have r: "fst (run_next True ex)" by (simp add: run_next_def Let_def)
    have "rx_completed ?ex = Suc (rx_completed ex)"
      "length (rb_steps (rx_plan ?ex)) = length (rb_steps (rx_plan ex))"
      using nc by (simp_all add: run_next_def Let_def)
    then have "snd (rollback_loop ?ex) = run_all (replicate n True) ?ex" using Suc by (intro Suc.IH) simp_all
    moreover have "snd (rollback_loop ex) = snd (rollback_loop ?ex)"
      using nc r by (subst rollback_loop.simps) (simp add: case_prod_beta Let_def)
    ultimately show ?case by (simp add: run_all_def)
  qed
  then have "snd (rollback_loop ex) = run_all (replicate n True) ex" using assms n_def by blast
  moreover have "authorised (replicate n True) = n" by (simp add: authorised_def)
  ultimately show ?thesis using run_all_state [OF assms, of "replicate n True"] assms n_def by simp
qed

subsection \<open>The saved demonstration store\<close>

lemma demo_auth_set: "demo_auth gen \<noteq> empty_envelope"
  by (simp add: demo_auth_def empty_envelope_def gen_zero_def)

lemma demo_auth_valid: "gen \<noteq> 0 \<Longrightarrow> validate_authority (demo_auth gen)"
  by (simp add: validate_authority_def demo_auth_def gen_is_unset_def)

definition completed_runtime :: "AuthorityEnvelope \<Rightarrow> OperationRuntime" where
  "completed_runtime a = default_runtime\<lparr>rt_authority := a,
     rt_machine := OperationStateMachine OperationState.COMPLETION_CONFIRMED, rt_attempt_count := 1,
     rt_terminal_recorded := True, rt_terminal := a, rt_terminal_outcome := ''COMPLETED''\<rparr>"

lemma whole_life:
  assumes "a \<noteq> empty_envelope"
  shows "snd (reg_confirm_completion op a (snd (reg_report_completion op a False (snd (reg_run op a
    (snd (reg_dispatch op a (snd (reg_create op a [])))))))) ) = [(op, completed_runtime a)]"
proof -
  have "fence_accepted (fence_failure a a)" "fence_accepted (fence_completion a a empty_envelope)"
    using assms by (simp_all add: failure_fence.accepts_current completion_fence.accepts_current)
  then show ?thesis
    by (simp add: reg_create_def reg_dispatch_def reg_run_def reg_report_completion_def
        reg_confirm_completion_def on_op_def rt_dispatch_def rt_run_def rt_report_completion_def
        rt_confirm_completion_def default_runtime_def completed_runtime_def is_terminal_def
        sm_transition_pair is_allowed_iff named_def um_emplace_def)
qed

abbreviation demo_op :: OperationId where
  "demo_op \<equiv> Id_from_hex ''00dd00ee''"

lemma demo_store_ops: "fs_ops (demo_store draw seed new_store) = [(demo_op, completed_runtime (demo_auth 1))]"
  by (simp add: demo_store_def Let_def append_failure_def whole_life [OF demo_auth_set] new_store_def)

text \<open>A store with one completed operation and one failure of its attempt can be saved.\<close>

lemma completed_store_snapshottable:
  assumes "validate_authority a"
  shows "snapshottable (snd (append_failure (fst (build draw (b_authority a (b_attempt (ae_attempt a)
      (b_operation op (b_failure_class FailureClass.PARTIAL_SUCCESS new_builder)))) g))
    (new_store\<lparr>fs_ops := [(op, completed_runtime a)]\<rparr>)))"
proof -
  define rec where "rec = fst (build draw (b_authority a (b_attempt (ae_attempt a)
      (b_operation op (b_failure_class FailureClass.PARTIAL_SUCCESS new_builder)))) g)"
  have "persistable rec"
    using assms by (simp add: persistable_def rec_def ff_defs new_builder_def default_record_def)
  moreover have "op_persistable (completed_runtime a)"
    using assms by (simp add: op_persistable_def completed_runtime_def castable_def)
  ultimately show ?thesis unfolding rec_def [symmetric]
    by (auto simp: append_failure_def snapshottable_def store_inv_def new_store_def um_wf_def
        idem_collect_def um_emplace_def)
qed

lemma demo_store_snapshottable: "snapshottable (demo_store draw seed new_store)"
  using completed_store_snapshottable [OF demo_auth_valid [of 1], of draw demo_op "seed 3"]
  by (simp add: demo_store_def Let_def whole_life [OF demo_auth_set] new_store_def)

subsection \<open>Properties\<close>

text \<open>
  C39: what the tool saves it can read back. After \<open>save\<close> has written a file, \<open>reload\<close> and \<open>replay\<close> of
  that file exit with 0, whatever numbers the random engine drew, and the replay prints one
  operation, completed and terminal.
\<close>

theorem cli_save_then_replay:
  assumes "writable path"
    and "cli_file (cli_main draw seed g shell exe files writable [''save'', path]) = Some (path, data)"
    and "files' path = Some data"
  shows "cli_code (cli_main draw seed g shell exe files writable [''save'', path]) = 0 \<and>
    cli_code (cli_main draw seed g' shell exe files' writable [''reload'', path]) = 0 \<and>
    cli_main draw seed g' shell exe files' writable [''replay'', path] =
      prints 0 (''  load '' @ path @ '' -> ok'' @ newline @ ''  op '' @ Id_to_display demo_op @
        '' terminal=yes state=COMPLETION_CONFIRMED'' @ newline)"
proof -
  have b: "data = save (demo_store draw seed new_store)"
    using assms(1,2) by (simp add: cli_main_def cmd_save_def Let_def)
  note l = load_saved [OF demo_store_snapshottable [of draw seed], of new_store]
  have "fst (load (files' path) new_store)"
    and "fs_ops (snd (load (files' path) new_store)) = [(demo_op, completed_runtime (demo_auth 1))]"
    by (simp_all add: assms(3) b l demo_store_ops)
  then show ?thesis using assms(1)
    by (simp add: cli_main_def cmd_save_def cmd_load_def Let_def case_prod_beta prints_def reg_operations_def
        replay_line_def reg_find_def reg_state_def completed_runtime_def)
qed

theorem cli_save_then_replay_witness:
  "cli_main (\<lambda>g. (5, g)) (\<lambda>_. ()) () (\<lambda>_. 0) [] (\<lambda>_. Some (save (demo_store (\<lambda>g. (5, g)) (\<lambda>_. ()) new_store)))
     (\<lambda>_. True) [''replay'', ''f''] =
   prints 0 (''  load f -> ok'' @ newline @ ''  op '' @ Id_to_display demo_op @
     '' terminal=yes state=COMPLETION_CONFIRMED'' @ newline)"
proof -
  let ?b = "save (demo_store (\<lambda>g. (5, g)) (\<lambda>_. ()) new_store)"
  have "cli_file (cli_main (\<lambda>g. (5, g)) (\<lambda>_. ()) () (\<lambda>_. 0) [] (\<lambda>_. None) (\<lambda>_. True) [''save'', ''f'']) = Some (''f'', ?b)"
    by (simp add: cli_main_def cmd_save_def Let_def)
  from cli_save_then_replay [OF _ this, of "\<lambda>_. Some ?b" "()"] show ?thesis by simp
qed

text \<open>
  The rollback loop ends with the whole plan executed. For every plan, the loop that runs one step
  after the other under a current authority stops, and then every step is marked executed and the
  position is the number of steps.
\<close>

lemma rollback_loop_completes:
  "rx_is_complete (snd (rollback_loop (new_executor p))) \<and>
   rx_completed (snd (rollback_loop (new_executor p))) = length (rb_steps p) \<and>
   rb_steps (rx_plan (snd (rollback_loop (new_executor p)))) =
     map (\<lambda>st. st\<lparr>rs_executed := True\<rparr>) (rb_steps p)"
proof -
  have "mark_executed 0 (length xs) xs = map (\<lambda>st. st\<lparr>rs_executed := True\<rparr>) xs" for xs
    by (rule nth_equalityI) (simp_all add: mark_executed_def)
  then show ?thesis using rollback_loop_state [of "new_executor p"]
    by (simp add: new_executor_def rx_is_complete_def)
qed

text \<open>
  Exit codes of the tool. The demonstrations exit with 0 whatever the random engines draw; a
  decision command exits with 2 exactly when its argument is not the name of a failure class, and
  otherwise with 0; a load exits with 1 exactly when the file is not accepted; the commands that look
  up an identity exit with 2 exactly when none is given.
\<close>

lemma cli_exit_codes:
  "let code = cli_code (cli_main draw seed g shell exe files writable (cmd # args)) in
   (if cmd \<in> {''help'', ''list'', ''rollback'', ''compensate'', ''owner'', ''snapshot''} then code = 0
    else if cmd \<in> {''classify'', ''retry'', ''recover'', ''plan''}
    then code = (if FailureClass_from_string (if args = [] then ''TRANSIENT'' else hd args) = None then 2 else 0)
    else if cmd \<in> {''reload'', ''replay''}
    then code = (if fst (load (files (if args = [] then ''ff_state.bin'' else hd args)) new_store) then 0 else 1)
    else if cmd \<in> {''inspect'', ''operation'', ''attempt'', ''failure'', ''explain''}
    then code = (if args = [] then 2 else 0)
    else True)"
proof -
  have rb: "cli_code cmd_rollback = 0"
    using rollback_loop_state [of "new_executor demo_rollback"]
    by (simp add: cmd_rollback_def prints_def case_prod_beta rx_is_complete_def new_executor_def demo_rollback_def)
  have co: "cli_code (cmd_compensate draw g) = 0"
    by (simp add: cmd_compensate_def prints_def case_prod_beta Let_def comp_run_def comp_is_complete_def
        default_compensation_def)
  have ow: "cli_code (cmd_owner draw g) = 0"
    by (simp add: cmd_owner_def prints_def case_prod_beta Let_def adopt_def transfer_def new_ownership_def
        gen_is_unset_def gen_order_defs)
  show ?thesis
    using rb co ow
    by (cases args) (auto simp: cli_main_def cmd_list_def cmd_snapshot_def cmd_decide_def cmd_load_def
        cmd_inspect_def prints_def Let_def case_prod_beta split: option.split)
qed

end
