(* ===== verification/FF_Examples.thy ===== *)
theory FF_Examples
  imports FF_Cli
begin

text \<open>
  The example programs (\<open>examples/\<close>), as the exit codes of their \<open>main\<close>. They use the library as its
  clients do; that they exit with 0 for all random numbers,
  on a disk that gives back what was written, joins what the components promise. \<open>seed n\<close>
  is the engine seeded with \<open>n\<close>, \<open>g\<close> the engine of \<open>generate()\<close>; \<open>disk\<close> is what reading a file gives
  after bytes were written to it, \<open>None\<close> if it could not be written.
\<close>

subsection \<open>The programs\<close>

definition example_auth :: "('g \<Rightarrow> u64 \<times> 'g) \<Rightarrow> 'g \<Rightarrow> AuthorityEnvelope \<times> 'g" where
  "example_auth draw rng =
     (let (att, rng) = Id_generate draw rng; (boot, rng) = Id_generate draw rng
      in (empty_envelope\<lparr>ae_coordinator_epoch := Generation 1, ae_attempt := att,
            ae_attempt_generation := Generation 1, ae_worker_boot := boot\<rparr>, rng))"

definition example_ambiguous :: "('g \<Rightarrow> u64 \<times> 'g) \<Rightarrow> (nat \<Rightarrow> 'g) \<Rightarrow> int" where
  "example_ambiguous draw seed =
     (let (op, rng) = Id_generate draw (seed 2);
          (key, rng) = key_generate draw rng;
          (a, rng) = example_auth draw rng;
          (v0, idem) = idem_begin op key 0xA a [];
          (v1, idem) = idem_begin op key 0xA a idem;
          idem = idem_complete op key ''result=42'' idem;
          (vconf, idem) = idem_begin op key 0xBAD a idem
      in if v1 = IdempotencyVerdict.IN_PROGRESS_REPLAY \<and> vconf = IdempotencyVerdict.CONFLICT then 0 else 1)"

definition example_ownership :: "('g \<Rightarrow> u64 \<times> 'g) \<Rightarrow> (nat \<Rightarrow> 'g) \<Rightarrow> 'g \<Rightarrow> int" where
  "example_ownership draw seed g =
     (let (a, rng) = example_auth draw (seed 3);
          own = snd (adopt RecoveryOwner.COORDINATOR (Generation 1) (ae_worker_boot a) a new_ownership);
          (boot, g) = Id_generate draw g;
          (t, own) = transfer RecoveryOwner.REPLACEMENT_WORKER (Generation 2) boot a own;
          (boot, g) = Id_generate draw g;
          (regress, own) = transfer RecoveryOwner.OPERATOR (Generation 1) boot a own;
          oldBoot = a;
          (boot, g) = Id_generate draw g;
          newBoot = next_boot oldBoot boot;
          fr = fence_completion oldBoot newBoot empty_envelope
      in if t \<and> \<not> regress \<and> \<not> fence_accepted fr then 0 else 1)"

definition example_persist_replay ::
  "('g \<Rightarrow> u64 \<times> 'g) \<Rightarrow> (nat \<Rightarrow> 'g) \<Rightarrow> (byte list \<Rightarrow> byte list option) \<Rightarrow> int" where
  "example_persist_replay draw seed disk =
     (let (op, rng) = Id_generate draw (seed 4);
          (a, rng) = example_auth draw rng;
          ops = snd (reg_create op a (fs_ops new_store)); ops = snd (reg_dispatch op a ops);
          ops = snd (reg_run op a ops); ops = snd (reg_report_completion op a False ops);
          ops = snd (reg_confirm_completion op a ops);
          b = b_authority a (b_attempt (ae_attempt a) (b_operation op
            (b_failure_class FailureClass.PARTIAL_SUCCESS new_builder)));
          store = snd (append_failure (fst (build draw b rng)) (new_store\<lparr>fs_ops := ops\<rparr>));
          contents = disk (save store)
      in if contents = None then 1
         else let (ok, loaded) = load contents new_store
              in if \<not> ok then 1
                 else if reg_state op (fs_ops loaded) = OperationState.COMPLETION_CONFIRMED then 0 else 1)"

definition example_retry :: "('g \<Rightarrow> u64 \<times> 'g) \<Rightarrow> (nat \<Rightarrow> 'g) \<Rightarrow> 'g \<Rightarrow> int" where
  "example_retry draw seed g =
     (let (op, rng) = Id_generate draw (seed 1);
          (att, rng) = Id_generate draw rng;
          (a, g) = example_auth draw g;
          (rec, rng) = build draw (b_authority a (b_attempt att (b_operation op
            (b_failure_class FailureClass.TRANSIENT new_builder)))) rng;
          d = classify rec (default_retry_input\<lparr>ri_idempotent_retry_possible := True,
            ri_attempt_count := 1, ri_worker_healthy := True\<rparr>) default_policy
      in if rd_verdict d = RetryVerdict.RETRY then 0 else 1)"

text \<open>The loop of the rollback example, which stops at the first step that is blocked.\<close>

function rollback_until_blocked :: "RollbackExecutor \<Rightarrow> RollbackExecutor" where
  "rollback_until_blocked ex =
     (if rx_is_complete ex then ex
      else case run_next True ex of (ok, ex') \<Rightarrow> if \<not> ok then ex' else rollback_until_blocked ex')"
  by auto

termination rollback_until_blocked
  by (relation "measure (\<lambda>ex. length (rb_steps (rx_plan ex)) - rx_completed ex)")
    (simp_all add: run_next_progress [OF _ sym])

declare rollback_until_blocked.simps [simp del]

definition example_plan :: RollbackPlan where
  "example_plan = demo_rollback\<lparr>rb_steps := rb_steps demo_rollback @
     [default_step\<lparr>rs_action := RollbackAction.REVERT_METADATA, rs_target := ''meta-1''\<rparr>]\<rparr>"

definition example_rollback_compensate :: "('g \<Rightarrow> u64 \<times> 'g) \<Rightarrow> 'g \<Rightarrow> int" where
  "example_rollback_compensate draw g =
     (let ex = rollback_until_blocked (new_executor example_plan);
          (cid, g) = Id_generate draw g;
          cr = default_compensation\<lparr>cr_compensation_id := cid, cr_target_operation := Id_from_hex ''cafe0002'',
            cr_reason := ''external side effect escaped; accounting adjustment required''\<rparr>;
          comp = comp_run True cr
      in if rx_is_complete ex \<and> comp_is_complete comp then 0 else 1)"

text \<open>The consumer of the installed package (\<open>consumer/main.cpp\<close>).\<close>

definition consumer_main :: "('g \<Rightarrow> u64 \<times> 'g) \<Rightarrow> (nat \<Rightarrow> 'g) \<Rightarrow> int" where
  "consumer_main draw seed =
     (let (op, rng) = Id_generate draw (seed 1);
          (att, rng) = Id_generate draw rng;
          (a, rng) = example_auth draw rng;
          (rec, rng) = build draw (b_authority a (b_attempt att (b_operation op
            (b_failure_class FailureClass.VALIDATION_FAILURE new_builder)))) rng;
          d = classify rec (default_retry_input\<lparr>ri_idempotent_retry_possible := True\<rparr>) default_policy
      in if rd_verdict d = RetryVerdict.DO_NOT_RETRY then 0 else 1)"

subsection \<open>They succeed\<close>

lemma example_auth_facts:
  "ae_attempt_generation (fst (example_auth draw g)) = Generation 1" "fst (example_auth draw g) \<noteq> empty_envelope"
  "validate_authority (fst (example_auth draw g))"
  by (simp_all add: example_auth_def Let_def case_prod_beta empty_envelope_def gen_zero_def validate_authority_def
      gen_is_unset_def Id_generate_not_null)

lemma ambiguous_succeeds: "example_ambiguous draw seed = 0"
  by (simp add: example_ambiguous_def Let_def case_prod_beta idem_begin_def idem_complete_def um_emplace_def
      idem_at_def)

lemma ownership_succeeds: "example_ownership draw seed g = 0"
proof -
  have "\<not> fence_accepted (fence_completion (fst (example_auth draw (seed 3))) (next_boot (fst (example_auth draw (seed 3))) b) t)" for b t
    using next_boot_fences_previous [of "fst (example_auth draw (seed 3))"] by (simp add: example_auth_facts)
  then show ?thesis
    by (simp add: example_ownership_def Let_def case_prod_beta adopt_def transfer_def new_ownership_def gen_is_unset_def
        gen_order_defs)
qed

lemma persist_replay_succeeds:
  assumes "\<And>bs. disk bs = Some bs"
  shows "example_persist_replay draw seed disk = 0"
proof -
  obtain op :: OperationId and g1 where g1: "Id_generate draw (seed 4) = (op, g1)" by fastforce
  obtain a g2 where g2: "example_auth draw g1 = (a, g2)" by fastforce
  have a: "a \<noteq> empty_envelope" "validate_authority a" using example_auth_facts [of draw g1] by (simp_all add: g2)
  have ops: "fs_ops (snd (append_failure r st)) = fs_ops st" for r st by (simp add: append_failure_def)
  have empty: "fs_ops new_store = []" by (simp add: new_store_def)
  note l = load_saved [OF completed_store_snapshottable [OF a(2), of draw op g2], of new_store]
  show ?thesis
    by (simp add: example_persist_replay_def g1 g2 assms Let_def empty whole_life [OF a(1)] l ops)
      (simp add: completed_runtime_def reg_state_def)
qed

lemma retry_succeeds: "example_retry draw seed g = 0"
  by (simp add: example_retry_def Let_def case_prod_beta classify_verdict build_eq ff_defs new_builder_def
      default_record_def default_retry_input_def default_policy_def fenced_class_def
      completion_ambiguous_def retry_may_effect_def eff_retryability_def word_le_nat_alt)

lemma until_blocked_is_loop: "rollback_until_blocked ex = snd (rollback_loop ex)"
proof (induction ex rule: rollback_until_blocked.induct)
  case (1 ex)
  obtain ok ex' where r: "run_next True ex = (ok, ex')" by fastforce
  then show ?case using "1.IH"
    by (subst rollback_until_blocked.simps, subst rollback_loop.simps) (simp add: Let_def case_prod_beta)
qed

lemma rollback_compensate_succeeds: "example_rollback_compensate draw g = 0"
proof -
  have "rx_is_complete (rollback_until_blocked (new_executor p))" for p
    unfolding until_blocked_is_loop using rollback_loop_state [of "new_executor p"]
    by (simp add: rx_is_complete_def new_executor_def mark_executed_def)
  then show ?thesis
    by (simp add: example_rollback_compensate_def Let_def case_prod_beta comp_run_def comp_is_complete_def
        default_compensation_def)
qed

lemma consumer_succeeds: "consumer_main draw seed = 0"
  by (simp add: consumer_main_def Let_def case_prod_beta classify_verdict build_eq ff_defs new_builder_def
      default_record_def default_retry_input_def default_policy_def fenced_class_def word_le_nat_alt)

text \<open>
  The examples and the package consumer succeed. For all numbers the random engines draw, and on
  a disk that gives back what was written, each of the five example programs and the consumer exits
  with 0: the resubmission is recognised and the other payload refused, the stale transfer and the
  old boot are rejected, the reloaded operation is confirmed, the transient failure is retried and
  the invalid one is not, and rollback and compensation complete.
\<close>

lemma examples_succeed:
  assumes "\<And>bs. disk bs = Some bs"
  shows "example_ambiguous draw seed = 0 \<and> example_ownership draw seed g = 0 \<and>
    example_persist_replay draw seed disk = 0 \<and> example_retry draw seed g = 0 \<and>
    example_rollback_compensate draw g = 0 \<and> consumer_main draw seed = 0"
  by (simp add: ambiguous_succeeds ownership_succeeds persist_replay_succeeds [OF assms] retry_succeeds
      rollback_compensate_succeeds consumer_succeeds)

end
