(* ===== verification/FF_Cuda.thy ===== *)
theory FF_Cuda
  imports Complex_Main FF_Retry FF_Idempotency
begin

text \<open>
  The CUDA program (\<open>src/cuda_proof.cu\<close>): its kernel, thread by thread, and its host scenarios. The
  device is a parameter, a record of the runtime's calls, each of which may fail; what is relied on when
  none fails is the locale \<open>device\<close>.
  Sizes are numbers of floats. A float is the rational number it stands for; \<open>rnd\<close> is rounding to
  single precision, and the device may contract a product and a sum into one rounding (\<open>fused\<close>).
  Console output is left out.
\<close>

type_synonym addr = nat

type_synonym device_memory = "addr \<rightharpoonup> rat list"

subsection \<open>The kernel\<close>

text \<open>\<open>blockIdx.x * blockDim.x + threadIdx.x\<close>, computed in 32 bits and stored in an \<open>int\<close>.\<close>

definition thread_index :: "nat \<times> nat \<Rightarrow> int" where
  "thread_index bt = sint (word_of_nat (fst bt) * 256 + word_of_nat (snd bt) :: u32)"

definition axpy :: "(rat \<Rightarrow> rat) \<Rightarrow> bool \<Rightarrow> rat \<Rightarrow> rat \<Rightarrow> rat \<Rightarrow> rat" where
  "axpy rnd fused a x y = (if fused then rnd (a * x + y) else rnd (rnd (a * x) + y))"

text \<open>An access to memory that is not allocated, or past its end, is an error.\<close>

definition dev_load :: "device_memory \<Rightarrow> addr \<Rightarrow> int \<Rightarrow> rat option" where
  "dev_load mem p i =
     (case mem p of None \<Rightarrow> None
      | Some xs \<Rightarrow> if 0 \<le> i \<and> i < int (length xs) then Some (xs ! nat i) else None)"

definition dev_store :: "device_memory \<Rightarrow> addr \<Rightarrow> int \<Rightarrow> rat \<Rightarrow> device_memory option" where
  "dev_store mem p i v =
     (case mem p of None \<Rightarrow> None
      | Some xs \<Rightarrow> if 0 \<le> i \<and> i < int (length xs) then Some (mem(p \<mapsto> xs[nat i := v])) else None)"

definition saxpy_kernel ::
  "(rat \<Rightarrow> rat) \<Rightarrow> bool \<Rightarrow> addr \<Rightarrow> addr \<Rightarrow> addr \<Rightarrow> rat \<Rightarrow> nat \<Rightarrow> nat \<times> nat \<Rightarrow> device_memory \<Rightarrow> device_memory option" where
  "saxpy_kernel rnd fused x y out a n bt mem =
     (let i = thread_index bt
      in if i < int n
         then case dev_load mem x i of None \<Rightarrow> None
           | Some xi \<Rightarrow> (case dev_load mem y i of None \<Rightarrow> None
               | Some yi \<Rightarrow> dev_store mem out i (axpy rnd fused a xi yi))
         else Some mem)"

text \<open>Threads that run one after the other; \<open>None\<close> if one of them makes an invalid access.\<close>

fun run_threads ::
  "(nat \<times> nat \<Rightarrow> device_memory \<Rightarrow> device_memory option) \<Rightarrow> (nat \<times> nat) list \<Rightarrow> device_memory \<Rightarrow> device_memory option" where
  "run_threads krn [] mem = Some mem"
| "run_threads krn (bt # order) mem =
     (case krn bt mem of None \<Rightarrow> None | Some mem' \<Rightarrow> run_threads krn order mem')"

text \<open>The launch of \<open>(n + 255) / 256\<close> blocks of 256 threads.\<close>

definition grid :: "nat \<Rightarrow> (nat \<times> nat) set" where
  "grid n = {0..<(n + 255) div 256} \<times> {0..<256}"

lemma thread_index_exact:
  assumes "n \<le> 2 ^ 31 - 256" "bt \<in> grid n"
  shows "thread_index bt = int (fst bt * 256 + snd bt)"
proof -
  define k where "k = fst bt * 256 + snd bt"
  have "k < 2 ^ 31" using assms by (auto simp: grid_def k_def)
  then have "sint (word_of_nat k :: u32) = int k"
    by (simp add: signed_of_nat signed_take_bit_int_eq_self)
  moreover have "word_of_nat (fst bt) * 256 + word_of_nat (snd bt) = (word_of_nat k :: u32)" by (simp add: k_def)
  ultimately show ?thesis by (simp only: thread_index_def k_def)
qed

lemma grid_covers: "j < n \<Longrightarrow> n \<le> 2 ^ 31 - 256 \<Longrightarrow> int j \<in> thread_index ` grid n"
proof -
  assume j: "j < n" "n \<le> 2 ^ 31 - 256"
  then have g: "(j div 256, j mod 256) \<in> grid n" by (auto simp: grid_def)
  then have "thread_index (j div 256, j mod 256) = int j" using thread_index_exact [OF j(2) g] by simp
  then show ?thesis using g by (metis image_eqI)
qed

lemma kernel_run:
  assumes "n \<le> 2 ^ 31 - 256" "x \<noteq> out" "y \<noteq> out" "length xs = n" "length ys = n"
  shows "set order \<subseteq> grid n \<Longrightarrow> mem x = Some xs \<Longrightarrow> mem y = Some ys \<Longrightarrow> mem out = Some os \<Longrightarrow> length os = n \<Longrightarrow>
    run_threads (saxpy_kernel rnd fused x y out a n) order mem =
      Some (mem(out \<mapsto> map (\<lambda>j. if int j \<in> thread_index ` set order then axpy rnd fused a (xs ! j) (ys ! j) else os ! j) [0..<n]))"
proof (induction order arbitrary: mem os)
  case Nil
  then show ?case using map_nth [of os] by (auto simp: fun_upd_idem)
next
  case (Cons bt order)
  define k where "k = fst bt * 256 + snd bt"
  have i: "thread_index bt = int k" using thread_index_exact [OF assms(1)] Cons.prems(1) by (simp add: k_def)
  let ?os = "if k < n then os[k := axpy rnd fused a (xs ! k) (ys ! k)] else os"
  have s: "saxpy_kernel rnd fused x y out a n bt mem = Some (mem(out \<mapsto> ?os))"
    using Cons.prems i assms(4,5) by (auto simp: saxpy_kernel_def Let_def dev_load_def dev_store_def fun_upd_idem)
  have "run_threads (saxpy_kernel rnd fused x y out a n) order (mem(out \<mapsto> ?os)) = Some ((mem(out \<mapsto> ?os))(out \<mapsto>
      map (\<lambda>j. if int j \<in> thread_index ` set order then axpy rnd fused a (xs ! j) (ys ! j) else ?os ! j) [0..<n]))"
    by (rule Cons.IH) (use Cons.prems assms(2,3) in auto)
  then show ?case using Cons.prems(5) i
    by (auto simp: s nth_list_update intro!: map_cong arg_cong [where f = "\<lambda>v. mem(out \<mapsto> v)"])
qed

lemma saxpy_kernel_order:
  assumes "n \<le> 2 ^ 31 - 256" "x \<noteq> out" "y \<noteq> out" "set order = grid n"
    and "mem x = Some xs" "mem y = Some ys" "mem out = Some os" "length xs = n" "length ys = n" "length os = n"
  shows "run_threads (saxpy_kernel rnd fused x y out a n) order mem =
    Some (mem(out \<mapsto> map (\<lambda>j. axpy rnd fused a (xs ! j) (ys ! j)) [0..<n]))"
proof -
  have "map (\<lambda>j. if int j \<in> thread_index ` set order then axpy rnd fused a (xs ! j) (ys ! j) else os ! j) [0..<n] =
      map (\<lambda>j. axpy rnd fused a (xs ! j) (ys ! j)) [0..<n]"
    using grid_covers [OF _ assms(1)] by (auto simp: assms(4))
  then show ?thesis by (simp only: kernel_run [OF assms(1-3,8,9) equalityD1 [OF assms(4)] assms(5-7,10)])
qed

text \<open>
  C38: the kernel computes every element, whatever the order of its threads, and stays in bounds. For
  arrays of \<open>n\<close> elements, \<open>n\<close> leaving the 32-bit index in range, if the launched threads (up to 255
  more than elements) run one after the other in any order, no thread reads or writes outside of its
  array, every element of the output is \<open>a * x + y\<close> of the inputs, and no other memory changes.
\<close>

theorem saxpy_any_order:
  assumes "n \<le> 2 ^ 31 - 256" "x \<noteq> out" "y \<noteq> out" "set order = grid n"
    and "mem x = Some xs" "mem y = Some ys" "mem out = Some os" "length xs = n" "length ys = n" "length os = n"
  shows "run_threads (saxpy_kernel rnd fused x y out a n) order mem =
    Some (mem(out \<mapsto> map (\<lambda>j. axpy rnd fused a (xs ! j) (ys ! j)) [0..<n]))"
  by (rule saxpy_kernel_order [OF assms])

theorem saxpy_any_order_witness:
  "run_threads (saxpy_kernel id True 1 2 3 5 2) (rev (List.product [0..<1] [0..<256])) [1 \<mapsto> [10, 20], 2 \<mapsto> [1, 2], 3 \<mapsto> [0, 0]] =
    Some [1 \<mapsto> [10, 20], 2 \<mapsto> [1, 2], 3 \<mapsto> map (\<lambda>j. axpy id True 5 ([10, 20] ! j) ([1, 2] ! j)) [0..<2]]"
proof -
  have "run_threads (saxpy_kernel id True 1 2 3 5 2) (rev (List.product [0..<1] [0..<256])) [1 \<mapsto> [10, 20], 2 \<mapsto> [1, 2], 3 \<mapsto> [0, 0]] =
      Some ([1 \<mapsto> [10, 20], 2 \<mapsto> [1, 2], 3 \<mapsto> [0, 0]](3 \<mapsto> map (\<lambda>j. axpy id True 5 ([10, 20] ! j) ([1, 2] ! j)) [0..<2]))"
    by (rule saxpy_any_order) (auto simp: grid_def)
  then show ?thesis by (simp only: fun_upd_upd)
qed

subsection \<open>The host\<close>

text \<open>
  The calls of the runtime. A call that fails answers \<open>None\<close>. A launch answers nothing: its error, and
  that of any earlier call whose result was not looked at, is what \<open>cudaGetLastError\<close> returns.
\<close>

record 's cuda =
  cu_set_device :: "'s \<Rightarrow> unit option \<times> 's"
  cu_properties :: "'s \<Rightarrow> unit option \<times> 's"
  cu_mem_info :: "'s \<Rightarrow> nat option \<times> 's"
  cu_malloc :: "nat \<Rightarrow> 's \<Rightarrow> addr option \<times> 's"
  cu_h2d :: "addr \<Rightarrow> rat list \<Rightarrow> 's \<Rightarrow> unit option \<times> 's"
  cu_launch :: "nat \<Rightarrow> nat \<Rightarrow> (nat \<times> nat \<Rightarrow> device_memory \<Rightarrow> device_memory option) \<Rightarrow> 's \<Rightarrow> 's"
  cu_last_error :: "'s \<Rightarrow> unit option \<times> 's"
  cu_d2h :: "addr \<Rightarrow> nat \<Rightarrow> 's \<Rightarrow> rat list option \<times> 's"
  cu_synchronize :: "'s \<Rightarrow> unit option \<times> 's"
  cu_free :: "addr \<Rightarrow> 's \<Rightarrow> unit option \<times> 's"

text \<open>\<open>ok\<close>: a failed call ends the program with 1, which is an \<open>Inl\<close>. The rest is sequencing.\<close>

definition cuda_ok :: "'a option \<times> 's \<Rightarrow> (int \<times> 's) + ('a \<times> 's)" where
  "cuda_ok result = (case result of (None, s) \<Rightarrow> Inl (1, s) | (Some x, s) \<Rightarrow> Inr (x, s))"

definition cuda_bind ::
  "(int \<times> 's) + ('a \<times> 's) \<Rightarrow> ('a \<Rightarrow> 's \<Rightarrow> (int \<times> 's) + ('b \<times> 's)) \<Rightarrow> (int \<times> 's) + ('b \<times> 's)" where
  "cuda_bind m k = (case m of Inl e \<Rightarrow> Inl e | Inr (x, s) \<Rightarrow> k x s)"

text \<open>Three arrays, two of them filled, and the kernel; and the release of the arrays.\<close>

definition device_saxpy ::
  "(rat \<Rightarrow> rat) \<Rightarrow> bool \<Rightarrow> 's cuda \<Rightarrow> rat \<Rightarrow> rat list \<Rightarrow> rat list \<Rightarrow> nat \<Rightarrow> 's \<Rightarrow>
    (int \<times> 's) + ((addr \<times> addr \<times> addr) \<times> 's)" where
  "device_saxpy rnd fused dev a hx hy n s =
     cuda_bind (cuda_ok (cu_malloc dev n s)) (\<lambda>dx s.
     cuda_bind (cuda_ok (cu_malloc dev n s)) (\<lambda>dy s.
     cuda_bind (cuda_ok (cu_malloc dev n s)) (\<lambda>dout s.
     cuda_bind (cuda_ok (cu_h2d dev dx hx s)) (\<lambda>_ s.
     cuda_bind (cuda_ok (cu_h2d dev dy hy s)) (\<lambda>_ s.
     let s = cu_launch dev ((n + 255) div 256) 256 (saxpy_kernel rnd fused dx dy dout a n) s in
     cuda_bind (cuda_ok (cu_last_error dev s)) (\<lambda>_ s.
     Inr ((dx, dy, dout), s)))))))"

definition device_free :: "'s cuda \<Rightarrow> addr \<Rightarrow> addr \<Rightarrow> addr \<Rightarrow> 's \<Rightarrow> (int \<times> 's) + (unit \<times> 's)" where
  "device_free dev dx dy dout s =
     cuda_bind (cuda_ok (cu_free dev dx s)) (\<lambda>_ s.
     cuda_bind (cuda_ok (cu_free dev dy s)) (\<lambda>_ s.
     cuda_ok (cu_free dev dout s)))"

definition run_kernel :: "(rat \<Rightarrow> rat) \<Rightarrow> bool \<Rightarrow> 's cuda \<Rightarrow> nat \<Rightarrow> 's \<Rightarrow> (int \<times> 's) + (rat \<times> 's)" where
  "run_kernel rnd fused dev n s =
     (let hx = map (\<lambda>i. rnd (of_nat i)) [0..<n]; hy = map (\<lambda>i. rnd (of_nat (2 * i))) [0..<n] in
      cuda_bind (device_saxpy rnd fused dev 3 hx hy n s) (\<lambda>(dx, dy, dout) s.
      cuda_bind (cuda_ok (cu_d2h dev dout n s)) (\<lambda>hout s.
      let reference = rnd (rnd (3 * (hx ! (n - 1))) + hy ! (n - 1)) in
      cuda_bind (device_free dev dx dy dout s) (\<lambda>_ s. Inr (reference, s)))))"

text \<open>
  Scenario A: its result, the decision of the classifier, and the idempotency store at the end.
\<close>

definition scenario_a ::
  "('g \<Rightarrow> u64 \<times> 'g) \<Rightarrow> (nat \<Rightarrow> 'g) \<Rightarrow> (rat \<Rightarrow> rat) \<Rightarrow> bool \<Rightarrow> 's cuda \<Rightarrow> 's \<Rightarrow>
    (int \<times> 's) + ((bool \<times> RetryDecision \<times> IdempotencyStore) \<times> 's)" where
  "scenario_a draw seed rnd fused dev s =
     (let n = 1024 * 1024;
          (op, rng) = Id_generate draw (seed 99);
          (key, rng) = key_generate draw rng;
          (att, rng) = Id_generate draw rng;
          b = b_completion Ambiguity.KNOWN (b_side_effect_state SideEffectState.NONE_POSSIBLE
            (b_phase FailurePhase.EXECUTE (b_origin FailureOrigin.DEVICE
              (b_attempt att (b_operation op (b_failure_class FailureClass.EXECUTION_FAILURE new_builder))))));
          (att', rng) = Id_generate draw rng;
          (boot, rng) = Id_generate draw rng;
          a = empty_envelope\<lparr>ae_coordinator_epoch := Generation 1, ae_attempt := att',
            ae_attempt_generation := Generation 1, ae_worker_boot := boot\<rparr>;
          (fail, rng) = build draw (b_authority a b) rng in
      case run_kernel rnd fused dev n s of Inl e \<Rightarrow> Inl e
      | Inr (ref, s) \<Rightarrow>
          let d = classify fail (default_retry_input\<lparr>ri_idempotent_retry_possible := True,
                ri_attempt_count := 1, ri_worker_healthy := True\<rparr>) default_policy;
              (v, idem) = idem_begin op key 0xA a [] in
          case run_kernel rnd fused dev n s of Inl e \<Rightarrow> Inl e
          | Inr (ref2, s) \<Rightarrow> Inr ((True, d, idem_complete op key ''ok'' idem), s))"

text \<open>
  Scenario B, on arrays of a given length. The results of \<open>cudaMemGetInfo\<close> and
  \<open>cudaDeviceSynchronize\<close> are ignored.
\<close>

definition fenced_boot ::
  "('g \<Rightarrow> u64 \<times> 'g) \<Rightarrow> 'g \<Rightarrow> (rat \<Rightarrow> rat) \<Rightarrow> bool \<Rightarrow> 's cuda \<Rightarrow> nat \<Rightarrow> 's \<Rightarrow> (int \<times> 's) + (bool \<times> 's)" where
  "fenced_boot draw g rnd fused dev n s =
     (let (before, s) = cu_mem_info dev s;
          hx = map (\<lambda>i. rnd (of_nat i)) [0..<n]; hy = map (\<lambda>i. rnd (of_nat (i + 1))) [0..<n] in
      cuda_bind (device_saxpy rnd fused dev 2 hx hy n s) (\<lambda>(dx, dy, dout) s.
      let (boot, g) = Id_generate draw g;
          (att, g) = Id_generate draw g;
          (disp, g) = Id_generate draw g;
          oldBoot = empty_envelope\<lparr>ae_coordinator_epoch := Generation 1, ae_worker_boot := boot,
            ae_attempt_generation := Generation 1, ae_attempt := att, ae_dispatch := disp,
            ae_operation_generation := Generation 1\<rparr>;
          (fresh, g) = Id_generate draw g;
          freshBoot = next_boot oldBoot fresh;
          fr = fence_completion oldBoot freshBoot empty_envelope in
      if fence_accepted fr then Inr (False, s)
      else cuda_bind (cuda_ok (cu_d2h dev dout n s)) (\<lambda>hout s.
      let parity = list_all (\<lambda>i. hout ! i = rnd (rnd (2 * (hx ! i)) + hy ! i)) [0..<n] in
      cuda_bind (device_free dev dx dy dout s) (\<lambda>_ s.
      let (_, s) = cu_synchronize dev s; (after, s) = cu_mem_info dev s in Inr (parity, s)))))"

definition scenario_b ::
  "('g \<Rightarrow> u64 \<times> 'g) \<Rightarrow> 'g \<Rightarrow> (rat \<Rightarrow> rat) \<Rightarrow> bool \<Rightarrow> 's cuda \<Rightarrow> 's \<Rightarrow> (int \<times> 's) + (bool \<times> 's)" where
  "scenario_b draw g rnd fused dev s = fenced_boot draw g rnd fused dev (256 * 1024) s"

definition scenario_c ::
  "('g \<Rightarrow> u64 \<times> 'g) \<Rightarrow> (nat \<Rightarrow> 'g) \<Rightarrow> (rat \<Rightarrow> rat) \<Rightarrow> bool \<Rightarrow> 's cuda \<Rightarrow> 's \<Rightarrow> (int \<times> 's) + (bool \<times> 's)" where
  "scenario_c draw seed rnd fused dev s =
     (let n = 128 * 1024;
          (op, rng) = Id_generate draw (seed 7);
          (key, rng) = key_generate draw rng;
          (att, rng) = Id_generate draw rng;
          (boot, rng) = Id_generate draw rng;
          (disp, rng) = Id_generate draw rng;
          a = empty_envelope\<lparr>ae_coordinator_epoch := Generation 1, ae_attempt := att,
            ae_attempt_generation := Generation 1, ae_worker_boot := boot, ae_dispatch := disp,
            ae_operation_generation := Generation 1\<rparr> in
      case run_kernel rnd fused dev n s of Inl e \<Rightarrow> Inl e
      | Inr (ref, s) \<Rightarrow>
          let (v, idem) = idem_begin op key 0xBEEF a [];
              (v1, idem) = idem_begin op key 0xBEEF a idem;
              idem = idem_complete op key ''committed'' idem;
              prior = idem_prior_result op key idem;
              (vconf, idem) = idem_begin op key 0xDEAD a idem
          in Inr (v1 = IdempotencyVerdict.IN_PROGRESS_REPLAY \<and> vconf = IdempotencyVerdict.CONFLICT \<and> prior \<noteq> None, s))"

text \<open>\<open>main\<close>: the exit code, and the state of the device. The result of \<open>cudaGetDeviceProperties\<close> is ignored.\<close>

definition cuda_main ::
  "('g \<Rightarrow> u64 \<times> 'g) \<Rightarrow> (nat \<Rightarrow> 'g) \<Rightarrow> 'g \<Rightarrow> (rat \<Rightarrow> rat) \<Rightarrow> bool \<Rightarrow> 's cuda \<Rightarrow> 's \<Rightarrow> int \<times> 's" where
  "cuda_main draw seed g rnd fused dev s =
     (case cu_set_device dev s of (None, s) \<Rightarrow> (2, s)
      | (Some _, s) \<Rightarrow>
      let (prop, s) = cu_properties dev s in
      case scenario_a draw seed rnd fused dev s of Inl e \<Rightarrow> e
      | Inr ((a, d, idem), s) \<Rightarrow>
      case scenario_b draw g rnd fused dev s of Inl e \<Rightarrow> e
      | Inr (b, s) \<Rightarrow>
      case scenario_c draw seed rnd fused dev s of Inl e \<Rightarrow> e
      | Inr (c, s) \<Rightarrow> (if a \<and> b \<and> c then 0 else 1, s))"

subsection \<open>What a device promises\<close>

text \<open>
  \<open>failed s\<close> says that by the state \<open>s\<close> something has failed: a call has answered an error, or an error
  is pending that a later call may answer. A failure is never forgotten, and a call that answers an
  error is one. Nothing is promised of the memory after a failure; without one, memory that is
  allocated is new, copies act on it, the threads of a kernel that makes no invalid access have run in
  some order, memory that is freed is gone, and the other calls leave memory alone.
\<close>

definition reports :: "('s \<Rightarrow> bool) \<Rightarrow> ('s \<Rightarrow> 'a option \<times> 's) \<Rightarrow> bool" where
  "reports failed call \<longleftrightarrow> (\<forall>s. fst (call s) = None \<or> failed s \<longrightarrow> failed (snd (call s)))"

definition leaves_memory :: "('s \<Rightarrow> bool) \<Rightarrow> ('s \<Rightarrow> device_memory) \<Rightarrow> ('s \<Rightarrow> 'a option \<times> 's) \<Rightarrow> bool" where
  "leaves_memory failed mem call \<longleftrightarrow> (\<forall>s. \<not> failed (snd (call s)) \<longrightarrow> mem (snd (call s)) = mem s)"

locale device =
  fixes dev :: "'s cuda" and mem :: "'s \<Rightarrow> device_memory" and failed :: "'s \<Rightarrow> bool"
  assumes reports: "reports failed (cu_set_device dev)" "reports failed (cu_properties dev)"
      "reports failed (cu_mem_info dev)" "reports failed (cu_malloc dev n)" "reports failed (cu_h2d dev a ys)"
      "reports failed (cu_last_error dev)" "reports failed (cu_d2h dev a n)"
      "reports failed (cu_synchronize dev)" "reports failed (cu_free dev a)"
    and leaves: "leaves_memory failed mem (cu_set_device dev)" "leaves_memory failed mem (cu_properties dev)"
      "leaves_memory failed mem (cu_mem_info dev)" "leaves_memory failed mem (cu_last_error dev)"
      "leaves_memory failed mem (cu_synchronize dev)"
    and mallocs: "cu_malloc dev n s = (Some a, s') \<Longrightarrow> \<not> failed s' \<Longrightarrow>
      mem s a = None \<and> (\<exists>xs. length xs = n \<and> mem s' = (mem s)(a \<mapsto> xs))"
    and uploads: "cu_h2d dev a ys s = (Some u, s') \<Longrightarrow> \<not> failed s' \<Longrightarrow> mem s a = Some xs \<Longrightarrow> length ys = length xs \<Longrightarrow>
      mem s' = (mem s)(a \<mapsto> ys)"
    and launch_reports: "failed s \<Longrightarrow> failed (cu_launch dev blocks threads krn s)"
    and launches: "\<not> failed (cu_launch dev blocks threads krn s) \<Longrightarrow>
      (\<And>order. set order = {0..<blocks} \<times> {0..<threads} \<Longrightarrow>
        \<exists>m. run_threads krn order (mem s) = Some m \<and> dom m \<subseteq> dom (mem s)) \<Longrightarrow>
      \<exists>order. set order = {0..<blocks} \<times> {0..<threads} \<and> distinct order \<and>
        run_threads krn order (mem s) = Some (mem (cu_launch dev blocks threads krn s))"
    and downloads: "cu_d2h dev a n s = (Some ys, s') \<Longrightarrow> \<not> failed s' \<Longrightarrow> mem s a = Some xs \<Longrightarrow> length xs = n \<Longrightarrow>
      ys = xs \<and> mem s' = mem s"
    and frees: "cu_free dev a s = (Some u, s') \<Longrightarrow> \<not> failed s' \<Longrightarrow> mem s a = Some xs \<Longrightarrow> mem s' = (mem s)(a := None)"

lemma cuda_bind_iff:
  "cuda_bind m k = Inr r \<longleftrightarrow> (\<exists>x s. m = Inr (x, s) \<and> k x s = Inr r)"
  "cuda_bind m k = Inl e \<longleftrightarrow> m = Inl e \<or> (\<exists>x s. m = Inr (x, s) \<and> k x s = Inl e)"
  by (auto simp: cuda_bind_def split: sum.splits prod.splits)

lemma cuda_ok_iff:
  "cuda_ok r = Inr (x, s') \<longleftrightarrow> r = (Some x, s')" "cuda_ok r = Inl (c, s') \<longleftrightarrow> r = (None, s') \<and> c = 1"
  by (cases r; auto simp: cuda_ok_def split: option.splits)+

context device
begin

lemmas all_reports = reports [unfolded reports_def]

lemma failed_call:
  "cu_malloc dev n s = (None, s') \<Longrightarrow> failed s'" "cu_h2d dev a ys s = (None, s') \<Longrightarrow> failed s'"
  "cu_last_error dev s = (None, s') \<Longrightarrow> failed s'" "cu_d2h dev a n s = (None, s') \<Longrightarrow> failed s'"
  "cu_free dev a s = (None, s') \<Longrightarrow> failed s'" "cu_set_device dev s = (None, s') \<Longrightarrow> failed s'"
  using all_reports by (metis fst_conv snd_conv)+

lemma failed_before:
  "cu_malloc dev n s = (r, s') \<Longrightarrow> \<not> failed s' \<Longrightarrow> \<not> failed s"
  "cu_h2d dev a ys s = (q, s') \<Longrightarrow> \<not> failed s' \<Longrightarrow> \<not> failed s"
  "cu_last_error dev s = (q, s') \<Longrightarrow> \<not> failed s' \<Longrightarrow> \<not> failed s"
  "cu_d2h dev a n s = (v, s') \<Longrightarrow> \<not> failed s' \<Longrightarrow> \<not> failed s"
  "cu_free dev a s = (q, s') \<Longrightarrow> \<not> failed s' \<Longrightarrow> \<not> failed s"
  "cu_set_device dev s = (q, s') \<Longrightarrow> \<not> failed s' \<Longrightarrow> \<not> failed s"
  "\<not> failed (snd (cu_mem_info dev s)) \<Longrightarrow> \<not> failed s" "\<not> failed (snd (cu_properties dev s)) \<Longrightarrow> \<not> failed s"
  "\<not> failed (snd (cu_synchronize dev s)) \<Longrightarrow> \<not> failed s"
  using all_reports by (metis snd_conv)+

lemma memory_left:
  "cu_last_error dev s = (q, s') \<Longrightarrow> \<not> failed s' \<Longrightarrow> mem s' = mem s"
  "cu_set_device dev s = (q, s') \<Longrightarrow> \<not> failed s' \<Longrightarrow> mem s' = mem s"
  "\<not> failed (snd (cu_mem_info dev s)) \<Longrightarrow> mem (snd (cu_mem_info dev s)) = mem s"
  "\<not> failed (snd (cu_properties dev s)) \<Longrightarrow> mem (snd (cu_properties dev s)) = mem s"
  "\<not> failed (snd (cu_synchronize dev s)) \<Longrightarrow> mem (snd (cu_synchronize dev s)) = mem s"
  using leaves [unfolded leaves_memory_def] by (metis snd_conv)+

text \<open>The parts of the program that end it have seen a call fail.\<close>

lemma device_saxpy_stops: "device_saxpy rnd fused dev a hx hy n s = Inl (c, s') \<Longrightarrow> c = 1 \<and> failed s'"
  by (auto simp: device_saxpy_def cuda_bind_iff cuda_ok_iff Let_def dest: failed_call)

lemma device_free_stops: "device_free dev dx dy dout s = Inl (c, s') \<Longrightarrow> c = 1 \<and> failed s'"
  by (auto simp: device_free_def cuda_bind_iff cuda_ok_iff dest: failed_call)

lemma run_kernel_stops: "run_kernel rnd fused dev n s = Inl (c, s') \<Longrightarrow> c = 1 \<and> failed s'"
  by (auto simp: run_kernel_def cuda_bind_iff cuda_ok_iff Let_def
      dest!: device_saxpy_stops device_free_stops dest: failed_call)

lemma fenced_boot_stops: "fenced_boot draw g rnd fused dev n s = Inl (c, s') \<Longrightarrow> c = 1 \<and> failed s'"
  by (auto simp: fenced_boot_def cuda_bind_iff cuda_ok_iff Let_def case_prod_beta
      dest!: device_saxpy_stops device_free_stops dest: failed_call split: if_splits)

text \<open>What they do otherwise, if nothing failed by their end.\<close>

lemma device_saxpy_works:
  assumes "n \<le> 2 ^ 31 - 256" "length hx = n" "length hy = n"
    and "device_saxpy rnd fused dev a hx hy n s = Inr ((dx, dy, dout), s')" "\<not> failed s'"
  shows "\<not> failed s \<and> distinct [dx, dy, dout] \<and> mem s dx = None \<and> mem s dy = None \<and> mem s dout = None \<and>
    mem s' = (mem s)(dx \<mapsto> hx, dy \<mapsto> hy, dout \<mapsto> map (\<lambda>j. axpy rnd fused a (hx ! j) (hy ! j)) [0..<n])"
proof -
  let ?krn = "saxpy_kernel rnd fused dx dy dout a n"
  obtain s1 s2 s3 s4 s5 u v w where c:
    "cu_malloc dev n s = (Some dx, s1)" "cu_malloc dev n s1 = (Some dy, s2)" "cu_malloc dev n s2 = (Some dout, s3)"
    "cu_h2d dev dx hx s3 = (Some u, s4)" "cu_h2d dev dy hy s4 = (Some v, s5)"
    "cu_last_error dev (cu_launch dev ((n + 255) div 256) 256 ?krn s5) = (Some w, s')"
    using assms(4) by (auto simp: device_saxpy_def cuda_bind_iff cuda_ok_iff Let_def)
  define s6 where "s6 = cu_launch dev ((n + 255) div 256) 256 ?krn s5"
  have f: "\<not> failed s6" using failed_before(3) [OF c(6) assms(5)] by (simp add: s6_def)
  then have f5: "\<not> failed s5" using launch_reports by (auto simp: s6_def)
  have f4: "\<not> failed s4" by (rule failed_before(2) [OF c(5) f5])
  have f3: "\<not> failed s3" by (rule failed_before(2) [OF c(4) f4])
  have f2: "\<not> failed s2" by (rule failed_before(1) [OF c(3) f3])
  have f1: "\<not> failed s1" by (rule failed_before(1) [OF c(2) f2])
  have f0: "\<not> failed s" by (rule failed_before(1) [OF c(1) f1])
  obtain xs where 1: "mem s dx = None" "length xs = n" "mem s1 = (mem s)(dx \<mapsto> xs)" using mallocs [OF c(1) f1] by blast
  obtain ys where 2: "mem s1 dy = None" "length ys = n" "mem s2 = (mem s1)(dy \<mapsto> ys)" using mallocs [OF c(2) f2] by blast
  obtain os where 3: "mem s2 dout = None" "length os = n" "mem s3 = (mem s2)(dout \<mapsto> os)" using mallocs [OF c(3) f3] by blast
  have d: "dx \<noteq> dy" "dx \<noteq> dout" "dy \<noteq> dout" "mem s dy = None" "mem s dout = None"
    using 1 2 3 by (auto split: if_splits)
  have 4: "mem s4 = (mem s3)(dx \<mapsto> hx)" using uploads [OF c(4) f4, of xs] 1 2 3 d assms(2) by simp
  have 5: "mem s5 = (mem s4)(dy \<mapsto> hy)" using uploads [OF c(5) f5, of ys] 1 2 3 4 d assms(3) by simp
  have m5: "mem s5 dx = Some hx" "mem s5 dy = Some hy" "mem s5 dout = Some os" using 1 2 3 4 5 d by simp_all
  note run = saxpy_kernel_order [OF assms(1) d(2,3) _ m5 assms(2,3) 3(2), of _ rnd fused a]
  have "\<exists>m. run_threads ?krn order (mem s5) = Some m \<and> dom m \<subseteq> dom (mem s5)"
    if "set order = {0..<(n + 255) div 256} \<times> {0..<256}" for order
    using run [of order] that m5(3) by (auto simp: grid_def)
  from launches [OF f [unfolded s6_def] this]
  have "\<exists>order. set order = grid n \<and> run_threads ?krn order (mem s5) = Some (mem s6)"
    unfolding grid_def s6_def by blast
  then have "mem s6 = (mem s5)(dout \<mapsto> map (\<lambda>j. axpy rnd fused a (hx ! j) (hy ! j)) [0..<n])" using run by auto
  moreover have "mem s' = mem s6" using memory_left(1) [OF c(6) assms(5)] by (simp add: s6_def)
  ultimately show ?thesis using 1 2 3 4 5 d f0 by (auto simp: fun_upd_twist)
qed

lemma device_free_works:
  assumes "mem s dx \<noteq> None" "mem s dy \<noteq> None" "mem s dout \<noteq> None" "distinct [dx, dy, dout]"
    and "device_free dev dx dy dout s = Inr (u, s')" "\<not> failed s'"
  shows "\<not> failed s \<and> mem s' = (mem s)(dx := None, dy := None, dout := None)"
proof -
  obtain s1 s2 u v where c: "cu_free dev dx s = (Some u, s1)" "cu_free dev dy s1 = (Some v, s2)"
    "\<exists>w. cu_free dev dout s2 = (Some w, s')"
    using assms(5) by (auto simp: device_free_def cuda_bind_iff cuda_ok_iff)
  have f: "\<not> failed s2" "\<not> failed s1" "\<not> failed s" using c assms(6) failed_before(5) by blast+
  have 1: "mem s1 = (mem s)(dx := None)" using frees [OF c(1) f(2)] assms(1) by blast
  have 2: "mem s2 = (mem s1)(dy := None)" using frees [OF c(2) f(1)] assms(2,4) 1 by auto
  have "mem s' = (mem s2)(dout := None)" using c(3) frees [of dout s2 _ s'] assms(3,4,6) 1 2 by auto
  then show ?thesis using f(3) 1 2 by simp
qed

end

subsection \<open>The scenarios\<close>

text \<open>Integers up to \<open>2 ^ 24\<close> are exact in single precision.\<close>

definition single_exact :: "(rat \<Rightarrow> rat) \<Rightarrow> bool" where
  "single_exact rnd \<longleftrightarrow> (\<forall>k. k \<le> 2 ^ 24 \<longrightarrow> rnd (of_nat k) = of_nat k)"

lemma axpy_exact:
  assumes "single_exact rnd" "a * x + y \<le> 2 ^ 24"
  shows "axpy rnd fused (of_nat a) (of_nat x) (of_nat y) = of_nat (a * x + y)"
proof -
  have "rnd (of_nat (a * x)) = of_nat (a * x)" "rnd (of_nat (a * x + y)) = of_nat (a * x + y)"
    using assms unfolding single_exact_def by (metis le_add1 order_trans, blast)
  then show ?thesis by (simp add: axpy_def)
qed

lemma exact_upto:
  assumes "single_exact rnd" "\<And>i. i < n \<Longrightarrow> f i \<le> 2 ^ 24"
  shows "map (\<lambda>i. rnd (of_nat (f i))) [0..<n] = map (\<lambda>i. of_nat (f i)) [0..<n]"
  using assms by (auto simp: single_exact_def)

context device
begin

lemma run_kernel_works:
  assumes "single_exact rnd" "0 < n" "n \<le> 2 ^ 20"
    and "run_kernel rnd fused dev n s = Inr (ref, s')" "\<not> failed s'"
  shows "\<not> failed s \<and> ref = of_nat (5 * (n - 1)) \<and> mem s' = mem s"
proof -
  define hx :: "rat list" where "hx = map of_nat [0..<n]"
  define hy :: "rat list" where "hy = map (\<lambda>i. of_nat (2 * i)) [0..<n]"
  have h: "map (\<lambda>i. rnd (of_nat i)) [0..<n] = hx" "map (\<lambda>i. rnd (of_nat (2 * i))) [0..<n] = hy"
    using exact_upto [OF assms(1), of n "\<lambda>i. i"] exact_upto [OF assms(1), of n "\<lambda>i. 2 * i"] assms(3)
    by (simp_all add: hx_def hy_def)
  have r: "rnd (rnd (3 * (hx ! (n - 1))) + hy ! (n - 1)) = of_nat (5 * (n - 1))"
    using axpy_exact [OF assms(1), of 3 "n - 1" "2 * (n - 1)" False] assms(2,3)
    by (simp add: axpy_def hx_def hy_def)
  have lens: "n \<le> 2 ^ 31 - 256" "length hx = n" "length hy = n" using assms(3) by (simp_all add: hx_def hy_def)
  obtain dx dy dout s1 hout s2 u where c: "device_saxpy rnd fused dev 3 hx hy n s = Inr ((dx, dy, dout), s1)"
    "cu_d2h dev dout n s1 = (Some hout, s2)" "device_free dev dx dy dout s2 = Inr (u, s')"
    and ref: "ref = of_nat (5 * (n - 1))"
    using assms(4) unfolding run_kernel_def Let_def h r by (auto simp: cuda_bind_iff cuda_ok_iff)
  let ?os = "map (\<lambda>j. axpy rnd fused 3 (hx ! j) (hy ! j)) [0..<n]"
  have f2: "\<not> failed s2"
    using c(3) assms(5) failed_before(5) by (auto simp: device_free_def cuda_bind_iff cuda_ok_iff)
  then have f1: "\<not> failed s1" using c(2) failed_before(4) by blast
  note w = device_saxpy_works [OF lens c(1) f1]
  have "mem s2 = mem s1" using downloads [OF c(2) f2, of ?os] w by simp
  then have "mem s' = (mem s1)(dx := None, dy := None, dout := None)"
    using device_free_works [OF _ _ _ _ c(3) assms(5)] w by auto
  then have "mem s' = mem s" using w by (auto simp: fun_eq_iff)
  then show ?thesis using w ref by blast
qed

lemma fenced_boot_works:
  assumes "single_exact rnd" "n \<le> 2 ^ 20"
    and "fenced_boot draw g rnd fused dev n s = Inr (parity, s')" "\<not> failed s'"
  shows "\<not> failed s \<and> parity \<and> mem s' = mem s"
proof -
  define hx :: "rat list" where "hx = map of_nat [0..<n]"
  define hy :: "rat list" where "hy = map (\<lambda>i. of_nat (i + 1)) [0..<n]"
  have h: "map (\<lambda>i. rnd (of_nat i)) [0..<n] = hx" "map (\<lambda>i. rnd (of_nat (i + 1))) [0..<n] = hy"
    using exact_upto [OF assms(1), of n "\<lambda>i. i"] exact_upto [OF assms(1), of n "\<lambda>i. i + 1"] assms(2)
    by (simp_all add: hx_def hy_def)
  define os where "os = map (\<lambda>j. axpy rnd fused 2 (hx ! j) (hy ! j)) [0..<n]"
  have same: "list_all (\<lambda>i. os ! i = rnd (rnd (2 * (hx ! i)) + hy ! i)) [0..<n]"
  proof -
    have "axpy rnd fused 2 (hx ! i) (hy ! i) = axpy rnd False 2 (hx ! i) (hy ! i)" if "i < n" for i
      using axpy_exact [OF assms(1), of 2 i "i + 1"] that assms(2) by (simp add: hx_def hy_def)
    then show ?thesis by (simp add: list_all_iff os_def axpy_def)
  qed
  have fenced: "\<not> fence_accepted (fence_completion e (next_boot e fresh) t)"
    if "ae_attempt_generation e = Generation 1" for e fresh t
    using next_boot_fences_previous [of e] that by simp
  have lens: "n \<le> 2 ^ 31 - 256" "length hx = n" "length hy = n" using assms(2) by (simp_all add: hx_def hy_def)
  define s0 where "s0 = snd (cu_mem_info dev s)"
  obtain dx dy dout s1 hout s2 u s3 where c: "device_saxpy rnd fused dev 2 hx hy n s0 = Inr ((dx, dy, dout), s1)"
    "cu_d2h dev dout n s1 = (Some hout, s2)" "device_free dev dx dy dout s2 = Inr (u, s3)"
    and s': "s' = snd (cu_mem_info dev (snd (cu_synchronize dev s3)))"
    and p: "parity = list_all (\<lambda>i. hout ! i = rnd (rnd (2 * (hx ! i)) + hy ! i)) [0..<n]"
    using assms(3) unfolding fenced_boot_def Let_def h case_prod_beta s0_def
    by (auto simp: cuda_bind_iff cuda_ok_iff fenced)
  have f: "\<not> failed (snd (cu_synchronize dev s3))" using assms(4) failed_before(7) by (simp add: s')
  then have f3: "\<not> failed s3" by (rule failed_before(9))
  have f2: "\<not> failed s2"
    using c(3) f3 failed_before(5) by (auto simp: device_free_def cuda_bind_iff cuda_ok_iff)
  then have f1: "\<not> failed s1" using c(2) failed_before(4) by blast
  note w = device_saxpy_works [OF lens c(1) f1, folded os_def]
  have d: "hout = os" "mem s2 = mem s1" using downloads [OF c(2) f2, of os] w by (simp_all add: os_def)
  then have "mem s3 = (mem s1)(dx := None, dy := None, dout := None)"
    using device_free_works [OF _ _ _ _ c(3) f3] w by auto
  then have "mem s3 = mem s0" using w by (auto simp: fun_eq_iff)
  moreover have "mem s0 = mem s" "\<not> failed s" using w memory_left(3) failed_before(7) by (auto simp: s0_def)
  moreover have "mem s' = mem s3" using assms(4) f memory_left(3,5) by (simp add: s')
  ultimately show ?thesis using same by (simp add: p d)
qed

end

text \<open>The failure of scenario A is to be retried, under a fresh attempt.\<close>

lemma execution_failure_retries:
  fixes draw :: "'g \<Rightarrow> u64 \<times> 'g"
  defines "fail a att op g \<equiv> fst (build draw (b_authority a (b_completion Ambiguity.KNOWN
      (b_side_effect_state SideEffectState.NONE_POSSIBLE
      (b_phase FailurePhase.EXECUTE (b_origin FailureOrigin.DEVICE (b_attempt att (b_operation op
        (b_failure_class FailureClass.EXECUTION_FAILURE new_builder)))))))) g)"
  defines "inp \<equiv> default_retry_input\<lparr>ri_idempotent_retry_possible := True,
      ri_attempt_count := 1, ri_worker_healthy := True\<rparr>"
  shows "rd_verdict (classify (fail a att op g) inp default_policy) = RetryVerdict.RETRY"
    and "rd_requires_fresh_attempt (classify (fail a att op g) inp default_policy)"
  by (simp_all add: fail_def inp_def classify_verdict classify_fresh build_eq Let_def b_authority_def b_completion_def
      b_side_effect_state_def b_phase_def b_origin_def b_attempt_def b_operation_def b_failure_class_def
      new_builder_def default_record_def default_retry_input_def default_policy_def fenced_class_def
      completion_ambiguous_def retry_may_effect_def eff_retryability_def word_le_nat_alt)

lemma scenario_a_works:
  assumes "device dev mem failed" "single_exact rnd"
    and "scenario_a draw seed rnd fused dev s = Inr ((a, d, idem), s')" "\<not> failed s'"
  shows "\<not> failed s \<and> a \<and> mem s' = mem s \<and> rd_verdict d = RetryVerdict.RETRY \<and> rd_requires_fresh_attempt d"
proof -
  obtain r1 s1 r2 where c: "run_kernel rnd fused dev (1024 * 1024) s = Inr (r1, s1)"
    "run_kernel rnd fused dev (1024 * 1024) s1 = Inr (r2, s')"
    and d: "a" "rd_verdict d = RetryVerdict.RETRY" "rd_requires_fresh_attempt d"
    using assms(3) by (auto simp: scenario_a_def Let_def case_prod_beta execution_failure_retries split: sum.splits)
  note w = device.run_kernel_works [OF assms(1,2), where n = "1024 * 1024"]
  show ?thesis using w [OF _ _ c(2) assms(4)] w [OF _ _ c(1)] d by simp
qed

lemma scenario_c_works:
  assumes "device dev mem failed" "single_exact rnd"
    and "scenario_c draw seed rnd fused dev s = Inr (c, s')" "\<not> failed s'"
  shows "\<not> failed s \<and> c \<and> mem s' = mem s"
proof -
  obtain r1 where r: "run_kernel rnd fused dev (128 * 1024) s = Inr (r1, s')" and "c"
    using assms(3) by (auto simp: scenario_c_def Let_def case_prod_beta idem_begin_def idem_complete_def
        idem_prior_result_def um_emplace_def idem_at_def split: sum.splits)
  then show ?thesis using device.run_kernel_works [OF assms(1,2) _ _ r assms(4)] by simp
qed

lemma scenarios_stop:
  assumes "device dev mem failed"
  shows "scenario_a draw seed rnd fused dev s = Inl (c, s') \<Longrightarrow> failed s'"
    and "scenario_b draw g rnd fused dev s = Inl (c, s') \<Longrightarrow> failed s'"
    and "scenario_c draw seed rnd fused dev s = Inl (c, s') \<Longrightarrow> failed s'"
  by (auto simp: scenario_a_def scenario_b_def scenario_c_def Let_def case_prod_beta split: sum.splits
      dest: device.run_kernel_stops [OF assms] device.fenced_boot_stops [OF assms])

text \<open>
  C37: the CUDA program fails only if the device does. Whatever calls of the runtime fail, those whose
  result the program ignores included, whatever the order in which threads run, if integers up to
  \<open>2 ^ 24\<close> are exact in single precision, and whether or not the device fuses the product and the sum,
  for all random numbers: if no call has failed when \<open>main\<close> ends, then it exits with 0 (the old boot of
  scenario B was fenced and its arrays agree with the host's, the duplicate of scenario C was
  recognised) and all device memory is as before; so every other exit is due to a failed call.
\<close>

theorem cuda_program_succeeds:
  assumes "device dev mem failed" "single_exact rnd"
    and "cuda_main draw seed g rnd fused dev s = (code, s')" "\<not> failed s'"
  shows "code = 0 \<and> mem s' = mem s"
proof -
  obtain r s0 where 0: "cu_set_device dev s = (r, s0)" by fastforce
  show ?thesis
  proof (cases r)
    case None
    then show ?thesis using assms(3,4) 0 device.failed_call(6) [OF assms(1)] by (simp add: cuda_main_def)
  next
    case (Some u)
    define s1 where "s1 = snd (cu_properties dev s0)"
    have main: "cuda_main draw seed g rnd fused dev s =
      (case scenario_a draw seed rnd fused dev s1 of Inl e \<Rightarrow> e
       | Inr ((a, d, idem), s) \<Rightarrow> (case scenario_b draw g rnd fused dev s of Inl e \<Rightarrow> e
       | Inr (b, s) \<Rightarrow> (case scenario_c draw seed rnd fused dev s of Inl e \<Rightarrow> e
       | Inr (c, s) \<Rightarrow> (if a \<and> b \<and> c then 0 else 1, s))))"
      by (simp add: cuda_main_def 0 Some s1_def Let_def case_prod_beta)
    obtain a d idem s2 where 1: "scenario_a draw seed rnd fused dev s1 = Inr ((a, d, idem), s2)"
      using main assms(3,4) scenarios_stop(1) [OF assms(1)]
      by (cases "scenario_a draw seed rnd fused dev s1") fastforce+
    obtain b s3 where 2: "scenario_b draw g rnd fused dev s2 = Inr (b, s3)"
      using main assms(3,4) scenarios_stop(2) [OF assms(1)] 1
      by (cases "scenario_b draw g rnd fused dev s2") fastforce+
    obtain c where 3: "scenario_c draw seed rnd fused dev s3 = Inr (c, s')" and code: "code = (if a \<and> b \<and> c then 0 else 1)"
      using main assms(3,4) scenarios_stop(3) [OF assms(1)] 1 2
      by (cases "scenario_c draw seed rnd fused dev s3") fastforce+
    have c: "\<not> failed s3" "c" "mem s' = mem s3" using scenario_c_works [OF assms(1,2) 3 assms(4)] by simp_all
    have b: "\<not> failed s2" "b" "mem s3 = mem s2"
      using device.fenced_boot_works [OF assms(1,2) _ 2 [unfolded scenario_b_def] c(1)] by simp_all
    have a: "\<not> failed s1" "a" "mem s2 = mem s1" using scenario_a_works [OF assms(1,2) 1 b(1)] by simp_all
    have f: "\<not> failed s0" "mem s1 = mem s0"
      using a(1) device.failed_before(8) [OF assms(1)] device.memory_left(4) [OF assms(1)] by (auto simp: s1_def)
    then have "mem s0 = mem s" using device.memory_left(2) [OF assms(1) 0] by simp
    then show ?thesis using a b c f code by simp
  qed
qed

subsection \<open>Devices\<close>

text \<open>
  A device that never fails: addresses are given out in order, and what lies behind the last one is
  not allocated. And a device that has no memory to give: every call of \<open>cudaMalloc\<close> fails.
\<close>

type_synonym counting_device = "nat \<times> device_memory"

definition allocated :: "counting_device \<Rightarrow> device_memory" where
  "allocated s a = (if a < fst s then snd s a else None)"

definition counting :: "counting_device cuda" where
  "counting = \<lparr>cu_set_device = (\<lambda>s. (Some (), s)), cu_properties = (\<lambda>s. (Some (), s)),
     cu_mem_info = (\<lambda>s. (Some 0, s)),
     cu_malloc = (\<lambda>n (k, m). (Some k, (Suc k, m(k \<mapsto> replicate n 0)))),
     cu_h2d = (\<lambda>a xs (k, m). (Some (), (k, m(a \<mapsto> xs)))),
     cu_launch = (\<lambda>blocks threads krn s.
       case run_threads krn (List.product [0..<blocks] [0..<threads]) (allocated s) of
         None \<Rightarrow> s | Some m \<Rightarrow> (fst s, m)),
     cu_last_error = (\<lambda>s. (Some (), s)),
     cu_d2h = (\<lambda>a n s. (Some (case allocated s a of None \<Rightarrow> [] | Some xs \<Rightarrow> xs), s)),
     cu_synchronize = (\<lambda>s. (Some (), s)),
     cu_free = (\<lambda>a (k, m). (Some (), (k, m(a := None))))\<rparr>"

definition no_memory :: "(counting_device \<times> bool) cuda" where
  "no_memory = \<lparr>cu_set_device = (\<lambda>s. (Some (), s)), cu_properties = (\<lambda>s. (Some (), s)),
     cu_mem_info = (\<lambda>s. (Some 0, s)), cu_malloc = (\<lambda>n (s, f). (None, (s, True))),
     cu_h2d = (\<lambda>a xs (s, f). (None, (s, True))), cu_launch = (\<lambda>blocks threads krn (s, f). (s, True)),
     cu_last_error = (\<lambda>(s, f). (if f then None else Some (), (s, f))), cu_d2h = (\<lambda>a n (s, f). (None, (s, True))),
     cu_synchronize = (\<lambda>s. (Some (), s)), cu_free = (\<lambda>a (s, f). (None, (s, True)))\<rparr>"

lemma allocated_all: "dom m \<subseteq> dom (allocated s) \<Longrightarrow> allocated (fst s, m) = m"
proof
  fix a
  assume "dom m \<subseteq> dom (allocated s)"
  then have "m a \<noteq> None \<Longrightarrow> a < fst s" by (fastforce simp: allocated_def split: if_splits)
  then show "allocated (fst s, m) a = m a" by (cases "m a") (auto simp: allocated_def)
qed

lemma allocated_update:
  "allocated (Suc k, m(k \<mapsto> xs)) = (allocated (k, m))(k \<mapsto> xs)"
  "allocated (k, m) b = Some xs \<Longrightarrow> allocated (k, m(b := v)) = (allocated (k, m))(b := v)"
  "allocated (k, m) k = None"
  by (auto simp: allocated_def fun_eq_iff split: if_splits)

interpretation counting: device counting allocated "\<lambda>_. False"
proof unfold_locales
  fix s :: counting_device and blocks threads krn
  let ?order = "List.product [0..<blocks] [0..<threads]"
  assume "\<And>order. set order = {0..<blocks} \<times> {0..<threads} \<Longrightarrow>
    \<exists>m. run_threads krn order (allocated s) = Some m \<and> dom m \<subseteq> dom (allocated s)"
  from this [of ?order] obtain m where m: "run_threads krn ?order (allocated s) = Some m" "dom m \<subseteq> dom (allocated s)"
    by auto
  then have "allocated (cu_launch counting blocks threads krn s) = m" by (simp add: counting_def allocated_all)
  then show "\<exists>order. set order = {0..<blocks} \<times> {0..<threads} \<and> distinct order \<and>
      run_threads krn order (allocated s) = Some (allocated (cu_launch counting blocks threads krn s))"
    using m(1) by (intro exI [of _ ?order]) (simp add: distinct_product)
qed (auto simp: counting_def reports_def leaves_memory_def case_prod_beta allocated_update
    intro!: exI [of _ "replicate _ 0"])

interpretation no_memory: device no_memory "allocated \<circ> fst" snd
  by unfold_locales (auto simp: no_memory_def reports_def leaves_memory_def case_prod_beta split: if_splits)

lemma no_memory_exits: "cuda_main draw seed g rnd fused no_memory (s, False) = (1, (s, True))"
  by (simp add: cuda_main_def scenario_a_def run_kernel_def device_saxpy_def cuda_bind_def cuda_ok_def no_memory_def
      Let_def case_prod_beta)

theorem cuda_program_succeeds_witness:
  "\<exists>s'. cuda_main (\<lambda>g. (g, g + 1)) of_nat (5 :: u64) id True counting (0, \<lambda>_. None) = (0, s') \<and>
    allocated s' = allocated (0, \<lambda>_. None)"
proof -
  obtain code s' where c: "cuda_main (\<lambda>g. (g, g + 1)) of_nat (5 :: u64) id True counting (0, \<lambda>_. None) = (code, s')"
    by (rule prod.exhaust)
  have "single_exact id" by (simp add: single_exact_def)
  from cuda_program_succeeds [OF counting.device_axioms this c] show ?thesis using c by blast
qed

end
