(* ===== verification/Spec2Isabelle.thy ===== *)
theory Spec2Isabelle
  imports FF_Threads FF_Coordinator_Inv FF_Server FF_Examples FF_Cuda
begin

text \<open>
  A verification library for Failure Fabric, a C++ library and a pair of processes that decide what to
  do when an operation on a worker fails: whether it may be retried, who owns its recovery, what is
  rolled back or compensated, and which reports of old attempts are to be refused.

  \<^bold>\<open>The program and its theories.\<close> Paths are those of the repository; headers are under
  \<open>include/failure_fabric\<close>.

  \<^item> \<open>FF_Prelude\<close>: words, \<open>std::unordered_map\<close> as an association list with distinct keys (type
    \<open>umap\<close>, in iteration order), decimal output, and three interfaces as locales: a keyed container,
    an event system (a step function with an invariant every step keeps) and a monotone system (with
    a relation every step respects). Every component with state interprets one of the latter two.
  \<^item> \<open>FF_Id\<close> (\<open>id.hpp\<close>): 128-bit identities, typed by a phantom parameter as the C++ template is, their
    hexadecimal forms, and 64-bit generations with wrap-around.
  \<^item> \<open>FF_Enum\<close> (\<open>enum.hpp\<close>, \<open>src/enum.cpp\<close>): the enumerations with their integer values, \<open>to_string\<close>,
    \<open>from_string\<close> and the semantics flags.
  \<^item> \<open>FF_Authority\<close> (\<open>authority.hpp\<close>, \<open>src/authority.cpp\<close>): authority envelopes and the three fences, with
    the exact condition under which each accepts, and the locale \<open>attempt_fence\<close> of what the registry
    relies on.
  \<^item> \<open>FF_Failure_Record\<close> (\<open>failure_record.hpp\<close>, \<open>src/failure_record.cpp\<close>): the record, the dimensions
    derived from a class, the builder.
  \<^item> \<open>FF_Operation\<close> (\<open>operation.hpp\<close>, \<open>src/operation.cpp\<close>): the transition table of bit masks and the
    state machine; the table equals an adjacency list, and every state can reach a terminal one.
  \<^item> \<open>FF_Idempotency\<close> (\<open>idempotency.hpp\<close>, \<open>src/idempotency.cpp\<close>): the idempotency store; a key is new at
    most once, bound to its payload, and replayed once completed.
  \<^item> \<open>FF_Registry\<close> (\<open>operation_registry.hpp\<close>, \<open>src/operation_registry.cpp\<close>): every call of the operation
    registry, split into the lookup (\<open>on_op\<close>) and the body on one runtime (\<open>rt_...\<close>). Runs are lists
    of calls, other than \<open>clear\<close> and \<open>restore\<close>, which replace the content. One outcome per operation, outcomes are final, other attempts are fenced after a
    dispatch, states move along the table.
  \<^item> \<open>FF_Retry\<close> (\<open>retry.hpp\<close>, \<open>src/retry.cpp\<close>): the retry classifier as the ordered list of its early
    returns, and the backoff; the exact condition of a retry, its safety and the bound on retries.
  \<^item> \<open>FF_Recovery\<close> (\<open>recovery.hpp\<close>, \<open>src/recovery.cpp\<close>): recovery ownership (a replaced owner is never
    current again) and the planner, one definition per rule of \<open>plan\<close>; exactly when it repeats an
    operation, and how it undoes an effect.
  \<^item> \<open>FF_Rollback\<close>, \<open>FF_Compensation\<close>: the two executors; steps in order and once, a compensation
    attempted at most once.
  \<^item> \<open>FF_Persistence\<close> (\<open>persistence.hpp\<close>, \<open>src/persistence.cpp\<close>): the byte writer and reader as state
    monads, with a calculus (\<open>writes\<close>, \<open>reads\<close>) and a locale \<open>codec\<close> that gives every round trip;
    frames with their checksum, and the failure record format.
  \<^item> \<open>FF_Store\<close> (\<open>store.hpp\<close>, \<open>src/store.cpp\<close>): the append-only log and the snapshot. \<open>save\<close> gives the
    bytes of the file and \<open>save_file\<close> what becomes of the file when writing them succeeds, fails or
    stops half way (\<open>DiskWrite\<close>); \<open>load\<close> takes the bytes (or \<open>None\<close>, a file that cannot be opened) and
    a store.
  \<^item> \<open>FF_Protocol\<close> (\<open>protocol.hpp\<close>, \<open>src/protocol.cpp\<close>): wire messages and the send and receive loops
    over the system calls, which are parameters; the locales \<open>byte_sink\<close>, \<open>byte_source\<close> and
    \<open>closing_source\<close> state what a stream socket promises, and are interpreted on a socket that splits
    the stream arbitrarily.
  \<^item> \<open>FF_Sockets\<close> (the same files): \<open>TcpSocket\<close> and \<open>TcpListener\<close> from construction to destruction, over
    a record of the Winsock calls; no sequence of sessions leaks a handle.
  \<^item> \<open>FF_Coordinator\<close> (\<open>src/coordinator.cpp\<close>, \<open>src/worker.cpp\<close>): the globals of the coordinator as a
    record, with the state file and what becomes of each writing of it, one definition per message
    handler, the recovery of a lost worker, and the reaction of the worker to a message.
    Acknowledgements and fencing of lost attempts over runs of whole handlers.
  \<^item> \<open>FF_Coordinator_Inv\<close>: over the same runs, the coordinator's tables stay well formed, the store stays
    one that the snapshot format can carry, and acknowledged completions survive a crash.
  \<^item> \<open>FF_Threads\<close> (\<open>src/coordinator.cpp\<close>): the same handlers as code of threads, cut into atomic actions,
    with every mutex (of the coordinator, the store, the registry and the sockets) taken and released
    where the source does and sends that wait for their peer, and a step relation that interleaves
    them. Safety under every interleaving, no deadlock among the mutexes, a bound on acknowledgements
    by dispatches, and that the runs of whole handlers are among the interleavings.
  \<^item> \<open>FF_Worker\<close> (\<open>src/worker.cpp\<close>): the worker process from its arguments to its exit code; it ends, and
    reports a dispatch exactly once. The locale \<open>duplex\<close> is a connection that stays up.
  \<^item> \<open>FF_Server\<close> (\<open>src/coordinator.cpp\<close>): \<open>main\<close> of the coordinator, its accept loop, the life of its
    connections up to the last reference to them, and the read loop of a connection's thread; a
    dispatch over the wire joins both processes.
  \<^item> \<open>FF_Cli\<close> (\<open>tools/ff_cli.cpp\<close>): every command of the tool as its output, exit code and file.
  \<^item> \<open>FF_Cuda\<close> (\<open>src/cuda_proof.cu\<close>): the kernel, thread by thread, and the host scenarios over a device
    that is a parameter, whose every call may fail (locale \<open>device\<close>); accesses of the kernel to memory
    are checked.
  \<^item> \<open>FF_Examples\<close> (\<open>examples\<close>, \<open>consumer/main.cpp\<close>): the client programs; they succeed for all random
    numbers, on a disk that gives back what was written.
  \<^item> \<open>FF_Explain\<close> (\<open>explain.hpp\<close>, \<open>src/explain.cpp\<close>, \<open>to_json\<close>): the explanations, checked against a
    reference JSON reader, which accepts them exactly when their texts have no control character that
    \<open>quote_json\<close> forgets.

  \<^bold>\<open>How the parts interact.\<close> The coordinator receives frames (\<open>FF_Protocol\<close>), calls the registry inside
  the store, and writes a snapshot of the store when a completion is accepted. The theorems follow
  these calls: \<open>coordinator_refines_registry\<close> shows that the coordinator changes the registry only by
  registry calls, so what holds of every sequence of calls holds of it; \<open>interleavings_are_safe\<close> says
  the same of its threads; \<open>acknowledged_survives_crash\<close> rests on the snapshot round trip
  and on the success of the last writing of the file; the
  registry's fencing rests on the \<open>attempt_fence\<close> locale. \<open>thread_is_a_run\<close> turns the bytes of a socket
  into a run of the handlers. This theory holds the properties of the classifier and the planner
  together.

  \<^bold>\<open>Choices of the model.\<close> Fixed-width integers are words and wrap; \<open>size_t\<close> counts of containers in
  memory are natural numbers. Random engines (\<open>draw\<close>), the clock (\<open>now\<close>), the order in which an
  \<open>unordered_map\<close> of workers is listed (\<open>pick\<close>) and the socket system calls are parameters. Errors
  are values: \<open>option\<close>, a Boolean beside the state, or the result code of the source. A member
  function that holds its object's mutex is one step, so an interleaving of threads is a list of
  steps. The coordinator's handlers hold its global mutex only in part: \<open>FF_Coordinator\<close> runs them as
  whole steps, \<open>FF_Threads\<close> interleaves their actions, and \<open>unlocked_completion_race\<close> shows what an
  interleaving inside the completion handler does: theorems about runs of whole handlers say so, and
  do not speak of threads that interrupt each other. Loops are total functions: \<open>load_loop\<close> by the bytes
  left (every frame has at least its header), \<open>send_all\<close> and \<open>recv_all\<close> by the bytes still to move, the
  rollback loops by the steps left; the JSON reader's fuel is the length of the text, which bounds the
  number of members. The read loops of the two processes may run for ever and are partial functions
  into \<open>option\<close>; they are shown to return if the stream ends. Enumerations a snapshot stores without a range check
  have an extra constructor \<open>UNNAMED\<close> for integers outside the enumeration.

  \<^bold>\<open>Not modelled.\<close> The bodies of system calls (Winsock, files, the clock, the command interpreter, the
  CUDA runtime), which are parameters; console output, except that of the command-line tool; the
  benchmarks, which only measure time; and the umbrella headers, which only include the others. An
  unprotected read of a shared variable is one atomic action here, while C++ gives a data race no
  meaning.
\<close>

subsection \<open>Properties that span components\<close>

text \<open>The inputs of the planner and of the classifier that describe the same situation.\<close>

definition same_situation :: "RetryInput \<Rightarrow> RetryPolicy \<Rightarrow> PlanInput \<Rightarrow> bool" where
  "same_situation ri pol i \<longleftrightarrow>
     pi_attempt_count i = ri_attempt_count ri \<and> pi_max_attempts i = pol_max_attempts pol \<and>
     pi_worker_healthy i = ri_worker_healthy ri \<and> pi_dependency_ready i = ri_dependency_ready ri \<and>
     pi_deadline_exceeded i = ri_deadline_exceeded ri \<and>
     pi_idempotent_retry_possible i = ri_idempotent_retry_possible ri"

text \<open>
  C25: Where the planner follows the classifier. If the classifier grants a retry of an operation that
  is idempotent, then in the same situation the planner has it run again, in place or elsewhere,
  unless the failure is the loss of a device or worker, for which it plans a restart or a failover,
  or the record leaves its retryability open: then the classifier derives it from the failure class
  and the planner does not, and the operation runs again only if its completion is ambiguous or as
  the last resort after a resource exhaustion.
\<close>

theorem planner_follows_classifier:
  assumes "same_situation ri pol i" and "ri_idempotent_retry_possible ri"
    and "retries (rd_verdict (classify f ri pol))"
  shows "(rp_action (fst (plan draw f i g)) \<in> {RecoveryAction.RETRY, RecoveryAction.RETRY_ELSEWHERE} \<longleftrightarrow>
      \<not> hardware_loss f \<and> (fr_retryability f \<noteq> Retryability.UNKNOWN \<or> completion_ambiguous f \<or> repeats_exhausted f i)) \<and>
    (hardware_loss f \<longrightarrow> rp_action (fst (plan draw f i g)) \<in>
      {RecoveryAction.RESTART_DEVICE_CONTEXT, RecoveryAction.RESTART_WORKER, RecoveryAction.FAILOVER_REPLICA})"
proof (cases "hardware_loss f")
  case True
  then show ?thesis by (simp add: plan_action planned_action_def)
next
  case False
  have p: "retry_permitted f ri pol" using assms(3) by (simp only: classify_permitted)
  have a: "plan_ambiguous f = completion_ambiguous f" by (simp add: plan_ambiguous_def completion_ambiguous_def)
  have "repeats_safely f i \<longleftrightarrow> fr_retryability f \<noteq> Retryability.UNKNOWN \<or> completion_ambiguous f"
    using p assms(1,2)
    by (auto simp: repeats_safely_def retry_permitted_def same_situation_def a plan_retryable_class_def
        eff_retryability_def)
  then show ?thesis using planner_repeats_iff [OF False, of draw i g] False by auto
qed

theorem planner_follows_classifier_witness:
  "rp_action (fst (plan (\<lambda>n. (n, n + 1))
     (default_record\<lparr>fr_failure_class := FailureClass.TRANSPORT_FAILURE,
        fr_retryability := Retryability.CONDITIONALLY_RETRYABLE\<rparr>)
     (default_plan_input\<lparr>pi_idempotent_retry_possible := True\<rparr>) 0))
   \<in> {RecoveryAction.RETRY, RecoveryAction.RETRY_ELSEWHERE}"
  using planner_follows_classifier [of "default_retry_input\<lparr>ri_idempotent_retry_possible := True\<rparr>"
        default_policy "default_plan_input\<lparr>pi_idempotent_retry_possible := True\<rparr>"
        "default_record\<lparr>fr_failure_class := FailureClass.TRANSPORT_FAILURE,
        fr_retryability := Retryability.CONDITIONALLY_RETRYABLE\<rparr>"]
  by (simp add: same_situation_def default_plan_input_def default_retry_input_def default_policy_def
      hardware_loss_def default_record_def classify_permitted retry_permitted_def fenced_class_def
      completion_ambiguous_def)

text \<open>
  The classifier and the builder agree on what a failure class means: for a record whose
  retryability was left open, the classifier's reading of the class is the retryability the builder
  would have derived, for every class but the unknown one, which the classifier refuses to retry.
\<close>

lemma classifier_agrees_with_builder:
  assumes "fr_retryability r = Retryability.UNKNOWN"
  shows "eff_retryability r =
    (if fr_failure_class r = FailureClass.UNKNOWN then Retryability.NON_RETRYABLE
     else dim_retry (dims_for (fr_failure_class r)))"
  using assms by (cases "fr_failure_class r") (simp_all add: eff_retryability_def)

end
